(* ===== verification/Prelude.thy ===== *)
theory Prelude
  imports Complex_Main "HOL-Library.Word" "HOL-Library.AList"
begin

unbundle bit_operations_syntax

text \<open>
  Shared vocabulary of the development: the machine types of the Go sources, byte strings,
  time values, readers that consume a byte stream, and the list, map and word lemmas that the
  component theories use.

  Go's \<open>uint32\<close> and \<open>uint64\<close> are words of that width (addition wraps).  Go's \<open>int\<close>,
  \<open>int64\<close> and \<open>time.Duration\<close> are \<open>int\<close>, with \<open>wrap64\<close> written out where the code
  converts or can overflow.  A Go string is a \<open>string\<close>: its characters are bytes.
\<close>

section \<open>Machine types\<close>

type_synonym byte = "8 word"
type_synonym u16 = "16 word"
type_synonym u32 = "32 word"
type_synonym u64 = "64 word"
type_synonym bytes = "byte list"

named_theorems wire_simps \<open>lengths and shapes of encoded wire data\<close>
named_theorems read_simps \<open>how a reader consumes what an encoder wrote\<close>

definition wrap64 :: "int \<Rightarrow> int" where
  "wrap64 i = sint (word_of_int i :: u64)"

lemma wrap64_small: "- (2 ^ 63) \<le> i \<Longrightarrow> i < 2 ^ 63 \<Longrightarrow> wrap64 i = i"
  by (simp add: wrap64_def sint_sbintrunc' signed_take_bit_int_eq_self)

lemma sint_small: "unat v < 2 ^ 63 \<Longrightarrow> sint v = int (unat v)" for v :: u64
proof -
  assume "unat v < 2 ^ 63"
  then have "int (unat v) < int (2 ^ 63)" by (simp only: of_nat_less_iff)
  then show ?thesis 
    using wrap64_small [of "uint v"] order_trans [of "- (2 ^ 63)" 0 "uint v"] by (simp add: wrap64_def)
qed

lemma unat_u32_less: "unat v < 4294967296" for v :: u32
  by (rule order_less_le_trans [OF unsigned_less]) simp

lemma unat_widen: "unat (ucast v :: u64) = unat v" for v :: u32
  by (simp add: unsigned_ucast_eq take_bit_nat_eq_self order_less_trans [OF unat_u32_less])

section \<open>Strings and bytes\<close>

definition bytes_of_string :: "string \<Rightarrow> bytes" where
  "bytes_of_string s = map (\<lambda>c. of_nat (of_char c)) s"

definition string_of_bytes :: "bytes \<Rightarrow> string" where
  "string_of_bytes bs = map (\<lambda>b. char_of (unat b)) bs"

lemma of_char_less_256: "(of_char c :: nat) < 256"
  by (metis of_char_mod_256 mod_less_divisor zero_less_numeral)

lemma unat_of_char [simp]: "unat (of_nat (of_char c) :: byte) = of_char c"
  using of_char_less_256 [of c] by (simp add: unat_of_nat)

lemma length_bytes_of_string [simp, wire_simps]: "length (bytes_of_string s) = length s"
  by (simp add: bytes_of_string_def)

lemma length_string_of_bytes [simp]: "length (string_of_bytes bs) = length bs"
  by (simp add: string_of_bytes_def)

lemma string_of_bytes_of_string [simp]: "string_of_bytes (bytes_of_string s) = s"
  by (simp add: string_of_bytes_def bytes_of_string_def comp_def)

lemma bytes_of_string_of_bytes [simp]: "bytes_of_string (string_of_bytes bs) = bs"
proof -
  have "of_nat (of_char (char_of (unat b))) = b" for b :: byte
    using unsigned_less [of b, where ?'a = nat] by simp
  then show ?thesis by (simp add: string_of_bytes_def bytes_of_string_def comp_def)
qed

lemma of_char_byte_0 [simp]: "(of_nat (of_char c) :: byte) = 0 \<longleftrightarrow> c = CHR 0x00"
proof -
  have "(of_nat (of_char c) :: byte) = 0 \<longleftrightarrow> unat (of_nat (of_char c) :: byte) = 0"
    by (simp only: unat_eq_0)
  also have "\<dots> \<longleftrightarrow> (of_char c :: nat) = of_char (CHR 0x00)" by simp
  finally show ?thesis by (simp only: of_char_eq_iff)
qed

lemma zero_in_bytes_of_string [simp]: "0 \<in> set (bytes_of_string s) \<longleftrightarrow> CHR 0x00 \<in> set s"
  by (auto simp: bytes_of_string_def image_iff)

section \<open>Big-endian integers (encoding/binary)\<close>

definition be32 :: "u32 \<Rightarrow> bytes" where
  "be32 v = [ucast (drop_bit 24 v), ucast (drop_bit 16 v), ucast (drop_bit 8 v), ucast v]"

definition be64 :: "u64 \<Rightarrow> bytes" where
  "be64 v = be32 (ucast (drop_bit 32 v)) @ be32 (ucast v)"

fun un_be32 :: "bytes \<Rightarrow> u32" where
  "un_be32 [a, b, c, d] =
     (push_bit 24 (ucast a) OR push_bit 16 (ucast b) OR push_bit 8 (ucast c) OR ucast d)"
| "un_be32 _ = 0"

definition un_be64 :: "bytes \<Rightarrow> u64" where
  "un_be64 bs = (push_bit 32 (ucast (un_be32 (take 4 bs))) OR ucast (un_be32 (drop 4 bs)))"

lemma length_be32 [simp, wire_simps]: "length (be32 v) = 4"
  by (simp add: be32_def)

lemma length_be64 [simp, wire_simps]: "length (be64 v) = 8"
  by (simp add: be64_def)

lemma un_be32_be32 [simp]: "un_be32 (be32 v) = v"
proof (rule bit_eqI)
  fix n
  assume "possible_bit TYPE(u32) n"
  then have "n < 32" by simp
  then consider "n < 8" | "8 \<le> n" "n < 16" | "16 \<le> n" "n < 24" | "24 \<le> n" "n < 32"
    by linarith
  then show "bit (un_be32 (be32 v)) n = bit v n"
    by cases (auto simp: be32_def bit_or_iff bit_push_bit_iff bit_ucast_iff bit_drop_bit_eq)
qed

lemma un_be64_be64 [simp]: "un_be64 (be64 v) = v"
  by (rule bit_eqI)
    (auto simp: un_be64_def be64_def bit_or_iff bit_push_bit_iff bit_ucast_iff bit_drop_bit_eq)

section \<open>Time\<close>

text \<open>
  A \<open>time.Time\<close> is the number of nanoseconds since Go's zero time (January 1, year 1, UTC), so
  the zero value is 0.  \<open>Unix()\<close> counts seconds from 1970, \<open>Nanosecond()\<close> is the remainder.
\<close>

type_synonym time = int
type_synonym duration = int

abbreviation (input) second :: duration where
  "second \<equiv> 1000000000"

definition unix_epoch :: int where
  "unix_epoch = 62135596800"

definition time_Unix_sec :: "time \<Rightarrow> int" where
  "time_Unix_sec t = t div second - unix_epoch"

definition time_Nanosecond :: "time \<Rightarrow> int" where
  "time_Nanosecond t = t mod second"

definition time_Unix :: "int \<Rightarrow> int \<Rightarrow> time" where
  "time_Unix sec nsec = (sec + unix_epoch) * second + nsec"

section \<open>Go maps\<close>

text \<open>
  A Go map is an association list with distinct keys: \<open>map_of\<close> reads it, \<open>AList.update\<close> is
  \<open>m[k] = v\<close>, \<open>AList.delete\<close> is \<open>delete(m, k)\<close> and \<open>length\<close> is \<open>len(m)\<close>.  No operation below
  depends on the order of the entries, as Go leaves it unspecified.
\<close>

type_synonym ('k, 'v) gomap = "('k \<times> 'v) list"

definition gm_ok :: "('k, 'v) gomap \<Rightarrow> bool" where
  "gm_ok m \<longleftrightarrow> distinct (map fst m)"

named_theorems map_simps

lemma gm_ok_Nil [simp, intro]: "gm_ok []"
  by (simp add: gm_ok_def)

lemma gm_ok_update [simp, intro]: "gm_ok m \<Longrightarrow> gm_ok (AList.update k v m)"
  by (simp add: gm_ok_def distinct_update)

lemma gm_ok_delete [simp, intro]: "gm_ok m \<Longrightarrow> gm_ok (AList.delete k m)"
  by (simp add: gm_ok_def distinct_delete)

lemma map_of_update [simp, map_simps]: "map_of (AList.update k v m) = (map_of m)(k \<mapsto> v)"
  by (simp add: update_conv')

lemma map_of_delete [simp, map_simps]: "map_of (AList.delete k m) = (map_of m)(k := None)"
  by (simp add: delete_conv')

lemma length_update_old [map_simps]: "map_of m k = Some w \<Longrightarrow> length (AList.update k v m) = length m"
  by (induction m) (auto split: if_splits)

lemma length_update_new [map_simps]: "map_of m k = None \<Longrightarrow> length (AList.update k v m) = Suc (length m)"
  by (induction m) (auto split: if_splits)

lemma delete_absent: "map_of m k = None \<Longrightarrow> AList.delete k m = m"
  by (induction m) (auto simp: AList.delete_eq split: if_splits)

lemma length_delete_present [map_simps]:
  "gm_ok m \<Longrightarrow> map_of m k = Some v \<Longrightarrow> Suc (length (AList.delete k m)) = length m"
proof (induction m)
  case (Cons e m)
  show ?case
  proof (cases "fst e = k")
    case True
    with Cons.prems(1) have "map_of m k = None" by (auto simp: gm_ok_def map_of_eq_None_iff)
    with True show ?thesis
      by (cases e) (simp add: AList.delete_eq delete_absent [unfolded AList.delete_eq])
  next
    case False
    with Cons show ?thesis by (cases e) (auto simp: gm_ok_def AList.delete_eq)
  qed
qed simp

lemma length_gm_ok: "gm_ok m \<Longrightarrow> length m = card (dom (map_of m))"
  using distinct_card [of "map fst m"] by (simp add: gm_ok_def dom_map_of_conv_image_fst)

lemma map_of_nonempty: "m \<noteq> [] \<Longrightarrow> \<exists>k v. map_of m k = Some v"
  by (cases m) (auto intro: exI [of _ "fst (hd m)"])

lemma map_of_filter_key:
  "gm_ok xs \<Longrightarrow> map_of (filter P xs) p =
    (case map_of xs p of Some x \<Rightarrow> if P (p, x) then Some x else None | None \<Rightarrow> None)"
proof (induction xs)
  case (Cons y xs)
  obtain q x where y: "y = (q, x)" by fastforce
  have "map_of xs q = None" and ok: "gm_ok xs"
    using Cons.prems by (auto simp: y gm_ok_def map_of_eq_None_iff)
  with Cons.IH [OF ok] show ?case by (cases "p = q") (auto simp: y)
qed simp

end
