(* ===== verification/WorkerPool.thy ===== *)
theory WorkerPool
  imports Prelude "HOL-Library.Multiset"
begin

text \<open>
  The worker pool (\<open>worker_pool.go\<close>) as a state machine.  A task is the number of its submission;
  what \<open>Execute\<close> returns is chosen when the worker finishes it.  Goroutines advance one operation
  on a channel, lock or counter at a time, in any order: callers inside \<open>Submit\<close>, the workers, and
  the caller of \<open>Stop\<close> or \<open>Resize\<close>.  These two calls do not overlap each other.  The capacity of
  the queue is positive, because the pool is created with \<open>MaxWorkers\<close> positive.
\<close>

section \<open>State\<close>

datatype worker = Idle | Busy nat | Gone

text \<open>
  Where the caller of \<open>Stop\<close> or \<open>Resize\<close> is: waiting for \<open>closeMu\<close>, waiting for the workers to
  leave, or putting back the tasks of the old queue.  The argument is the new number of workers
  for \<open>Resize\<close>, \<open>None\<close> for \<open>Stop\<close>.
\<close>

datatype ctl = NoCall | Closing "int option" | Joining "int option" | Requeue "nat list"

text \<open>
  \<open>submitting\<close> are the callers of \<open>Submit\<close> that hold \<open>closeMu\<close> for reading after the check of
  \<open>running\<close>, \<open>rejected\<close> those that were given a nil channel.  \<open>results\<close> is what was sent on a
  result channel, \<open>Some None\<close> being nil; \<open>executed\<close> records what the workers ran.
\<close>

record 'r WorkerPool =
  maxWorkers :: int
  taskQueue :: "nat list"
  queueClosed :: bool
  cancelled :: bool
  running :: bool
  activeWorkers :: int
  workers :: "worker list"
  submitting :: "nat list"
  rejected :: "nat list"
  results :: "nat \<rightharpoonup> 'r option"
  executed :: "(nat \<times> 'r) list"
  dropped :: "nat list"
  ctl :: ctl

definition queue_cap :: "('r, 'x) WorkerPool_scheme \<Rightarrow> nat" where
  "queue_cap p = nat (maxWorkers p * 2)"

definition NewWorkerPool :: "int \<Rightarrow> 'r WorkerPool" where
  "NewWorkerPool n =
     \<lparr>maxWorkers = n, taskQueue = [], queueClosed = False, cancelled = False, running = False,
      activeWorkers = 0, workers = [], submitting = [], rejected = [], results = Map.empty,
      executed = [], dropped = [], ctl = NoCall\<rparr>"

definition Start :: "'r WorkerPool \<Rightarrow> 'r WorkerPool" where
  "Start p =
     (if running p then p
      else p\<lparr>running := True, workers := workers p @ replicate (nat (maxWorkers p)) Idle\<rparr>)"

section \<open>Submitting\<close>

definition Submit_enter :: "nat \<Rightarrow> 'r WorkerPool \<Rightarrow> 'r WorkerPool" where
  "Submit_enter t p =
     (if \<not> running p then p\<lparr>rejected := t # rejected p\<rparr>
      else p\<lparr>submitting := t # submitting p\<rparr>)"

text \<open>
  The select: a send needs room in the queue, the timer may be taken whether there is room or not;
  \<open>fired\<close> tells which of the two is taken.  While the queue is full and the timer has not fired the
  caller waits.
\<close>

definition Submit_select :: "bool \<Rightarrow> nat \<Rightarrow> 'r WorkerPool \<Rightarrow> 'r WorkerPool" where
  "Submit_select fired t p =
     (if fired then p\<lparr>submitting := remove1 t (submitting p), rejected := t # rejected p\<rparr>
      else if length (taskQueue p) < queue_cap p
      then p\<lparr>submitting := remove1 t (submitting p), taskQueue := taskQueue p @ [t]\<rparr>
      else p)"

text \<open>What \<open>SubmitWait\<close> returns: \<open>None\<close> while the caller still waits.\<close>

definition SubmitWait :: "nat \<Rightarrow> 'r WorkerPool \<Rightarrow> ('r option \<times> bool) option" where
  "SubmitWait t p =
     (if t \<in> set (rejected p) then Some (None, False)
      else map_option (\<lambda>r. (r, True)) (results p t))"

text \<open>
  \<open>ExecuteWithWorker\<close> of \<open>absnfs.go\<close> with a pool: the result of the pool, or that the caller runs
  the task itself.
\<close>

datatype 'r outcome = FromPool "'r option" | RunDirectly

definition ExecuteWithWorker :: "nat \<Rightarrow> 'r WorkerPool \<Rightarrow> 'r outcome option" where
  "ExecuteWithWorker t p =
     map_option (\<lambda>(r, ok). if ok then FromPool r else RunDirectly) (SubmitWait t p)"

section \<open>Workers\<close>

definition worker_take :: "nat \<Rightarrow> 'r WorkerPool \<Rightarrow> 'r WorkerPool" where
  "worker_take i p =
     p\<lparr>taskQueue := tl (taskQueue p), activeWorkers := activeWorkers p + 1,
       workers := (workers p)[i := Busy (hd (taskQueue p))]\<rparr>"

text \<open>The send of the result does not block: a result channel that is full keeps what it has.\<close>

definition worker_finish :: "nat \<Rightarrow> nat \<Rightarrow> 'r \<Rightarrow> 'r WorkerPool \<Rightarrow> 'r WorkerPool" where
  "worker_finish i t r p =
     p\<lparr>activeWorkers := activeWorkers p - 1, executed := (t, r) # executed p,
       results := (if results p t = None then (results p)(t \<mapsto> Some r) else results p),
       workers := (workers p)[i := Idle]\<rparr>"

definition worker_quit :: "nat \<Rightarrow> 'r WorkerPool \<Rightarrow> 'r WorkerPool" where
  "worker_quit i p = p\<lparr>workers := (workers p)[i := Gone]\<rparr>"

section \<open>Stop and Resize\<close>

definition Stop_cancel :: "int option \<Rightarrow> 'r WorkerPool \<Rightarrow> 'r WorkerPool" where
  "Stop_cancel after p = p\<lparr>running := False, cancelled := True, ctl := Closing after\<rparr>"

definition Stop_close :: "int option \<Rightarrow> 'r WorkerPool \<Rightarrow> 'r WorkerPool" where
  "Stop_close after p = p\<lparr>queueClosed := True, ctl := Joining after\<rparr>"

definition Stop :: "'r WorkerPool \<Rightarrow> 'r WorkerPool" where
  "Stop p = (if running p then Stop_cancel None p else p)"

text \<open>The queue, context and counter of a resized pool; the old queue is drained.\<close>

definition resized :: "int \<Rightarrow> 'r WorkerPool \<Rightarrow> 'r WorkerPool" where
  "resized n p =
     p\<lparr>maxWorkers := n, taskQueue := [], queueClosed := False, cancelled := False, activeWorkers := 0\<rparr>"

definition drop_tasks :: "nat list \<Rightarrow> 'r WorkerPool \<Rightarrow> 'r WorkerPool" where
  "drop_tasks ts p =
     p\<lparr>dropped := ts @ dropped p, results := (\<lambda>t. if t \<in> set ts then Some None else results p t)\<rparr>"

definition Resize :: "int \<Rightarrow> 'r WorkerPool \<Rightarrow> 'r WorkerPool" where
  "Resize n p =
     (let n = (if n \<le> 0 then 1 else n)
      in if maxWorkers p = n then p
         else if running p then Stop_cancel (Some n) p
         else drop_tasks (taskQueue p) (resized n p))"

text \<open>After \<open>Stop\<close> has returned inside \<open>Resize\<close>.\<close>

definition Resize_restart :: "int \<Rightarrow> 'r WorkerPool \<Rightarrow> 'r WorkerPool" where
  "Resize_restart n p = (Start (resized n p))\<lparr>ctl := Requeue (taskQueue p)\<rparr>"

definition Resize_requeue :: "nat \<Rightarrow> nat list \<Rightarrow> 'r WorkerPool \<Rightarrow> 'r WorkerPool" where
  "Resize_requeue t ts p =
     (let p = p\<lparr>ctl := Requeue ts\<rparr>
      in if length (taskQueue p) < queue_cap p then p\<lparr>taskQueue := taskQueue p @ [t]\<rparr>
         else drop_tasks [t] p)"

definition Stats :: "'r WorkerPool \<Rightarrow> int \<times> int \<times> int" where
  "Stats p = (maxWorkers p, activeWorkers p, int (length (taskQueue p)))"

section \<open>Steps\<close>

fun task_of :: "worker \<Rightarrow> nat list" where
  "task_of (Busy t) = [t]"
| "task_of _ = []"

definition busy_tasks :: "worker list \<Rightarrow> nat list" where
  "busy_tasks ws = concat (map task_of ws)"

fun ctl_tasks :: "ctl \<Rightarrow> nat list" where
  "ctl_tasks (Requeue ts) = ts"
| "ctl_tasks _ = []"

text \<open>Every task the pool was given, in the place where it is now.\<close>

definition tasks :: "'r WorkerPool \<Rightarrow> nat multiset" where
  "tasks p =
     mset (submitting p) + mset (taskQueue p) + mset (busy_tasks (workers p)) + mset (ctl_tasks (ctl p)) +
     mset (map fst (executed p)) + mset (dropped p) + mset (rejected p)"

text \<open>What the workers do, as the select of \<open>worker\<close> allows it.\<close>

inductive worker_step :: "'r WorkerPool \<Rightarrow> 'r WorkerPool \<Rightarrow> bool" where
  take: "i < length (workers p) \<Longrightarrow> workers p ! i = Idle \<Longrightarrow> taskQueue p \<noteq> [] \<Longrightarrow>
    worker_step p (worker_take i p)"
| finish: "i < length (workers p) \<Longrightarrow> workers p ! i = Busy t \<Longrightarrow> worker_step p (worker_finish i t r p)"
| quit: "i < length (workers p) \<Longrightarrow> workers p ! i = Idle \<Longrightarrow>
    cancelled p \<or> (queueClosed p \<and> taskQueue p = []) \<Longrightarrow> worker_step p (worker_quit i p)"

inductive pool_step :: "'r WorkerPool \<Rightarrow> 'r WorkerPool \<Rightarrow> bool" where
  submit: "t \<notin># tasks p \<Longrightarrow> pool_step p (Submit_enter t p)"
| select: "t \<in> set (submitting p) \<Longrightarrow> \<not> queueClosed p \<Longrightarrow> pool_step p (Submit_select fired t p)"
| work: "worker_step p p' \<Longrightarrow> pool_step p p'"
| stop: "ctl p = NoCall \<Longrightarrow> pool_step p (Stop p)"
| close: "ctl p = Closing after \<Longrightarrow> submitting p = [] \<Longrightarrow> pool_step p (Stop_close after p)"
| joined: "ctl p = Joining None \<Longrightarrow> set (workers p) \<subseteq> {Gone} \<Longrightarrow> pool_step p (p\<lparr>ctl := NoCall\<rparr>)"
| resize: "ctl p = NoCall \<Longrightarrow> pool_step p (Resize n p)"
| restart: "ctl p = Joining (Some n) \<Longrightarrow> set (workers p) \<subseteq> {Gone} \<Longrightarrow> pool_step p (Resize_restart n p)"
| requeue: "ctl p = Requeue (t # ts) \<Longrightarrow> pool_step p (Resize_requeue t ts p)"
| requeued: "ctl p = Requeue [] \<Longrightarrow> pool_step p (p\<lparr>ctl := NoCall\<rparr>)"

text \<open>The states of a pool created and started as \<open>New\<close> does.\<close>

definition pool_reach :: "int \<Rightarrow> 'r WorkerPool \<Rightarrow> bool" where
  "pool_reach n p \<longleftrightarrow> rtranclp pool_step (Start (NewWorkerPool n)) p"

section \<open>Conservation of tasks\<close>

lemmas pool_defs = Submit_enter_def Submit_select_def worker_take_def worker_finish_def worker_quit_def
  Stop_cancel_def Stop_close_def Stop_def resized_def drop_tasks_def Resize_def Resize_restart_def
  Resize_requeue_def Start_def queue_cap_def Let_def

lemma busy_tasks_update:
  "i < length ws \<Longrightarrow>
    mset (busy_tasks (ws[i := w])) + mset (task_of (ws ! i)) = mset (busy_tasks ws) + mset (task_of w)"
  unfolding busy_tasks_def
proof (induction ws arbitrary: i)
  case (Cons v ws)
  then show ?case by (cases i) (auto simp: algebra_simps)
qed simp

lemma busy_tasks_simps [simp]:
  "busy_tasks [] = []" "busy_tasks (w # ws) = task_of w @ busy_tasks ws" "busy_tasks (replicate n Idle) = []" "busy_tasks (ws @ replicate n Idle) = busy_tasks ws"
  by (simp_all add: busy_tasks_def)

lemma busy_tasks_gone: "set ws \<subseteq> {Gone} \<Longrightarrow> busy_tasks ws = []"
  by (auto simp: busy_tasks_def)

lemma busy_after:
  assumes "i < length ws"
  shows "ws ! i = Idle \<Longrightarrow> mset (busy_tasks (ws[i := Busy t])) = add_mset t (mset (busy_tasks ws))"
    and "ws ! i = Idle \<Longrightarrow> mset (busy_tasks (ws[i := Gone])) = mset (busy_tasks ws)"
    and "ws ! i = Busy t \<Longrightarrow> mset (busy_tasks ws) = add_mset t (mset (busy_tasks (ws[i := Idle])))"
  using busy_tasks_update [OF assms, of "Busy t"] busy_tasks_update [OF assms, of Gone]
    busy_tasks_update [OF assms, of Idle] by simp_all

lemma worker_step_tasks: "worker_step p p' \<Longrightarrow> tasks p' = tasks p"
proof (induction rule: worker_step.induct)
  case (take i p)
  then obtain t q where q: "taskQueue p = t # q" by (cases "taskQueue p") auto
  with take busy_after(1) [of i "workers p" t] show ?case by (simp add: tasks_def pool_defs)
next
  case (finish i p t r)
  with busy_after(3) [of i "workers p" t] show ?case by (simp add: tasks_def pool_defs)
next
  case (quit i p)
  with busy_after(2) [of i "workers p"] show ?case by (simp add: tasks_def pool_defs)
qed

lemma pool_step_tasks:
  "pool_step p p' \<Longrightarrow> tasks p' = tasks p \<or> (\<exists>t. t \<notin># tasks p \<and> tasks p' = add_mset t (tasks p))"
proof (induction rule: pool_step.induct)
  case (work p p')
  then show ?case by (simp add: worker_step_tasks)
qed (auto simp: tasks_def pool_defs)

section \<open>Invariant\<close>

text \<open>Every task is in one place; a result channel holds what its worker returned, or nil for a dropped task.\<close>

definition tasks_inv :: "'r WorkerPool \<Rightarrow> bool" where
  "tasks_inv p \<longleftrightarrow>
     (\<forall>t. count (tasks p) t \<le> 1) \<and>
     (\<forall>t r. results p t = Some (Some r) \<longleftrightarrow> (t, r) \<in> set (executed p)) \<and>
     (\<forall>t. results p t = Some None \<longleftrightarrow> t \<in> set (dropped p))"

text \<open>The flags, the queue and the workers in each phase of the life of a pool.\<close>

definition live :: "worker list \<Rightarrow> nat" where
  "live ws = length (filter (\<lambda>w. w \<noteq> Gone) ws)"

definition phase_inv :: "'r WorkerPool \<Rightarrow> bool" where
  "phase_inv p \<longleftrightarrow>
     0 < maxWorkers p \<and> length (taskQueue p) \<le> queue_cap p \<and>
     activeWorkers p = int (length (busy_tasks (workers p))) \<and>
     (running p \<longrightarrow> \<not> cancelled p \<and> \<not> queueClosed p \<and> live (workers p) = nat (maxWorkers p)) \<and>
     (queueClosed p \<longrightarrow> submitting p = []) \<and>
     (case ctl p of
        NoCall \<Rightarrow> \<not> running p \<longrightarrow> set (workers p) \<subseteq> {Gone} \<and> submitting p = []
      | Closing after \<Rightarrow> \<not> running p \<and> cancelled p \<and> \<not> queueClosed p \<and> (\<forall>n. after = Some n \<longrightarrow> 0 < n)
      | Joining after \<Rightarrow> \<not> running p \<and> cancelled p \<and> queueClosed p \<and> (\<forall>n. after = Some n \<longrightarrow> 0 < n)
      | Requeue _ \<Rightarrow> running p)"

lemma tasks_inv_result:
  assumes "tasks_inv p" and "t \<in># mset (submitting p) + mset (taskQueue p) + mset (busy_tasks (workers p)) + mset (ctl_tasks (ctl p))"
  shows "results p t = None" and "(t, x) \<notin> set (executed p)" and "t \<notin> set (dropped p)"
proof -
  have "count (tasks p) t \<le> 1" using assms(1) by (simp add: tasks_inv_def)
  moreover have "count (mset (submitting p) + mset (taskQueue p) + mset (busy_tasks (workers p)) + mset (ctl_tasks (ctl p))) t \<ge> 1"
    using assms(2) by (simp only: Suc_le_eq One_nat_def count_greater_zero_iff)
  ultimately have "count (mset (map fst (executed p))) t = 0" "count (mset (dropped p)) t = 0"
    unfolding tasks_def count_union by linarith+
  then have e: "t \<notin> fst ` set (executed p)" and d: "t \<notin> set (dropped p)"
    by (simp_all only: count_eq_zero_iff set_mset_mset set_map not_False_eq_True)
  show "(t, x) \<notin> set (executed p)" using e by force
  show "t \<notin> set (dropped p)" by (rule d)
  have "results p t \<noteq> Some None" "\<And>r. results p t \<noteq> Some (Some r)"
    using assms(1) e d by (force simp: tasks_inv_def)+
  then show "results p t = None" by (metis option.exhaust)
qed

lemma tasks_inv_step:
  assumes "pool_step p p'" and inv: "tasks_inv p"
  shows "tasks_inv p'"
proof -
  have "count (tasks p') t \<le> 1" for t
    using pool_step_tasks [OF assms(1)] inv by (auto simp: tasks_inv_def not_in_iff)
  moreover have "(\<forall>t r. results p' t = Some (Some r) \<longleftrightarrow> (t, r) \<in> set (executed p')) \<and>
     (\<forall>t. results p' t = Some None \<longleftrightarrow> t \<in> set (dropped p'))"
    using assms
  proof (induction rule: pool_step.induct)
    case (work p p')
    then show ?case
    proof (induction rule: worker_step.induct)
      case (finish i p t r)
      then have "t \<in># mset (busy_tasks (workers p))" by (subst busy_after(3)) auto
      then have "t \<in># mset (submitting p) + mset (taskQueue p) + mset (busy_tasks (workers p)) + mset (ctl_tasks (ctl p))"
        by simp
      note new = tasks_inv_result [OF finish(3) this]
      from new finish(3) show ?case by (auto simp: tasks_inv_def worker_finish_def)
    qed (simp_all add: tasks_inv_def worker_take_def worker_quit_def)
  next
    case (requeue p t ts)
    then have "t \<in># mset (submitting p) + mset (taskQueue p) + mset (busy_tasks (workers p)) + mset (ctl_tasks (ctl p))"
      by simp
    note new = tasks_inv_result [OF requeue(2) this]
    from new requeue(2) show ?case by (auto simp: tasks_inv_def Resize_requeue_def drop_tasks_def Let_def)
  next
    case (resize p n)
    have "t \<in># mset (submitting p) + mset (taskQueue p) + mset (busy_tasks (workers p)) + mset (ctl_tasks (ctl p))"
      if "t \<in> set (taskQueue p)" for t
      using that by simp
    note new = tasks_inv_result [OF resize(2) this]
    from new resize(2) show ?case
      by (auto simp: tasks_inv_def Resize_def drop_tasks_def resized_def Stop_cancel_def Let_def)
  qed (auto simp: tasks_inv_def pool_defs)
  ultimately show ?thesis by (simp add: tasks_inv_def)
qed

lemma live_update:
  "i < length ws \<Longrightarrow> ws ! i \<noteq> Gone \<Longrightarrow> w \<noteq> Gone \<Longrightarrow> live (ws[i := w]) = live ws"
  unfolding live_def
proof (induction ws arbitrary: i)
  case (Cons v ws)
  then show ?case by (cases i) auto
qed simp

lemma live_replicate: "set ws \<subseteq> {Gone} \<Longrightarrow> live (ws @ replicate n Idle) = n"
  by (auto simp: live_def subset_eq intro: filter_False)

lemma length_busy_after:
  assumes "i < length ws"
  shows "ws ! i = Idle \<Longrightarrow> length (busy_tasks (ws[i := Busy t])) = Suc (length (busy_tasks ws))"
    and "ws ! i = Idle \<Longrightarrow> length (busy_tasks (ws[i := Gone])) = length (busy_tasks ws)"
    and "ws ! i = Busy t \<Longrightarrow> length (busy_tasks ws) = Suc (length (busy_tasks (ws[i := Idle])))"
  using busy_after [OF assms, THEN arg_cong [of _ _ size]] by auto

lemma gone_worker: "i < length ws \<Longrightarrow> set ws \<subseteq> {Gone} \<Longrightarrow> ws ! i = Gone"
  using nth_mem by blast

lemma phase_inv_worker: "worker_step p p' \<Longrightarrow> phase_inv p \<Longrightarrow> phase_inv p'"
proof (induction rule: worker_step.induct)
  case (take i p)
  have "\<not> set (workers p) \<subseteq> {Gone}" using take(1,2) gone_worker by fastforce
  with take show ?case
    by (auto simp: phase_inv_def worker_take_def queue_cap_def length_busy_after(1) live_update split: ctl.splits)
next
  case (finish i p t r)
  have "\<not> set (workers p) \<subseteq> {Gone}" using finish(1,2) gone_worker by fastforce
  with finish show ?case
    by (auto simp: phase_inv_def worker_finish_def queue_cap_def length_busy_after(3) live_update split: ctl.splits)
next
  case (quit i p)
  then show ?case
    using set_update_subset_insert [of "workers p" i Gone]
    by (auto simp: phase_inv_def worker_quit_def queue_cap_def length_busy_after(2) split: ctl.splits)
qed

lemma phase_inv_step: "pool_step p p' \<Longrightarrow> phase_inv p \<Longrightarrow> phase_inv p'"
proof (induction rule: pool_step.induct)
  case (work p p')
  then show ?case by (rule phase_inv_worker)
next
  case (resize p n)
  then show ?case
    by (auto simp: phase_inv_def Resize_def Stop_cancel_def drop_tasks_def resized_def queue_cap_def Let_def
        busy_tasks_gone)
next
  case (restart p n)
  then show ?case
    by (auto simp: phase_inv_def Resize_restart_def Start_def resized_def queue_cap_def
        busy_tasks_gone live_replicate)
qed (auto simp: phase_inv_def pool_defs split: ctl.splits)

lemma pool_reach_inv: "pool_reach n p \<Longrightarrow> 0 < n \<Longrightarrow> tasks_inv p \<and> phase_inv p"
  unfolding pool_reach_def
proof (induction rule: rtranclp_induct)
  case base
  then show ?case
    by (simp add: tasks_inv_def phase_inv_def tasks_def Start_def NewWorkerPool_def queue_cap_def live_def)
next
  case (step p p')
  then show ?case using tasks_inv_step phase_inv_step by blast
qed

section \<open>Properties\<close>

lemma distinct_by_count: "(\<And>x. count (mset xs) x \<le> 1) \<Longrightarrow> distinct xs"
proof (induction xs)
  case (Cons y xs)
  have "count (mset xs) x \<le> 1" for x
    using Cons.prems [of x] unfolding mset.simps count_add_mset by (metis Suc_leD)
  moreover have "count (mset xs) y = 0" using Cons.prems [of y] by simp
  then have "y \<notin> set xs" by (simp only: count_eq_zero_iff set_mset_mset not_False_eq_True)
  ultimately show ?case using Cons.IH by simp
qed simp

text \<open>
  C36: No task is run twice or by two parties.  Whatever callers, workers, \<open>Stop\<close> and \<open>Resize\<close> do,
  each submitted task is executed at most once by the pool; a caller who is told to run the task
  itself has a task the pool never executed; a caller who is given a result is given the one its
  own execution returned; and a caller who is given nil has a task that nobody executes.
\<close>

theorem tasks_run_once:
  assumes "pool_reach n p" and "0 < n"
  shows "distinct (map fst (executed p)) \<and>
    (ExecuteWithWorker t p = Some RunDirectly \<longrightarrow> t \<notin> fst ` set (executed p)) \<and>
    (ExecuteWithWorker t p = Some (FromPool (Some r)) \<longrightarrow> (t, r) \<in> set (executed p)) \<and>
    (ExecuteWithWorker t p = Some (FromPool None) \<longrightarrow> t \<notin> fst ` set (executed p))"
proof -
  have inv: "tasks_inv p" using pool_reach_inv [OF assms] by simp
  then have c: "count (tasks p) x \<le> 1" for x by (simp add: tasks_inv_def)
  have "count (mset (map fst (executed p))) x \<le> 1" for x
    using c [of x] unfolding tasks_def count_union by linarith
  then have "distinct (map fst (executed p))"
    by (rule distinct_by_count)
  moreover have "x \<notin> fst ` set (executed p)" if "x \<in> set (rejected p) \<or> x \<in> set (dropped p)" for x
  proof
    assume "x \<in> fst ` set (executed p)"
    then have "count (mset (map fst (executed p))) x \<ge> 1"
      by (simp only: count_greater_eq_one_iff set_mset_mset set_map)
    moreover have "count (mset (dropped p)) x + count (mset (rejected p)) x \<ge> 1"
      using that by (auto simp only: count_greater_eq_one_iff set_mset_mset
          intro: trans_le_add1 trans_le_add2)
    ultimately show False using c [of x] unfolding tasks_def count_union by linarith
  qed
  moreover have "results p t = Some (Some r) \<longleftrightarrow> (t, r) \<in> set (executed p)"
    "results p t = Some None \<longleftrightarrow> t \<in> set (dropped p)"
    using inv by (simp_all add: tasks_inv_def)
  ultimately show ?thesis
    by (cases "t \<in> set (rejected p)"; cases "results p t") (simp_all add: ExecuteWithWorker_def SubmitWait_def)
qed

text \<open>What the workers still have to do: two operations for a queued task, one for a task being run.\<close>

definition work_left :: "'r WorkerPool \<Rightarrow> nat" where
  "work_left p = 2 * length (taskQueue p) + length (busy_tasks (workers p))"

text \<open>The workers of a running pool, and that nothing but them touches the tasks they were given.\<close>

definition serving_pool :: "'r WorkerPool \<Rightarrow> bool" where
  "serving_pool p \<longleftrightarrow> running p \<and> tasks_inv p \<and> phase_inv p"

lemma serving_pool_step:
  assumes "worker_step p p'" and "serving_pool p"
  shows "serving_pool p' \<and> work_left p = Suc (work_left p') \<and>
    set (taskQueue p @ busy_tasks (workers p)) \<union> fst ` set (executed p) =
    set (taskQueue p' @ busy_tasks (workers p')) \<union> fst ` set (executed p')"
proof -
  have "tasks_inv p'" "phase_inv p'"
    using assms phase_inv_worker tasks_inv_step [OF pool_step.work] by (auto simp: serving_pool_def)
  moreover have live: "\<not> cancelled p \<and> \<not> queueClosed p" "running p"
    using assms(2) by (auto simp: serving_pool_def phase_inv_def)
  ultimately have inv': "serving_pool p'" if "running p'" using that by (simp add: serving_pool_def)
  show ?thesis
    using assms(1)
  proof (cases rule: worker_step.cases)
    case (take i)
    then obtain t q where q: "taskQueue p = t # q" by (cases "taskQueue p") auto
    have "set (busy_tasks ((workers p)[i := Busy t])) = insert t (set (busy_tasks (workers p)))"
      using arg_cong [OF busy_after(1) [of i "workers p" t], of set_mset] take by simp
    with take q live inv' show ?thesis
      by (simp add: work_left_def worker_take_def length_busy_after(1))
  next
    case (finish i t r)
    have "set (busy_tasks (workers p)) = insert t (set (busy_tasks ((workers p)[i := Idle])))"
      using arg_cong [OF busy_after(3) [of i "workers p" t], of set_mset] finish by simp
    with finish live inv' length_busy_after(3) [of i "workers p" t] show ?thesis
      by (simp add: work_left_def worker_finish_def)
  next
    case (quit i)
    with live show ?thesis by simp
  qed
qed

lemma serving_pool_run:
  "(worker_step ^^ k) p p' \<Longrightarrow> serving_pool p \<Longrightarrow>
    serving_pool p' \<and> work_left p = work_left p' + k \<and>
    set (taskQueue p @ busy_tasks (workers p)) \<union> fst ` set (executed p) =
    set (taskQueue p' @ busy_tasks (workers p')) \<union> fst ` set (executed p')"
proof (induction k arbitrary: p')
  case (Suc k)
  then obtain q where q: "(worker_step ^^ k) p q" "worker_step q p'" by (auto elim: relpowp_Suc_E)
  note first = Suc.IH [OF q(1) Suc.prems(2)]
  note last = serving_pool_step [OF q(2) conjunct1 [OF first]]
  from first last show ?case by (elim conjE) simp
qed simp

lemma serving_pool_progress:
  assumes "serving_pool p" and "0 < work_left p"
  shows "\<exists>p'. worker_step p p'"
proof (cases "busy_tasks (workers p) = []")
  case True
  with assms(2) have q: "taskQueue p \<noteq> []" by (auto simp: work_left_def)
  have "live (workers p) > 0" using assms(1) by (simp add: serving_pool_def phase_inv_def)
  then obtain i where i: "i < length (workers p)" "workers p ! i \<noteq> Gone"
    by (auto simp: live_def filter_empty_conv in_set_conv_nth)
  have "workers p ! i = Idle"
  proof (cases "workers p ! i")
    case (Busy t)
    with busy_after(3) [OF i(1)] True show ?thesis by simp
  qed (use i in simp_all)
  with i q show ?thesis by (blast intro: worker_step.take)
next
  case False
  then obtain w where w: "w \<in> set (workers p)" "task_of w \<noteq> []"
    by (auto simp: busy_tasks_def)
  from w(2) obtain t where "w = Busy t" by (cases w) auto
  with w(1) obtain i where "i < length (workers p)" "workers p ! i = Busy t"
    by (auto simp: in_set_conv_nth)
  then show ?thesis by (blast intro: worker_step.finish)
qed

text \<open>
  C37: A running pool serves what it accepted.  As long as fewer operations were made than the
  queued and running tasks need, some worker can make the next one, in whatever order they act; and
  after that many operations every task that was queued or running has been answered with the
  result of its execution.
\<close>

theorem running_pool_serves:
  assumes "pool_reach n p" and "0 < n" and "running p"
    and "t \<in> set (taskQueue p @ busy_tasks (workers p))"
    and "(worker_step ^^ k) p p'"
  shows "(k < work_left p \<longrightarrow> (\<exists>p''. worker_step p' p'')) \<and>
    (k = work_left p \<longrightarrow> (\<exists>r. (t, r) \<in> set (executed p') \<and> results p' t = Some (Some r)))"
proof -
  have s: "serving_pool p" using pool_reach_inv [OF assms(1,2)] assms(3) by (simp add: serving_pool_def)
  note run = serving_pool_run [OF assms(5) s]
  have "t \<in> fst ` set (executed p')" if "k = work_left p"
  proof -
    from run that have "taskQueue p' = []" "busy_tasks (workers p') = []" by (auto simp: work_left_def)
    with run assms(4) show ?thesis by auto
  qed
  then have "\<exists>r. (t, r) \<in> set (executed p')" if "k = work_left p" using that by force
  moreover have "results p' t = Some (Some r)" if "(t, r) \<in> set (executed p')" for r
    using run that by (simp add: serving_pool_def tasks_inv_def)
  moreover have "\<exists>p''. worker_step p' p''" if "k < work_left p"
    by (rule serving_pool_progress) (use run that in auto)
  ultimately show ?thesis by blast
qed

text \<open>
  C38: Stopping strands what is queued: a task that is still in the queue when \<open>Stop\<close> has returned
  has no answer, and no worker is left that could give one, so its caller keeps waiting.
\<close>

theorem stop_strands_queued_tasks:
  assumes "pool_reach n p" and "0 < n" and "ctl p = NoCall" and "\<not> running p"
    and "t \<in> set (taskQueue p)"
  shows "ExecuteWithWorker t p = None \<and> (\<forall>p'. \<not> worker_step p p')"
proof -
  have inv: "tasks_inv p" "phase_inv p" using pool_reach_inv [OF assms(1,2)] by simp_all
  have gone: "set (workers p) \<subseteq> {Gone}" using inv(2) assms(3,4) by (simp add: phase_inv_def)
  have "t \<in># mset (submitting p) + mset (taskQueue p) + mset (busy_tasks (workers p)) + mset (ctl_tasks (ctl p))"
    using assms(5) by simp
  then have "results p t = None" by (rule tasks_inv_result(1) [OF inv(1)])
  moreover have "t \<notin> set (rejected p)"
  proof
    assume "t \<in> set (rejected p)"
    then have "count (mset (rejected p)) t \<ge> 1" "count (mset (taskQueue p)) t \<ge> 1"
      using assms(5) by (simp_all only: count_greater_eq_one_iff set_mset_mset)
    moreover have "count (tasks p) t \<le> 1" using inv(1) by (simp add: tasks_inv_def)
    ultimately show False unfolding tasks_def count_union by linarith
  qed
  ultimately have "ExecuteWithWorker t p = None" by (simp add: ExecuteWithWorker_def SubmitWait_def)
  moreover have "\<not> worker_step p p'" for p'
  proof
    assume "worker_step p p'"
    then show False by cases (use gone_worker [OF _ gone] in force)+
  qed
  ultimately show ?thesis by blast
qed

section \<open>A sample pool\<close>

text \<open>One worker; a task is queued, and then served, or the pool is stopped first.\<close>

definition sample_queued :: "nat WorkerPool" where
  "sample_queued = Submit_select False 0 (Submit_enter 0 (Start (NewWorkerPool 1)))"

definition sample_served :: "nat WorkerPool" where
  "sample_served = worker_finish 0 0 42 (worker_take 0 sample_queued)"

definition sample_stopped :: "nat WorkerPool" where
  "sample_stopped = (worker_quit 0 (Stop_close None (Stop sample_queued)))\<lparr>ctl := NoCall\<rparr>"

lemmas sample_pool_defs = sample_queued_def sample_served_def sample_stopped_def NewWorkerPool_def pool_defs

lemma pool_reach_step: "pool_reach n p \<Longrightarrow> pool_step p p' \<Longrightarrow> pool_reach n p'"
  unfolding pool_reach_def by (rule rtranclp.rtrancl_into_rtrancl)

lemma sample_queued_reach: "pool_reach 1 sample_queued"
proof -
  have "pool_reach 1 (Start (NewWorkerPool 1) :: nat WorkerPool)" by (simp add: pool_reach_def)
  then have "pool_reach 1 (Submit_enter 0 (Start (NewWorkerPool 1)) :: nat WorkerPool)"
    by (rule pool_reach_step) (rule pool_step.submit, simp add: tasks_def NewWorkerPool_def pool_defs)
  then show ?thesis unfolding sample_queued_def
    by (rule pool_reach_step) (rule pool_step.select, simp_all add: NewWorkerPool_def pool_defs)
qed

lemma sample_served_run: "(worker_step ^^ 2) sample_queued sample_served"
proof -
  have "worker_step sample_queued (worker_take 0 sample_queued)"
    by (rule worker_step.take) (simp_all add: sample_pool_defs)
  moreover have "worker_step (worker_take 0 sample_queued) sample_served"
    unfolding sample_served_def by (rule worker_step.finish) (simp_all add: sample_pool_defs)
  ultimately show ?thesis by (auto simp: numeral_2_eq_2)
qed

lemma sample_stopped_reach: "pool_reach 1 sample_stopped"
proof -
  have "pool_reach 1 (Stop sample_queued)"
    by (rule pool_reach_step [OF sample_queued_reach]) (rule pool_step.stop, simp add: sample_pool_defs)
  then have "pool_reach 1 (Stop_close None (Stop sample_queued))"
    by (rule pool_reach_step) (rule pool_step.close, simp_all add: sample_pool_defs)
  then have "pool_reach 1 (worker_quit 0 (Stop_close None (Stop sample_queued)))"
    by (rule pool_reach_step) (rule pool_step.work, rule worker_step.quit, simp_all add: sample_pool_defs)
  then show ?thesis unfolding sample_stopped_def
    by (rule pool_reach_step) (rule pool_step.joined, simp_all add: sample_pool_defs)
qed

theorem tasks_run_once_witness:
  "pool_reach 1 sample_queued \<and> distinct (map fst (executed sample_queued)) \<and> ExecuteWithWorker 0 sample_queued = None"
proof (intro conjI sample_queued_reach)
  show "distinct (map fst (executed sample_queued))"
    by (rule conjunct1 [OF tasks_run_once [OF sample_queued_reach, of 0 0]]) simp
  show "ExecuteWithWorker 0 sample_queued = None"
    by (simp add: ExecuteWithWorker_def SubmitWait_def sample_pool_defs)
qed

theorem running_pool_serves_witness:
  "work_left sample_queued = 2 \<and> (\<exists>r. (0, r) \<in> set (executed sample_served) \<and> results sample_served 0 = Some (Some r))"
proof (rule conjI)
  show work: "work_left sample_queued = 2" by (simp add: work_left_def sample_pool_defs)
  have "running sample_queued" "0 \<in> set (taskQueue sample_queued @ busy_tasks (workers sample_queued))"
    by (simp_all add: sample_pool_defs)
  from running_pool_serves [OF sample_queued_reach zero_less_one this sample_served_run] work
  show "\<exists>r. (0, r) \<in> set (executed sample_served) \<and> results sample_served 0 = Some (Some r)" by simp
qed

theorem stop_strands_queued_tasks_witness:
  "ExecuteWithWorker 0 sample_stopped = None \<and> (\<forall>p'. \<not> worker_step sample_stopped p')"
  by (rule stop_strands_queued_tasks [OF sample_stopped_reach]) (simp_all add: sample_pool_defs)

end
