(* ===== verification/GoErrors.thy ===== *)
theory GoErrors
  imports Prelude
begin

text \<open>
  Go error values as the sources build and inspect them: sentinel errors, \<open>syscall.Errno\<close>
  values with their own \<open>Is\<close> method, the typed errors of \<open>errors.go\<close>, errors wrapped by
  \<open>fmt.Errorf\<close> with \<open>%w\<close> and by \<open>os.PathError\<close>.  \<open>errors.Is\<close> and \<open>errors.As\<close> follow
  the whole chain; \<open>os.IsExist\<close> and its kin look through a path error only.  \<open>mapError\<close> of
  \<open>operations.go\<close> turns an error into an NFS status.
\<close>

section \<open>Error values\<close>

datatype errno = ENOENT | EACCES | EPERM | EEXIST | ENOTEMPTY | ENOTDIR | EISDIR
  | ENOSPC | EFBIG | ENAMETOOLONG | EINVAL | Errno nat

datatype goerr =
    ErrNotExist | ErrPermission | ErrExist | ErrInvalid
  | ErrTimeout | DeadlineExceeded | EOF | ErrUnexpectedEOF
  | Sys errno
  | InvalidFileHandleError u64 string
  | NotSupportedError string string
  | ErrText string
  | Wrap string goerr
  | PathErr string string goerr

type_synonym 'a result = "goerr + 'a"

text \<open>\<open>syscall.Errno.Is\<close>: which sentinels an errno counts as.\<close>

definition errno_is :: "errno \<Rightarrow> goerr \<Rightarrow> bool" where
  "errno_is e target =
     (case target of
        ErrPermission \<Rightarrow> e = EACCES \<or> e = EPERM
      | ErrExist \<Rightarrow> e = EEXIST \<or> e = ENOTEMPTY
      | ErrNotExist \<Rightarrow> e = ENOENT
      | _ \<Rightarrow> False)"

definition err_matches :: "goerr \<Rightarrow> goerr \<Rightarrow> bool" where
  "err_matches e target = (e = target \<or> (case e of Sys n \<Rightarrow> errno_is n target | _ \<Rightarrow> False))"

fun errors_Is :: "goerr \<Rightarrow> goerr \<Rightarrow> bool" where
  "errors_Is (Wrap m e) target = (err_matches (Wrap m e) target \<or> errors_Is e target)"
| "errors_Is (PathErr op p e) target = (err_matches (PathErr op p e) target \<or> errors_Is e target)"
| "errors_Is e target = err_matches e target"

fun errors_As_InvalidFileHandle :: "goerr \<Rightarrow> bool" where
  "errors_As_InvalidFileHandle (InvalidFileHandleError h r) = True"
| "errors_As_InvalidFileHandle (Wrap m e) = errors_As_InvalidFileHandle e"
| "errors_As_InvalidFileHandle (PathErr op p e) = errors_As_InvalidFileHandle e"
| "errors_As_InvalidFileHandle _ = False"

fun errors_As_NotSupported :: "goerr \<Rightarrow> bool" where
  "errors_As_NotSupported (NotSupportedError op r) = True"
| "errors_As_NotSupported (Wrap m e) = errors_As_NotSupported e"
| "errors_As_NotSupported (PathErr op p e) = errors_As_NotSupported e"
| "errors_As_NotSupported _ = False"

text \<open>\<open>os.underlyingErrorIs\<close>: one path error is opened, an \<open>fmt.Errorf\<close> wrapper is not.\<close>

definition underlyingError :: "goerr \<Rightarrow> goerr" where
  "underlyingError e = (case e of PathErr op p e' \<Rightarrow> e' | _ \<Rightarrow> e)"

definition os_IsNotExist :: "goerr \<Rightarrow> bool" where
  "os_IsNotExist e = err_matches (underlyingError e) ErrNotExist"

definition os_IsExist :: "goerr \<Rightarrow> bool" where
  "os_IsExist e = err_matches (underlyingError e) ErrExist"

definition os_IsPermission :: "goerr \<Rightarrow> bool" where
  "os_IsPermission e = err_matches (underlyingError e) ErrPermission"

lemma os_Is_Wrap [simp]:
  "\<not> os_IsExist (Wrap m e)" "\<not> os_IsNotExist (Wrap m e)" "\<not> os_IsPermission (Wrap m e)"
  by (simp_all add: os_IsExist_def os_IsNotExist_def os_IsPermission_def underlyingError_def
      err_matches_def)

section \<open>NFS status codes\<close>

text \<open>The constants of \<open>nfs_types.go\<close> and the RPC accept status that the handlers also put there.\<close>

abbreviation (input) NFS_OK :: u32 where "NFS_OK \<equiv> 0"
abbreviation (input) NFSERR_PERM :: u32 where "NFSERR_PERM \<equiv> 1"
abbreviation (input) NFSERR_NOENT :: u32 where "NFSERR_NOENT \<equiv> 2"
abbreviation (input) NFSERR_IO :: u32 where "NFSERR_IO \<equiv> 5"
abbreviation (input) NFSERR_ACCES :: u32 where "NFSERR_ACCES \<equiv> 13"
abbreviation (input) NFSERR_EXIST :: u32 where "NFSERR_EXIST \<equiv> 17"
abbreviation (input) NFSERR_NOTDIR :: u32 where "NFSERR_NOTDIR \<equiv> 20"
abbreviation (input) NFSERR_ISDIR :: u32 where "NFSERR_ISDIR \<equiv> 21"
abbreviation (input) NFSERR_INVAL :: u32 where "NFSERR_INVAL \<equiv> 22"
abbreviation (input) NFSERR_FBIG :: u32 where "NFSERR_FBIG \<equiv> 27"
abbreviation (input) NFSERR_NOSPC :: u32 where "NFSERR_NOSPC \<equiv> 28"
abbreviation (input) NFSERR_ROFS :: u32 where "NFSERR_ROFS \<equiv> 30"
abbreviation (input) NFSERR_NAMETOOLONG :: u32 where "NFSERR_NAMETOOLONG \<equiv> 63"
abbreviation (input) NFSERR_NOTEMPTY :: u32 where "NFSERR_NOTEMPTY \<equiv> 66"
abbreviation (input) NFSERR_STALE :: u32 where "NFSERR_STALE \<equiv> 70"
abbreviation (input) NFSERR_BADHANDLE :: u32 where "NFSERR_BADHANDLE \<equiv> 10001"
abbreviation (input) NFSERR_NOT_SYNC :: u32 where "NFSERR_NOT_SYNC \<equiv> 10002"
abbreviation (input) NFSERR_NOTSUPP :: u32 where "NFSERR_NOTSUPP \<equiv> 10004"
abbreviation (input) NFSERR_JUKEBOX :: u32 where "NFSERR_JUKEBOX \<equiv> 10008"
abbreviation (input) NFSERR_DELAY :: u32 where "NFSERR_DELAY \<equiv> 10013"

definition mapError :: "goerr option \<Rightarrow> u32" where
  "mapError err =
     (case err of
        None \<Rightarrow> NFS_OK
      | Some e \<Rightarrow>
          if errors_As_InvalidFileHandle e then NFSERR_BADHANDLE
          else if errors_As_NotSupported e then NFSERR_NOTSUPP
          else if errors_Is e DeadlineExceeded \<or> errors_Is e ErrTimeout then NFSERR_DELAY
          else if errors_Is e ErrNotExist \<or> errors_Is e (Sys ENOENT) then NFSERR_NOENT
          else if errors_Is e ErrPermission \<or> errors_Is e (Sys EACCES) \<or> errors_Is e (Sys EPERM)
               then NFSERR_PERM
          else if errors_Is e ErrExist \<or> errors_Is e (Sys EEXIST) then NFSERR_EXIST
          else if errors_Is e ErrInvalid then NFSERR_INVAL
          else if errors_Is e (Sys ENOTDIR) then NFSERR_NOTDIR
          else if errors_Is e (Sys EISDIR) then NFSERR_ISDIR
          else if errors_Is e (Sys ENOSPC) then NFSERR_NOSPC
          else if errors_Is e (Sys EFBIG) then NFSERR_FBIG
          else if errors_Is e (Sys ENAMETOOLONG) then NFSERR_NAMETOOLONG
          else NFSERR_IO)"

lemma mapError_Some_not_OK: "mapError (Some e) \<noteq> NFS_OK"
  by (simp add: mapError_def)

text \<open>The error a chain ends in, which alone decides the status.\<close>

fun root_cause :: "goerr \<Rightarrow> goerr" where
  "root_cause (Wrap m e) = root_cause e"
| "root_cause (PathErr op p e) = root_cause e"
| "root_cause e = e"

definition is_sentinel :: "goerr \<Rightarrow> bool" where
  "is_sentinel t = (case t of Wrap _ _ \<Rightarrow> False | PathErr _ _ _ \<Rightarrow> False | _ \<Rightarrow> True)"

lemma errors_Is_root_cause: "is_sentinel t \<Longrightarrow> errors_Is e t = err_matches (root_cause e) t"
  by (induction e t rule: errors_Is.induct) (auto simp: is_sentinel_def err_matches_def)

lemma errors_As_root_cause:
  "errors_As_InvalidFileHandle (root_cause e) = errors_As_InvalidFileHandle e"
  "errors_As_NotSupported (root_cause e) = errors_As_NotSupported e"
  by (induction e) auto

lemma root_cause_idem [simp]: "root_cause (root_cause e) = root_cause e"
  by (induction e) auto

lemma errors_Is_through_root:
  "is_sentinel t \<Longrightarrow> errors_Is (root_cause e) t = errors_Is e t"
  by (simp add: errors_Is_root_cause)

lemma mapError_root_cause: "mapError (Some (root_cause e)) = mapError (Some e)"
  by (simp add: mapError_def errors_As_root_cause errors_Is_through_root is_sentinel_def)

end
