(* ===== verification/XDR.thy ===== *)
theory XDR
  imports GoErrors
begin

text \<open>
  XDR encoding and decoding helpers of \<open>rpc_types.go\<close>.  An encoder is the list of bytes it
  writes.  A decoder reads from an \<open>io.Reader\<close>: it takes the bytes that are left and returns an
  error or a value together with the bytes left after the call, also when it fails.
\<close>

section \<open>Readers\<close>

type_synonym 'a reader = "bytes \<Rightarrow> 'a result \<times> bytes"

definition rreturn :: "'a \<Rightarrow> 'a reader" where
  "rreturn a = (\<lambda>bs. (Inr a, bs))"

definition rfail :: "goerr \<Rightarrow> 'a reader" where
  "rfail e = (\<lambda>bs. (Inl e, bs))"

definition rbind :: "'a reader \<Rightarrow> ('a \<Rightarrow> 'b reader) \<Rightarrow> 'b reader" where
  "rbind m f = (\<lambda>bs. case m bs of (Inl e, bs') \<Rightarrow> (Inl e, bs') | (Inr a, bs') \<Rightarrow> f a bs')"

text \<open>\<open>fmt.Errorf\<close> with a \<open>%w\<close> verb around the error of a read.\<close>

definition rwrap :: "string \<Rightarrow> 'a reader \<Rightarrow> 'a reader" where
  "rwrap msg m = (\<lambda>bs. case m bs of (Inl e, bs') \<Rightarrow> (Inl (Wrap msg e), bs') | (Inr a, bs') \<Rightarrow> (Inr a, bs'))"

text \<open>\<open>io.ReadFull\<close> into a buffer of \<open>n\<close> bytes: a short stream is consumed.\<close>

definition rd_full :: "nat \<Rightarrow> bytes reader" where
  "rd_full n = (\<lambda>bs. if n \<le> length bs then (Inr (take n bs), drop n bs)
     else (Inl (if bs = [] then EOF else ErrUnexpectedEOF), []))"

lemma rreturn_app [read_simps]: "rreturn a bs = (Inr a, bs)"
  by (simp add: rreturn_def)

lemma rfail_app [read_simps]: "rfail e bs = (Inl e, bs)"
  by (simp add: rfail_def)

lemma rbind_Inr: "m bs = (Inr a, bs') \<Longrightarrow> rbind m f bs = f a bs'"
  by (simp add: rbind_def)

lemma rbind_Inl: "m bs = (Inl e, bs') \<Longrightarrow> rbind m f bs = (Inl e, bs')"
  by (simp add: rbind_def)

lemma rbind_InrE:
  assumes "rbind m f bs = (Inr b, bs'')"
  obtains a bs' where "m bs = (Inr a, bs')" and "f a bs' = (Inr b, bs'')"
  using assms by (auto simp: rbind_def split: prod.splits sum.splits)

lemma rwrap_app_Inr [read_simps]: "m bs = (Inr a, bs') \<Longrightarrow> rwrap msg m bs = (Inr a, bs')"
  by (simp add: rwrap_def)

lemma rwrap_InrD [read_simps]: "rwrap msg m bs = (Inr a, bs') \<longleftrightarrow> m bs = (Inr a, bs')"
  by (auto simp: rwrap_def split: prod.splits sum.splits)

lemma rd_full_append [read_simps]: "length xs = n \<Longrightarrow> rd_full n (xs @ rest) = (Inr xs, rest)"
  by (simp add: rd_full_def)

lemma rd_full_Inr:
  "rd_full n bs = (Inr xs, rest) \<longleftrightarrow> length xs = n \<and> bs = xs @ rest"
  by (auto simp: rd_full_def split: if_splits)

lemma rd_full_Inl: "rd_full n bs = (Inl e, rest) \<Longrightarrow> length bs < n \<and> rest = []"
  by (auto simp: rd_full_def split: if_splits)

section \<open>Integers\<close>

definition xdrEncodeUint32 :: "u32 \<Rightarrow> bytes" where
  "xdrEncodeUint32 v = be32 v"

definition xdrEncodeUint64 :: "u64 \<Rightarrow> bytes" where
  "xdrEncodeUint64 v = be64 v"

definition xdrDecodeUint32 :: "u32 reader" where
  "xdrDecodeUint32 = rbind (rd_full 4) (\<lambda>b. rreturn (un_be32 b))"

text \<open>\<open>binary.Read\<close> of a \<open>uint64\<close>.\<close>

definition rd_u64 :: "u64 reader" where
  "rd_u64 = rbind (rd_full 8) (\<lambda>b. rreturn (un_be64 b))"

lemma length_xdrEncodeUint32 [simp, wire_simps]: "length (xdrEncodeUint32 v) = 4"
  by (simp add: xdrEncodeUint32_def)

lemma length_xdrEncodeUint64 [simp, wire_simps]: "length (xdrEncodeUint64 v) = 8"
  by (simp add: xdrEncodeUint64_def)

lemma xdrDecodeUint32_app [read_simps]:
  "xdrDecodeUint32 (xdrEncodeUint32 v @ rest) = (Inr v, rest)"
  by (simp add: xdrDecodeUint32_def rbind_def rd_full_append xdrEncodeUint32_def rreturn_app)

lemma rd_u64_app [read_simps]: "rd_u64 (xdrEncodeUint64 v @ rest) = (Inr v, rest)"
  by (simp add: rd_u64_def rbind_def rd_full_append xdrEncodeUint64_def rreturn_app)

lemma xdrDecodeUint32_Inr_length:
  "xdrDecodeUint32 bs = (Inr v, rest) \<Longrightarrow> length bs = 4 + length rest"
  by (auto simp: xdrDecodeUint32_def rreturn_app rd_full_Inr elim!: rbind_InrE)

section \<open>Opaque data and strings\<close>

definition pad_len :: "nat \<Rightarrow> nat" where
  "pad_len n = (4 - n mod 4) mod 4"

lemma pad_len_less: "pad_len n < 4"
  by (simp add: pad_len_def)

lemma mod4_cases:
  fixes n :: nat
  obtains "n mod 4 = 0" | "n mod 4 = 1" | "n mod 4 = 2" | "n mod 4 = 3"
proof -
  have "n mod 4 < 4" by simp
  then have "n mod 4 = 0 \<or> n mod 4 = 1 \<or> n mod 4 = 2 \<or> n mod 4 = 3" by arith
  then show thesis by (elim disjE) (fact that)+
qed

lemma pad_len_aligned: "(n + pad_len n) mod 4 = 0"
proof (cases n rule: mod4_cases)
  case 3
  then have "(n + 2) mod 4 = 0" using mod_add_left_eq [of n 4 2] by simp
  with 3 show ?thesis by (simp add: pad_len_def)
next
  case 4
  then have "(n + 1) mod 4 = 0" using mod_add_left_eq [of n 4 1] by simp
  with 4 show ?thesis by (simp add: pad_len_def)
next
  case 2
  then have "(n + 3) mod 4 = 0" using mod_add_left_eq [of n 4 3] by simp
  with 2 show ?thesis by (simp add: pad_len_def)
qed (simp add: pad_len_def)

lemma pad_len_eq_0: "pad_len n = 0 \<longleftrightarrow> n mod 4 = 0"
  by (cases n rule: mod4_cases) (simp_all add: pad_len_def)

abbreviation (input) MAX_XDR_STRING_LENGTH :: nat where
  "MAX_XDR_STRING_LENGTH \<equiv> 8192"

definition xdrEncodeString :: "string \<Rightarrow> bytes" where
  "xdrEncodeString s =
     xdrEncodeUint32 (of_nat (length s)) @ bytes_of_string s @
     (let padding = (4 - length s mod 4) mod 4
      in if padding > 0 then replicate padding 0 else [])"

definition xdrDecodeString :: "string reader" where
  "xdrDecodeString =
     rbind xdrDecodeUint32 (\<lambda>length.
       if length > of_nat MAX_XDR_STRING_LENGTH
       then rfail (ErrText ''XDR string length exceeds maximum allowed length'')
       else rbind (rd_full (unat length)) (\<lambda>buf.
         let padding = (4 - (length mod 4)) mod 4
         in rbind (if padding > 0 then rd_full (unat padding) else rreturn []) (\<lambda>_.
              if 0 \<in> set buf then rfail (ErrText ''XDR string contains NUL byte'')
              else rreturn (string_of_bytes buf))))"

lemma xdrEncodeString_alt:
  "xdrEncodeString s =
     xdrEncodeUint32 (of_nat (length s)) @ bytes_of_string s @ replicate (pad_len (length s)) 0"
  by (simp add: xdrEncodeString_def pad_len_def Let_def)

lemma length_xdrEncodeString [wire_simps]:
  "length (xdrEncodeString s) = 4 + length s + pad_len (length s)"
  by (simp add: xdrEncodeString_alt)

lemma length_xdrEncodeString_mod4: "length (xdrEncodeString s) mod 4 = 0"
  using pad_len_aligned [of "length s"]
  by (simp add: length_xdrEncodeString add.assoc mod_add_eq [of 4 4, symmetric])

text \<open>The padding of the decoder, computed on 32-bit words, is the padding on lengths.\<close>

lemma unat_word_pad: "unat ((4 - (l mod 4)) mod 4 :: u32) = pad_len (unat l)"
proof -
  have le: "l mod 4 \<le> 4" by (simp add: word_le_nat_alt unat_mod)
  have "unat (4 - l mod 4 :: u32) = 4 - unat (l mod 4)"
    using le by (simp add: unat_sub)
  then show ?thesis by (simp add: pad_len_def unat_mod)
qed

lemma xdrDecodeString_alt:
  "xdrDecodeString =
     rbind xdrDecodeUint32 (\<lambda>length.
       if unat length > MAX_XDR_STRING_LENGTH
       then rfail (ErrText ''XDR string length exceeds maximum allowed length'')
       else rbind (rd_full (unat length)) (\<lambda>buf.
         rbind (rd_full (pad_len (unat length))) (\<lambda>_.
              if 0 \<in> set buf then rfail (ErrText ''XDR string contains NUL byte'')
              else rreturn (string_of_bytes buf))))"
proof -
  have pad: "(if (4 - (l mod 4)) mod 4 > (0 :: u32) then rd_full (unat ((4 - (l mod 4)) mod 4)) else rreturn [])
      = rd_full (pad_len (unat l))" for l :: u32
    by (auto simp: unat_word_pad [symmetric] word_gt_0 rd_full_def rreturn_def fun_eq_iff)
  have cmp: "(l > of_nat MAX_XDR_STRING_LENGTH) = (unat l > MAX_XDR_STRING_LENGTH)" for l :: u32
    by (simp add: word_less_nat_alt)
  show ?thesis unfolding xdrDecodeString_def Let_def pad cmp ..
qed

lemma xdrDecodeString_app [read_simps]:
  assumes "length s \<le> MAX_XDR_STRING_LENGTH" and "CHR 0x00 \<notin> set s"
  shows "xdrDecodeString (xdrEncodeString s @ rest) = (Inr s, rest)"
proof -
  have "unat (of_nat (length s) :: u32) = length s"
    using assms(1) by (simp add: unat_of_nat)
  then show ?thesis
    using assms by (simp add: xdrDecodeString_alt xdrEncodeString_alt rbind_def read_simps)
qed

text \<open>What a successful decode says of its input.\<close>

lemma xdrDecodeString_Inr:
  assumes "xdrDecodeString bs = (Inr s, rest)"
  shows "length s \<le> MAX_XDR_STRING_LENGTH" and "CHR 0x00 \<notin> set s"
    and "length bs = 4 + length s + pad_len (length s) + length rest"
proof -
  from assms obtain l bs1 buf bs2 pad where
      l: "xdrDecodeUint32 bs = (Inr l, bs1)" and le: "unat l \<le> MAX_XDR_STRING_LENGTH"
    and buf: "rd_full (unat l) bs1 = (Inr buf, bs2)"
    and pad: "rd_full (pad_len (unat l)) bs2 = (Inr pad, rest)"
    and nul: "0 \<notin> set buf" and s: "s = string_of_bytes buf"
    by (auto simp: xdrDecodeString_alt rreturn_app rfail_app split: if_splits elim!: rbind_InrE)
  from nul s show "CHR 0x00 \<notin> set s"
    by (metis bytes_of_string_of_bytes zero_in_bytes_of_string)
  from le buf s show "length s \<le> MAX_XDR_STRING_LENGTH" by (simp add: rd_full_Inr)
  from xdrDecodeUint32_Inr_length [OF l] buf pad s
  show "length bs = 4 + length s + pad_len (length s) + length rest" by (auto simp: rd_full_Inr)
qed

section \<open>File handles\<close>

definition xdrEncodeFileHandle :: "u64 \<Rightarrow> bytes" where
  "xdrEncodeFileHandle handle = xdrEncodeUint32 8 @ be64 handle"

definition xdrDecodeFileHandle :: "u64 reader" where
  "xdrDecodeFileHandle =
     rbind (rwrap ''failed to read handle length'' xdrDecodeUint32) (\<lambda>length.
       if length > 64 then rfail (ErrText ''file handle length exceeds NFS3 maximum of 64 bytes'')
       else if length \<noteq> 8 then
         (if length > 0
          then let paddedLen = (unat length + 3) div 4 * 4
               in rbind (rwrap ''failed to discard handle data'' (rd_full paddedLen)) (\<lambda>_. rfail (ErrText ''invalid handle length''))
          else rfail (ErrText ''invalid handle length''))
       else rwrap ''failed to read handle data'' rd_u64)"

lemma length_xdrEncodeFileHandle [simp, wire_simps]: "length (xdrEncodeFileHandle h) = 12"
  by (simp add: xdrEncodeFileHandle_def)

lemma xdrDecodeFileHandle_app [read_simps]:
  "xdrDecodeFileHandle (xdrEncodeFileHandle h @ rest) = (Inr h, rest)"
  using rd_u64_app [of h rest]
  by (simp add: xdrDecodeFileHandle_def xdrEncodeFileHandle_def rbind_def read_simps
      xdrEncodeUint64_def)

lemma xdrDecodeFileHandle_discard:
  assumes "l \<le> 64" and "l \<noteq> 8" and "length body = (unat l + 3) div 4 * 4"
  shows "xdrDecodeFileHandle (xdrEncodeUint32 l @ body @ rest) =
    (Inl (ErrText ''invalid handle length''), rest)"
proof (cases "l = 0")
  case True
  with assms show ?thesis
    by (simp add: xdrDecodeFileHandle_def rbind_def read_simps)
next
  case False
  with assms show ?thesis
    by (simp add: xdrDecodeFileHandle_def rbind_def read_simps word_gt_0 not_less Let_def)
qed

section \<open>Properties\<close>

text \<open>
  Every string without a NUL byte and of at most 8192 bytes survives the wire: decoding what
  \<open>xdrEncodeString\<close> wrote gives the string back and leaves the reader exactly behind it, and the
  encoding is a whole number of 4-byte units.
\<close>

theorem xdr_string_roundtrip:
  assumes "length s \<le> MAX_XDR_STRING_LENGTH" and "CHR 0x00 \<notin> set s"
  shows "xdrDecodeString (xdrEncodeString s @ rest) = (Inr s, rest) \<and> length (xdrEncodeString s) mod 4 = 0"
  using assms by (simp add: xdrDecodeString_app length_xdrEncodeString_mod4)

text \<open>
  The string decoder never lets an oversized or NUL-containing string through: whatever the
  bytes, a string it returns has at most 8192 bytes and no NUL byte.
\<close>

theorem xdr_string_sound:
  assumes "xdrDecodeString bs = (Inr s, rest)"
  shows "length s \<le> MAX_XDR_STRING_LENGTH \<and> CHR 0x00 \<notin> set s"
  using xdrDecodeString_Inr [OF assms] by auto

text \<open>
  File handles survive the wire, and a handle of a wrong length of at most 64 bytes is rejected
  only after its padded body has been read, so that the stream stays in step for the next item.
\<close>

theorem xdr_file_handle:
  "xdrDecodeFileHandle (xdrEncodeFileHandle h @ rest) = (Inr h, rest) \<and>
   (\<forall>l body. l \<le> 64 \<longrightarrow> l \<noteq> 8 \<longrightarrow> length body = (unat l + 3) div 4 * 4 \<longrightarrow>
      xdrDecodeFileHandle (xdrEncodeUint32 l @ body @ rest) = (Inl (ErrText ''invalid handle length''), rest))"
  by (simp add: xdrDecodeFileHandle_app xdrDecodeFileHandle_discard)

end
