(* ===== verification/GoMonad.thy ===== *)
theory GoMonad
  imports GoErrors XDR "HOL-Library.State_Monad"
begin

text \<open>
  Stateful Go code as computations of the state monad: reading and changing the state, the early
  returns of the sources as continuations, and one judgement for invariants.  \<open>spec P m Q\<close> says
  that \<open>m\<close>, started where \<open>P\<close> holds, ends where \<open>P\<close> holds and with a result that satisfies
  \<open>Q\<close>; its rules follow the structure of the code, so that a handler keeps whatever its parts
  keep.
\<close>

named_theorems spec_intros \<open>rules of the invariant judgement\<close>
named_theorems run_simps \<open>how the basic computations run\<close>

section \<open>Basic computations\<close>

abbreviation (input) skip :: "('s, unit) state" where "skip \<equiv> State_Monad.return ()"

definition asks :: "('s \<Rightarrow> 'a) \<Rightarrow> ('s, 'a) state" where
  "asks f = State (\<lambda>s. (f s, s))"

definition modify :: "('s \<Rightarrow> 's) \<Rightarrow> ('s, unit) state" where
  "modify f = State (\<lambda>s. ((), f s))"

lemma run_asks [run_simps]: "run_state (asks f) s = (f s, s)"
  by (simp add: asks_def)

lemma run_modify [run_simps]: "run_state (modify f) s = ((), f s)"
  by (simp add: modify_def)

declare run_state_return [run_simps] run_state_bind [run_simps]

lemma run_if [run_simps]: "run_state (if b then m else n) s = (if b then run_state m s else run_state n s)"
  by simp

section \<open>Early returns\<close>

text \<open>\<open>v, err := decode(body); if err != nil { return ... }\<close>: the reader's error is not looked at.\<close>

definition decode :: "'a result \<times> bytes \<Rightarrow> 'r \<Rightarrow> ('a \<Rightarrow> bytes \<Rightarrow> 'r) \<Rightarrow> 'r" where
  "decode r failed k = (case r of (Inl _, _) \<Rightarrow> failed | (Inr v, rest) \<Rightarrow> k v rest)"

lemma decode_Inr [simp]: "decode (Inr v, rest) failed k = k v rest"
  by (simp add: decode_def)

lemma decode_Inl [simp]: "decode (Inl e, rest) failed k = failed"
  by (simp add: decode_def)

text \<open>\<open>v, err := call(); if err != nil { return ... }\<close>\<close>

definition attempt ::
    "('s, 'a result) state \<Rightarrow> (goerr \<Rightarrow> ('s, 'r) state) \<Rightarrow> ('a \<Rightarrow> ('s, 'r) state) \<Rightarrow> ('s, 'r) state" where
  "attempt m failed k = do { r \<leftarrow> m; case r of Inl err \<Rightarrow> failed err | Inr v \<Rightarrow> k v }"

text \<open>\<open>if err := call(); err != nil { return ... }\<close>\<close>

definition check ::
    "('s, goerr option) state \<Rightarrow> (goerr \<Rightarrow> ('s, 'r) state) \<Rightarrow> ('s, 'r) state \<Rightarrow> ('s, 'r) state" where
  "check m failed k = do { r \<leftarrow> m; case r of Some err \<Rightarrow> failed err | None \<Rightarrow> k }"

lemma run_attempt [run_simps]:
  "run_state (attempt m failed k) s =
     (case run_state m s of (Inl e, s') \<Rightarrow> run_state (failed e) s' | (Inr v, s') \<Rightarrow> run_state (k v) s')"
  by (simp add: attempt_def split: prod.split sum.split)

lemma run_check [run_simps]:
  "run_state (check m failed k) s =
     (case run_state m s of (Some e, s') \<Rightarrow> run_state (failed e) s' | (None, s') \<Rightarrow> run_state k s')"
  by (simp add: check_def split: prod.split option.split)

section \<open>Invariants of computations\<close>

text \<open>A property of the value of a call that may have failed.\<close>

definition on_success :: "('a \<Rightarrow> bool) \<Rightarrow> 'a result \<Rightarrow> bool" where
  "on_success Q r = (case r of Inl _ \<Rightarrow> True | Inr v \<Rightarrow> Q v)"

lemma on_success_simps [simp]: "on_success Q (Inl e)" "on_success Q (Inr v) = Q v"
  by (simp_all add: on_success_def)

definition spec :: "('s \<Rightarrow> bool) \<Rightarrow> ('s, 'a) state \<Rightarrow> ('a \<Rightarrow> bool) \<Rightarrow> bool" where
  "spec P m Q \<longleftrightarrow> (\<forall>s. P s \<longrightarrow> P (snd (run_state m s)) \<and> Q (fst (run_state m s)))"

lemma specI: "(\<And>s r s'. P s \<Longrightarrow> run_state m s = (r, s') \<Longrightarrow> P s' \<and> Q r) \<Longrightarrow> spec P m Q"
  by (simp add: spec_def) (metis prod.collapse)

lemma specD: "spec P m Q \<Longrightarrow> P s \<Longrightarrow> run_state m s = (r, s') \<Longrightarrow> P s' \<and> Q r"
  by (metis spec_def fst_conv snd_conv)

lemma spec_bind:
  assumes "spec P m Q" and "\<And>x. Q x \<Longrightarrow> spec P (f x) R"
  shows "spec P (State_Monad.bind m f) R"
proof (rule specI)
  fix s r s' assume P: "P s" and run: "run_state (State_Monad.bind m f) s = (r, s')"
  obtain x s1 where m: "run_state m s = (x, s1)" by fastforce
  with assms(1) P have "P s1" "Q x" by (auto dest: specD)
  with run m assms(2) [OF \<open>Q x\<close>] show "P s' \<and> R r" by (auto dest: specD)
qed

lemma spec_return [spec_intros]: "Q x \<Longrightarrow> spec P (State_Monad.return x) Q"
  by (simp add: spec_def)

lemma spec_asks:
  assumes "\<And>s. P s \<Longrightarrow> Q (f s)"
  shows "spec P (asks f) Q"
  using assms by (simp add: spec_def run_asks)

lemma spec_modify:
  assumes "\<And>s. P s \<Longrightarrow> P (f s)"
  shows "spec P (modify f) (\<lambda>_. True)"
  using assms by (simp add: spec_def run_modify)

lemma spec_weaken: "spec P m Q \<Longrightarrow> (\<And>x. Q x \<Longrightarrow> R x) \<Longrightarrow> spec P m R"
  by (simp add: spec_def)

lemma spec_if [spec_intros]:
  "(b \<Longrightarrow> spec P m Q) \<Longrightarrow> (\<not> b \<Longrightarrow> spec P n Q) \<Longrightarrow> spec P (if b then m else n) Q"
  by simp

text \<open>A conditional or a nested block in front of the rest, whose result is not constrained.\<close>

lemma spec_bind_if:
  "spec P (if b then m else n) (\<lambda>_. True) \<Longrightarrow> (\<And>x. spec P (f x) R) \<Longrightarrow>
    spec P (State_Monad.bind (if b then m else n) f) R"
  by (rule spec_bind)

lemma spec_bind_attempt:
  "spec P (attempt m failed k) (\<lambda>_. True) \<Longrightarrow> (\<And>x. spec P (f x) R) \<Longrightarrow>
    spec P (State_Monad.bind (attempt m failed k) f) R"
  by (rule spec_bind)

lemma spec_bind_sum:
  "spec P (case r of Inl e \<Rightarrow> g e | Inr v \<Rightarrow> h v) (\<lambda>_. True) \<Longrightarrow> (\<And>x. spec P (f x) R) \<Longrightarrow>
    spec P (State_Monad.bind (case r of Inl e \<Rightarrow> g e | Inr v \<Rightarrow> h v) f) R"
  by (rule spec_bind)

lemma spec_option [spec_intros]:
  assumes "x = None \<Longrightarrow> spec P m Q" and "\<And>v. x = Some v \<Longrightarrow> spec P (f v) Q"
  shows "spec P (case x of None \<Rightarrow> m | Some v \<Rightarrow> f v) Q"
  using assms by (simp split: option.split)

lemma spec_sum [spec_intros]:
  assumes "\<And>e. x = Inl e \<Longrightarrow> spec P (g e) Q" and "\<And>v. x = Inr v \<Longrightarrow> spec P (f v) Q"
  shows "spec P (case x of Inl e \<Rightarrow> g e | Inr v \<Rightarrow> f v) Q"
  using assms by (simp split: sum.split)

lemma spec_prod [spec_intros]:
  assumes "\<And>a b. x = (a, b) \<Longrightarrow> spec P (f a b) Q"
  shows "spec P (case x of (a, b) \<Rightarrow> f a b) Q"
  using assms by (simp split: prod.split)

lemma spec_prod_app [spec_intros]:
  assumes "\<And>a b. x = (a, b) \<Longrightarrow> spec P (f a b y) Q"
  shows "spec P ((case x of (a, b) \<Rightarrow> f a b) y) Q"
  using assms by (simp split: prod.split)

lemma spec_prod_app2 [spec_intros]:
  assumes "\<And>a b. x = (a, b) \<Longrightarrow> spec P (f a b y z) Q"
  shows "spec P ((case x of (a, b) \<Rightarrow> f a b) y z) Q"
  using assms by (simp split: prod.split)

lemma spec_Let [spec_intros]: "spec P (f t) Q \<Longrightarrow> spec P (let x = t in f x) Q"
  by simp

lemma spec_decode [spec_intros]:
  assumes "spec P failed Q" and "\<And>v rest. r = (Inr v, rest) \<Longrightarrow> spec P (k v rest) Q"
  shows "spec P (decode r failed k) Q"
proof (cases r)
  case (Pair x rest)
  with assms show ?thesis by (cases x) simp_all
qed

lemma spec_attempt:
  assumes "spec P m Q" and "\<And>e. Q (Inl e) \<Longrightarrow> spec P (failed e) R" and "\<And>v. Q (Inr v) \<Longrightarrow> spec P (k v) R"
  shows "spec P (attempt m failed k) R"
  unfolding attempt_def
proof (rule spec_bind [OF assms(1)])
  fix x assume "Q x"
  with assms(2,3) show "spec P (case x of Inl err \<Rightarrow> failed err | Inr v \<Rightarrow> k v) R"
    by (cases x) auto
qed

lemma spec_check:
  assumes "spec P m (\<lambda>_. True)" and "\<And>e. spec P (failed e) R" and "spec P k R"
  shows "spec P (check m failed k) R"
  unfolding check_def
  by (rule spec_bind [OF assms(1)]) (auto intro: spec_option assms(2,3))

section \<open>Running code step by step\<close>

text \<open>With these congruences the simplifier works on the step that runs next and leaves the rest of
  the code alone until its turn.\<close>

lemma bind_weak_cong: "m = m' \<Longrightarrow> State_Monad.bind m f = State_Monad.bind m' f"
  by simp

lemma attempt_weak_cong: "m = m' \<Longrightarrow> attempt m failed k = attempt m' failed k"
  by simp

lemma check_weak_cong: "m = m' \<Longrightarrow> check m failed k = check m' failed k"
  by simp

lemma decode_weak_cong: "r = r' \<Longrightarrow> decode r failed k = decode r' failed k"
  by simp

lemmas exec_cong = bind_weak_cong attempt_weak_cong check_weak_cong decode_weak_cong let_weak_cong if_weak_cong

end
