(* ===== verification/MinHeap.thy ===== *)
theory MinHeap
  imports Prelude "HOL-Library.Multiset"
begin

text \<open>
  The free list of file handles (\<open>minheap.go\<close>): a binary min-heap in a slice, driven by the
  \<open>up\<close> and \<open>down\<close> loops of Go's \<open>container/heap\<close>.  The locale \<open>min_pool\<close> is the contract the
  handle map relies on; the heap is proved to implement it.
\<close>

section \<open>The heap\<close>

type_synonym uint64MinHeap = "u64 list"

definition Less :: "uint64MinHeap \<Rightarrow> nat \<Rightarrow> nat \<Rightarrow> bool" where
  "Less h i j \<longleftrightarrow> h ! i < h ! j"

definition Swap :: "uint64MinHeap \<Rightarrow> nat \<Rightarrow> nat \<Rightarrow> uint64MinHeap" where
  "Swap h i j = h[i := h ! j, j := h ! i]"

text \<open>\<open>heap.up\<close>: Go's \<open>(j - 1) / 2\<close> truncates towards zero, so the parent of 0 is 0.\<close>

definition parent :: "nat \<Rightarrow> nat" where
  "parent j = (j - 1) div 2"

lemma parent_less: "0 < k \<Longrightarrow> parent k < k"
  by (auto simp: parent_def)

lemma parent_le [simp]: "parent k \<le> k"
  by (auto simp: parent_def)

lemma parent_bound [simp]: "j < n \<Longrightarrow> parent j < n"
  by (rule le_less_trans [OF parent_le])

lemma parent_0 [simp]: "parent 0 = 0"
  by (simp add: parent_def)

lemma parent_eq_iff: "0 < k \<Longrightarrow> parent k = i \<longleftrightarrow> k = 2 * i + 1 \<or> k = 2 * i + 2"
  by (auto simp: parent_def)

function heap_up :: "uint64MinHeap \<Rightarrow> nat \<Rightarrow> uint64MinHeap" where
  "heap_up h j =
     (let i = parent j
      in if i = j \<or> \<not> Less h j i then h else heap_up (Swap h i j) i)"
  by pat_completeness auto
termination by (relation "measure snd") (auto simp: le_neq_implies_less)

text \<open>\<open>heap.down\<close> on the first \<open>n\<close> elements.\<close>

function heap_down :: "uint64MinHeap \<Rightarrow> nat \<Rightarrow> nat \<Rightarrow> uint64MinHeap" where
  "heap_down h i n =
     (let j1 = 2 * i + 1
      in if j1 \<ge> n then h
         else
           let j2 = j1 + 1;
               j = (if j2 < n \<and> Less h j2 j1 then j2 else j1)
           in if \<not> Less h j i then h else heap_down (Swap h i j) j n)"
  by pat_completeness auto
termination by (relation "measure (\<lambda>(h, i, n). n - i)") auto

declare heap_up.simps [simp del] heap_down.simps [simp del]

definition heap_Push :: "uint64MinHeap \<Rightarrow> u64 \<Rightarrow> uint64MinHeap" where
  "heap_Push h x = (let h = h @ [x] in heap_up h (length h - 1))"

definition heap_Pop :: "uint64MinHeap \<Rightarrow> u64 \<times> uint64MinHeap" where
  "heap_Pop h =
     (let n = length h - 1;
          h = heap_down (Swap h 0 n) 0 n;
          n' = length h
      in (h ! (n' - 1), take (n' - 1) h))"

fun heap_Init_loop :: "nat \<Rightarrow> uint64MinHeap \<Rightarrow> uint64MinHeap" where
  "heap_Init_loop 0 h = h"
| "heap_Init_loop (Suc i) h = heap_Init_loop i (heap_down h i (length h))"

definition NewUint64MinHeap :: uint64MinHeap where
  "NewUint64MinHeap = (let h = [] in heap_Init_loop (length h div 2) h)"

definition IsEmpty :: "uint64MinHeap \<Rightarrow> bool" where
  "IsEmpty h \<longleftrightarrow> length h = 0"

definition PopMin :: "uint64MinHeap \<Rightarrow> u64 option \<times> uint64MinHeap" where
  "PopMin h = (if IsEmpty h then (None, h) else let (v, h') = heap_Pop h in (Some v, h'))"

definition PushValue :: "uint64MinHeap \<Rightarrow> u64 \<Rightarrow> uint64MinHeap" where
  "PushValue h val = heap_Push h val"

section \<open>Correctness\<close>

definition heap_ok :: "uint64MinHeap \<Rightarrow> bool" where
  "heap_ok h \<longleftrightarrow> (\<forall>k < length h. 0 < k \<longrightarrow> h ! (parent k) \<le> h ! k)"

lemma heap_ok_root_le:
  assumes "heap_ok h" and "k < length h"
  shows "h ! 0 \<le> h ! k"
  using assms(2)
proof (induction k rule: less_induct)
  case (less k)
  show ?case
  proof (cases "k = 0")
    case False
    then have "parent k < k" by (simp add: parent_less)
    with less have "h ! 0 \<le> h ! (parent k)" by simp
    also have "\<dots> \<le> h ! k" using assms(1) less.prems False by (simp add: heap_ok_def)
    finally show ?thesis .
  qed simp
qed

lemma length_Swap [simp]: "length (Swap h i j) = length h"
  by (simp add: Swap_def)

lemma nth_Swap:
  "i < length h \<Longrightarrow> j < length h \<Longrightarrow>
    Swap h i j ! k = (if k = i then h ! j else if k = j then h ! i else h ! k)"
  by (auto simp: Swap_def nth_list_update)

lemma mset_Swap [simp]: "i < length h \<Longrightarrow> j < length h \<Longrightarrow> mset (Swap h i j) = mset h"
  using mset_swap [of j h i] by (simp add: Swap_def)

lemma length_heap_up [simp]: "length (heap_up h j) = length h"
  by (induction h j rule: heap_up.induct) (subst heap_up.simps, simp add: Let_def)

lemma mset_heap_up [simp]: "j < length h \<Longrightarrow> mset (heap_up h j) = mset h"
proof (induction h j rule: heap_up.induct)
  case (1 h j)
  then show ?case by (subst heap_up.simps) (auto simp: Let_def)
qed

text \<open>While an element moves up, the heap order is broken only between it and its parent.\<close>

definition up_inv :: "uint64MinHeap \<Rightarrow> nat \<Rightarrow> bool" where
  "up_inv h j \<longleftrightarrow>
     (\<forall>k < length h. 0 < k \<and> k \<noteq> j \<longrightarrow> h ! (parent k) \<le> h ! k) \<and>
     (\<forall>k < length h. 0 < k \<and> 0 < j \<and> parent k = j \<longrightarrow> h ! (parent j) \<le> h ! k)"

lemma up_inv_step:
  assumes inv: "up_inv h j" and j: "j < length h" "0 < j" and less: "Less h j (parent j)"
  shows "up_inv (Swap h (parent j) j) (parent j)"
proof -
  let ?i = "parent j" and ?h = "Swap h (parent j) j"
  have i: "?i < j" "?i < length h" using j parent_less [of j] by auto
  have lt: "h ! j < h ! ?i" using less by (simp add: Less_def)
  have ord: "h ! (parent k) \<le> h ! k" if "k < length h" "0 < k" "k \<noteq> j" for k
    using inv that by (simp add: up_inv_def)
  have kids: "h ! ?i \<le> h ! k" if "k < length h" "0 < k" "parent k = j" for k
    using inv that j by (simp add: up_inv_def)
  note nth = nth_Swap [OF i(2) j(1)]
  have "?h ! (parent k) \<le> ?h ! k" if k: "k < length h" "0 < k" "k \<noteq> ?i" for k
  proof (cases "k = j")
    case True
    with lt i show ?thesis by (simp add: nth)
  next
    case kj: False
    show ?thesis
    proof (cases "parent k = j")
      case True
      with kids [OF k(1,2)] k kj i show ?thesis by (simp add: nth)
    next
      case False
      with ord [OF k(1,2) kj] lt k kj show ?thesis by (auto simp: nth)
    qed
  qed
  moreover have "?h ! (parent ?i) \<le> ?h ! k" if k: "k < length h" "0 < k" "parent k = ?i" "0 < ?i" for k
  proof -
    have p: "h ! (parent ?i) \<le> h ! ?i" using ord [of ?i] i k(4) by simp
    have "parent ?i < ?i" using k(4) by (simp add: parent_less)
    moreover have "k \<noteq> ?i" using k parent_less [of k] by auto
    moreover have "h ! (parent ?i) \<le> h ! k" if "k \<noteq> j"
      using p ord [OF k(1,2) that] k(3) by simp
    ultimately show ?thesis using p i by (simp add: nth)
  qed
  ultimately show ?thesis by (simp add: up_inv_def)
qed

lemma heap_up_ok: "up_inv h j \<Longrightarrow> j < length h \<Longrightarrow> heap_ok (heap_up h j)"
proof (induction h j rule: heap_up.induct)
  case (1 h j)
  show ?case
  proof (cases "parent j = j \<or> \<not> Less h j (parent j)")
    case True
    then have "heap_ok h" using "1.prems" by (auto simp: heap_ok_def up_inv_def Less_def not_less)
    with True show ?thesis by (subst heap_up.simps) (simp add: Let_def)
  next
    case False
    then have "0 < j" by (cases j) auto
    with False "1.prems" have "up_inv (Swap h (parent j) j) (parent j)"
      by (intro up_inv_step) auto
    with "1.IH" [OF refl] False "1.prems" show ?thesis
      by (subst heap_up.simps) (simp add: Let_def)
  qed
qed

text \<open>While an element moves down, only the edges to its children may be broken.\<close>

definition down_inv :: "uint64MinHeap \<Rightarrow> nat \<Rightarrow> nat \<Rightarrow> bool" where
  "down_inv h i n \<longleftrightarrow>
     (\<forall>k < n. 0 < k \<and> parent k \<noteq> i \<longrightarrow> h ! (parent k) \<le> h ! k) \<and>
     (\<forall>k < n. 0 < k \<and> 0 < i \<and> parent k = i \<longrightarrow> h ! (parent i) \<le> h ! k)"

definition down_child :: "uint64MinHeap \<Rightarrow> nat \<Rightarrow> nat \<Rightarrow> nat" where
  "down_child h i n = (if 2 * i + 2 < n \<and> Less h (2 * i + 2) (2 * i + 1) then 2 * i + 2 else 2 * i + 1)"

lemma heap_down_unfold:
  "heap_down h i n =
     (if 2 * i + 1 \<ge> n then h
      else if \<not> Less h (down_child h i n) i then h
      else heap_down (Swap h i (down_child h i n)) (down_child h i n) n)"
  by (subst heap_down.simps) (simp add: Let_def down_child_def)

lemma down_child_facts:
  assumes "2 * i + 1 < n"
  shows "down_child h i n < n" and "i < down_child h i n" and "parent (down_child h i n) = i"
    and "\<And>k. k < n \<Longrightarrow> 0 < k \<Longrightarrow> parent k = i \<Longrightarrow> h ! (down_child h i n) \<le> h ! k"
  using assms by (auto simp: down_child_def parent_eq_iff Less_def not_less)

lemma heap_down_induct [consumes 0, case_names step]:
  assumes "\<And>h i n. (2 * i + 1 < n \<Longrightarrow> Less h (down_child h i n) i \<Longrightarrow>
    P (Swap h i (down_child h i n)) (down_child h i n) n) \<Longrightarrow> P h i n"
  shows "P h i n"
proof (induction "n - i" arbitrary: h i rule: less_induct)
  case less
  show ?case
    by (rule assms, rule less) (use down_child_facts(2) [of i n h] in arith)
qed

lemma down_inv_step:
  assumes inv: "down_inv h i n" and n: "n \<le> length h" "2 * i + 1 < n"
    and less: "Less h (down_child h i n) i"
  shows "down_inv (Swap h i (down_child h i n)) (down_child h i n) n"
proof -
  define j where "j = down_child h i n"
  note ch = down_child_facts [OF n(2), where h = h, folded j_def]
  have lt: "h ! j < h ! i" using less by (simp add: Less_def j_def)
  have ord: "h ! (parent k) \<le> h ! k" if "k < n" "0 < k" "parent k \<noteq> i" for k
    using inv that by (simp add: down_inv_def)
  have kids: "h ! (parent i) \<le> h ! k" if "k < n" "0 < k" "0 < i" "parent k = i" for k
    using inv that by (simp add: down_inv_def)
  have nth: "Swap h i j ! k = (if k = i then h ! j else if k = j then h ! i else h ! k)" for k
    using ch n by (intro nth_Swap) auto
  have "Swap h i j ! (parent k) \<le> Swap h i j ! k" if k: "k < n" "0 < k" "parent k \<noteq> j" for k
  proof (cases "parent k = i")
    case True
    then have "k \<noteq> i" using k parent_less [of k] by auto
    with True lt ch(4) [OF k(1,2) True] show ?thesis by (auto simp: nth)
  next
    case False
    then have "k \<noteq> j" using ch(3) by auto
    with False k ord [OF k(1,2) False] kids [of j] ch show ?thesis by (auto simp: nth)
  qed
  moreover have "Swap h i j ! (parent j) \<le> Swap h i j ! k" if k: "k < n" "0 < k" "parent k = j" for k
  proof -
    have "j < k" using parent_less [of k] k by simp
    with ord [OF k(1,2)] k ch show ?thesis by (simp add: nth)
  qed
  ultimately show ?thesis by (simp add: down_inv_def j_def)
qed

lemma heap_down_ok:
  "down_inv h i n \<Longrightarrow> n \<le> length h \<Longrightarrow> k < n \<Longrightarrow> 0 < k \<Longrightarrow>
    heap_down h i n ! (parent k) \<le> heap_down h i n ! k"
proof (induction h i n rule: heap_down_induct)
  case (step h i n)
  consider (leaf) "n \<le> 2 * i + 1" | (stop) "2 * i + 1 < n" "\<not> Less h (down_child h i n) i"
    | (go) "2 * i + 1 < n" "Less h (down_child h i n) i"
    by linarith
  then show ?case
  proof cases
    case leaf
    then have "parent k \<noteq> i" using step.prems by (auto simp: parent_eq_iff)
    with leaf step.prems show ?thesis by (subst (1 2) heap_down_unfold) (simp add: down_inv_def)
  next
    case stop
    have "h ! (parent k) \<le> h ! k"
    proof (cases "parent k = i")
      case True
      with stop down_child_facts(4) [OF stop(1), where h = h and k = k] step.prems show ?thesis
        by (simp add: Less_def)
    qed (use step.prems in \<open>simp add: down_inv_def\<close>)
    with stop show ?thesis by (subst (1 2) heap_down_unfold) simp
  next
    case go
    with step show ?thesis by (subst (1 2) heap_down_unfold) (simp add: down_inv_step)
  qed
qed

lemma heap_down_perm:
  "n \<le> length h \<Longrightarrow> length (heap_down h i n) = length h \<and> drop n (heap_down h i n) = drop n h \<and>
    mset (heap_down h i n) = mset h"
proof (induction h i n rule: heap_down_induct)
  case (step h i n)
  show ?case
  proof (cases "2 * i + 1 < n \<and> Less h (down_child h i n) i")
    case True
    let ?j = "down_child h i n"
    note ch = down_child_facts [OF conjunct1 [OF True], where h = h]
    have "drop n (Swap h i ?j) = drop n h"
      using ch step.prems by (simp add: Swap_def)
    moreover have "i < length h" "?j < length h" using ch step.prems by auto
    ultimately show ?thesis
      using True step by (subst (1 2 3) heap_down_unfold) simp
  next
    case False
    then show ?thesis by (subst (1 2 3) heap_down_unfold) auto
  qed
qed

lemma heap_Push_ok:
  assumes "heap_ok h"
  shows "heap_ok (heap_Push h x)" and "mset (heap_Push h x) = add_mset x (mset h)"
proof -
  have "up_inv (h @ [x]) (length h)"
  proof -
    have "(h @ [x]) ! parent k \<le> (h @ [x]) ! k" if "k < Suc (length h)" "0 < k" "k \<noteq> length h" for k
      using assms that parent_less [of k] by (simp add: heap_ok_def nth_append)
    moreover have False if "k < Suc (length h)" "0 < k" "parent k = length h" for k
      using parent_less [of k] that by simp
    ultimately show ?thesis by (auto simp: up_inv_def)
  qed
  then show "heap_ok (heap_Push h x)"
    by (simp add: heap_Push_def heap_up_ok)
  show "mset (heap_Push h x) = add_mset x (mset h)"
    by (simp add: heap_Push_def)
qed

lemma heap_Pop_ok:
  assumes ok: "heap_ok h" and ne: "h \<noteq> []" and pop: "heap_Pop h = (v, h')"
  shows "heap_ok h'" and "mset h = add_mset v (mset h')" and "\<forall>x \<in> set h. v \<le> x"
proof -
  define n where "n = length h - 1"
  define g where "g = heap_down (Swap h 0 n) 0 n"
  have len: "length h = Suc n" using ne by (simp add: n_def)
  have g: "length g = Suc n" "drop n g = drop n (Swap h 0 n)" "mset g = mset h"
    using heap_down_perm [of n "Swap h 0 n" 0] len by (auto simp: g_def)
  have v: "v = g ! n" and h': "h' = take n g"
    using pop g(1) by (auto simp: heap_Pop_def Let_def len g_def [symmetric])
  have nth: "Swap h 0 n ! k = (if k = 0 then h ! n else if k = n then h ! 0 else h ! k)" for k
    using len by (intro nth_Swap) auto
  have "[g ! n] = drop n g" using g(1) by (simp add: Cons_nth_drop_Suc [symmetric])
  also have "\<dots> = [Swap h 0 n ! n]" using g(2) len by (simp add: Cons_nth_drop_Suc [symmetric])
  finally have v0: "v = h ! 0" using len by (simp add: v nth)
  have "down_inv (Swap h 0 n) 0 n"
    using ok len by (auto simp: down_inv_def nth heap_ok_def dest: le_less_trans [OF parent_le])
  then show "heap_ok h'"
    using heap_down_ok [of "Swap h 0 n" 0 n] len g(1)
    by (simp add: heap_ok_def h' g_def [symmetric])
  have "g = h' @ [v]" using g(1) by (simp add: h' v take_Suc_conv_app_nth [symmetric])
  then show "mset h = add_mset v (mset h')" using g(3) by simp
  show "\<forall>x \<in> set h. v \<le> x"
    using heap_ok_root_le [OF ok] by (auto simp: v0 in_set_conv_nth)
qed

section \<open>The contract of the free list\<close>

locale min_pool =
  fixes new :: 'q
    and push :: "'q \<Rightarrow> u64 \<Rightarrow> 'q"
    and popmin :: "'q \<Rightarrow> u64 option \<times> 'q"
    and ok :: "'q \<Rightarrow> bool"
    and contents :: "'q \<Rightarrow> u64 multiset"
  assumes new_ok: "ok new"
    and new_contents: "contents new = {#}"
    and push_ok: "ok q \<Longrightarrow> ok (push q x)"
    and push_contents: "ok q \<Longrightarrow> contents (push q x) = add_mset x (contents q)"
    and pop_None: "ok q \<Longrightarrow> popmin q = (None, q') \<Longrightarrow> contents q = {#} \<and> q' = q"
    and pop_Some: "ok q \<Longrightarrow> popmin q = (Some v, q') \<Longrightarrow>
      ok q' \<and> contents q = add_mset v (contents q') \<and> (\<forall>x \<in># contents q. v \<le> x)"
begin

text \<open>A pool without duplicates hands out a value it then no longer holds, and the least one.\<close>

lemma pop_fresh:
  assumes "ok q" and "\<forall>x. count (contents q) x \<le> 1" and "popmin q = (Some v, q')"
  shows "v \<notin># contents q'" and "\<forall>x. count (contents q') x \<le> 1" and "\<forall>x \<in># contents q'. v < x"
proof -
  note p = pop_Some [OF assms(1,3)]
  have "count (contents q) v \<le> 1" using assms(2) by blast
  with p show nv: "v \<notin># contents q'" by (simp add: not_in_iff)
  show "\<forall>x. count (contents q') x \<le> 1"
    using assms(2) p by (metis count_add_mset le_SucI Suc_le_D le_trans nat_le_linear not_less_eq_eq)
  show "\<forall>x \<in># contents q'. v < x"
    using p nv by (auto simp: less_le)
qed

lemma push_unique:
  assumes "ok q" and "\<forall>x. count (contents q) x \<le> 1" and "v \<notin># contents q"
  shows "\<forall>x. count (contents (push q v)) x \<le> 1"
  using assms by (simp add: push_contents not_in_iff)

end

interpretation heap_pool: min_pool NewUint64MinHeap PushValue PopMin heap_ok mset
proof
  show "heap_ok NewUint64MinHeap" by (simp add: NewUint64MinHeap_def heap_ok_def)
  show "mset NewUint64MinHeap = {#}" by (simp add: NewUint64MinHeap_def)
next
  fix q x
  assume "heap_ok q"
  then show "heap_ok (PushValue q x)" and "mset (PushValue q x) = add_mset x (mset q)"
    by (simp_all add: PushValue_def heap_Push_ok)
next
  fix q q'
  assume "PopMin q = (None, q')"
  then show "mset q = {#} \<and> q' = q"
    by (auto simp: PopMin_def IsEmpty_def split: if_splits prod.splits)
next
  fix q v q'
  assume "heap_ok q" and "PopMin q = (Some v, q')"
  then show "heap_ok q' \<and> mset q = add_mset v (mset q') \<and> (\<forall>x \<in># mset q. v \<le> x)"
    using heap_Pop_ok [of q v q']
    by (auto simp: PopMin_def IsEmpty_def split: if_splits prod.splits)
qed

section \<open>Properties\<close>

text \<open>
  C25: The free list is a priority queue: on a heap, \<open>PushValue\<close> adds exactly one occurrence of the
  value, \<open>PopMin\<close> fails only on the empty heap and otherwise removes one occurrence of a smallest
  element, and both keep the heap order.
\<close>

theorem min_heap_refines_multiset:
  assumes "heap_ok h"
  shows "heap_ok (PushValue h x) \<and> mset (PushValue h x) = add_mset x (mset h) \<and>
    (case PopMin h of
       (None, h') \<Rightarrow> h = [] \<and> h' = []
     | (Some v, h') \<Rightarrow> heap_ok h' \<and> mset h = add_mset v (mset h') \<and> (\<forall>y \<in> set h. v \<le> y))"
  using heap_pool.push_ok [OF assms, of x] heap_pool.push_contents [OF assms, of x]
    heap_pool.pop_None [OF assms] heap_pool.pop_Some [OF assms]
  by (auto split: prod.split option.split)

theorem min_heap_refines_multiset_witness:
  "case PopMin [2, 5, 3] of (None, _) \<Rightarrow> False | (Some v, h') \<Rightarrow> v = 2 \<and> mset h' = {#3, 5#}"
proof -
  have "heap_ok [2, 5, 3]" by code_simp
  moreover have "PopMin [2, 5, 3] = (Some 2, [3, 5])" by code_simp
  ultimately show ?thesis using min_heap_refines_multiset [of "[2, 5, 3]" 0] by simp
qed

end
