(* ===== verification/FileHandle.thy ===== *)
theory FileHandle
  imports MinHeap GoErrors
begin

text \<open>
  The file handle map (\<open>filehandle.go\<close>, with its state in \<open>types.go\<close>): handles are 64-bit numbers
  given out in increasing order, freed handles are reused smallest first, and one path has one
  handle.  \<open>Close\<close> on an \<open>NFSNode\<close> does nothing (\<open>nfs_node.go\<close>); closing a file of another
  kind is an effect on that file and not on the map, and has no counterpart here.
\<close>

section \<open>State\<close>

text \<open>
  An \<open>NFSNode\<close> is a pointer to a node: its path, which is never assigned after creation, and the
  address of its attributes, which are mutable and shared by every handle to the node.
\<close>

record NFSNode =
  n_path :: string
  n_cell :: nat

datatype absfs_file = NodeFile NFSNode | OtherFile nat

record FileHandleMap =
  handles :: "(u64, absfs_file) gomap"
  pathHandles :: "(string, u64) gomap"
  nextHandle :: u64
  freeHandles :: uint64MinHeap
  maxHandles :: int

abbreviation (input) DefaultMaxHandles :: int where "DefaultMaxHandles \<equiv> 100000"
abbreviation (input) MaxUint64 :: u64 where "MaxUint64 \<equiv> 0xFFFFFFFFFFFFFFFF"

section \<open>Operations\<close>

text \<open>\<open>node, ok := f.(*NFSNode); ok && node.path != ""\<close>\<close>

definition dedup_path :: "absfs_file \<Rightarrow> string option" where
  "dedup_path f = (case f of NodeFile n \<Rightarrow> if n_path n \<noteq> [] then Some (n_path n) else None | OtherFile _ \<Rightarrow> None)"

text \<open>The body shared by \<open>Release\<close> and the eviction loop.\<close>

definition drop_handle :: "u64 \<Rightarrow> absfs_file \<Rightarrow> FileHandleMap \<Rightarrow> FileHandleMap" where
  "drop_handle h file fm =
     (let fm = (case file of
                  NodeFile node \<Rightarrow> fm\<lparr>pathHandles := AList.delete (n_path node) (pathHandles fm)\<rparr>
                | OtherFile _ \<Rightarrow> fm);
          fm = fm\<lparr>handles := AList.delete h (handles fm)\<rparr>
      in fm\<lparr>freeHandles := PushValue (freeHandles fm) h\<rparr>)"

definition min_handle :: "(u64, absfs_file) gomap \<Rightarrow> u64" where
  "min_handle hs = fold (\<lambda>h m. if h < m then h else m) (map fst hs) MaxUint64"

partial_function (option) evict_loop :: "int \<Rightarrow> u64 \<Rightarrow> FileHandleMap \<Rightarrow> FileHandleMap option" where
  "evict_loop evictCount h fm =
     (if \<not> evictCount > 0 then Some fm
      else case map_of (handles fm) h of
             Some file \<Rightarrow> evict_loop (evictCount - 1) (h + 1) (drop_handle h file fm)
           | None \<Rightarrow> evict_loop evictCount (h + 1) fm)"

definition max_handles :: "FileHandleMap \<Rightarrow> int" where
  "max_handles fm = (if maxHandles fm \<le> 0 then DefaultMaxHandles else maxHandles fm)"

definition evict_count :: "FileHandleMap \<Rightarrow> int" where
  "evict_count fm = (let c = max_handles fm div 10 in if c < 1 then 1 else c)"

declare evict_loop.simps [code]

text \<open>
  The first half of \<open>Allocate\<close>: pick a handle and record the file.  The second half evicts.  A
  loop that never returned would be the value \<open>None\<close>; \<open>evict_returns\<close> shows that it does return,
  so the branch that keeps the map is not taken.
\<close>

definition alloc_new :: "FileHandleMap \<Rightarrow> absfs_file \<Rightarrow> u64 \<times> FileHandleMap" where
  "alloc_new fm f =
     (let (handle, fm) =
            (case PopMin (freeHandles fm) of
               (Some val, q) \<Rightarrow> (val, fm\<lparr>freeHandles := q\<rparr>)
             | (None, q) \<Rightarrow> (nextHandle fm, fm\<lparr>freeHandles := q, nextHandle := nextHandle fm + 1\<rparr>));
          fm = fm\<lparr>handles := AList.update handle f (handles fm)\<rparr>;
          fm = (case dedup_path f of
                  Some p \<Rightarrow> fm\<lparr>pathHandles := AList.update p handle (pathHandles fm)\<rparr>
                | None \<Rightarrow> fm)
      in (handle, fm))"

definition evict :: "FileHandleMap \<Rightarrow> FileHandleMap option" where
  "evict fm =
     (if int (length (handles fm)) > max_handles fm
      then evict_loop (evict_count fm) (min_handle (handles fm)) fm
      else Some fm)"

definition Allocate :: "FileHandleMap \<Rightarrow> absfs_file \<Rightarrow> u64 \<times> FileHandleMap" where
  "Allocate fm f =
     (case Option.bind (dedup_path f) (map_of (pathHandles fm)) of
        Some existing \<Rightarrow> (existing, fm\<lparr>handles := AList.update existing f (handles fm)\<rparr>)
      | None \<Rightarrow>
          let (handle, fm) = alloc_new fm f
          in (handle, case evict fm of Some fm' \<Rightarrow> fm' | None \<Rightarrow> fm))"

definition Get :: "FileHandleMap \<Rightarrow> u64 \<Rightarrow> absfs_file option" where
  "Get fm handle = map_of (handles fm) handle"

definition GetOrError :: "FileHandleMap \<Rightarrow> u64 \<Rightarrow> absfs_file result" where
  "GetOrError fm handle =
     (case map_of (handles fm) handle of
        None \<Rightarrow> Inl (InvalidFileHandleError handle ''handle not found in file handle map'')
      | Some f \<Rightarrow> Inr f)"

definition Release :: "FileHandleMap \<Rightarrow> u64 \<Rightarrow> FileHandleMap" where
  "Release fm handle =
     (case map_of (handles fm) handle of Some f \<Rightarrow> drop_handle handle f fm | None \<Rightarrow> fm)"

definition ReleaseAll :: "FileHandleMap \<Rightarrow> FileHandleMap" where
  "ReleaseAll fm = fm\<lparr>handles := [], pathHandles := [], freeHandles := NewUint64MinHeap\<rparr>"

definition Count :: "FileHandleMap \<Rightarrow> nat" where
  "Count fm = length (handles fm)"

text \<open>The map \<open>New\<close> builds (\<open>absnfs.go\<close>).\<close>

definition newFileMap :: FileHandleMap where
  "newFileMap = \<lparr>handles = [], pathHandles = [], nextHandle = 1, freeHandles = NewUint64MinHeap,
     maxHandles = 0\<rparr>"

section \<open>Invariant\<close>

text \<open>
  The reverse map and the handle map describe the same paths; every handle in use or in the free
  list was given out before; no handle is both in use and free, or free twice.
\<close>

definition fh_inv :: "FileHandleMap \<Rightarrow> bool" where
  "fh_inv fm \<longleftrightarrow>
     gm_ok (handles fm) \<and> gm_ok (pathHandles fm) \<and> heap_ok (freeHandles fm) \<and>
     (\<forall>x. count (mset (freeHandles fm)) x \<le> 1) \<and>
     (\<forall>h \<in> dom (map_of (handles fm)). h < nextHandle fm \<and> h \<notin># mset (freeHandles fm)) \<and>
     (\<forall>h \<in># mset (freeHandles fm). h < nextHandle fm) \<and>
     (\<forall>p h. map_of (pathHandles fm) p = Some h \<longrightarrow>
        (\<exists>n. map_of (handles fm) h = Some (NodeFile n) \<and> n_path n = p) \<and> p \<noteq> []) \<and>
     (\<forall>h n. map_of (handles fm) h = Some (NodeFile n) \<longrightarrow> n_path n \<noteq> [] \<longrightarrow>
        map_of (pathHandles fm) (n_path n) = Some h)"

lemma fh_invD:
  assumes "fh_inv fm"
  shows "gm_ok (handles fm)" and "gm_ok (pathHandles fm)" and "heap_ok (freeHandles fm)"
    and "\<forall>x. count (mset (freeHandles fm)) x \<le> 1"
    and "map_of (handles fm) h = Some f \<Longrightarrow> h < nextHandle fm"
    and "map_of (handles fm) h = Some f \<Longrightarrow> h \<notin># mset (freeHandles fm)"
    and "h \<in># mset (freeHandles fm) \<Longrightarrow> h < nextHandle fm"
    and "map_of (pathHandles fm) p = Some h \<Longrightarrow>
      \<exists>n. map_of (handles fm) h = Some (NodeFile n) \<and> n_path n = p"
    and "map_of (pathHandles fm) p = Some h \<Longrightarrow> p \<noteq> []"
    and "map_of (handles fm) h = Some (NodeFile n) \<Longrightarrow> n_path n \<noteq> [] \<Longrightarrow>
      map_of (pathHandles fm) (n_path n) = Some h"
  using assms unfolding fh_inv_def by blast+

lemma fh_invI:
  assumes "gm_ok (handles fm)" and "gm_ok (pathHandles fm)" and "heap_ok (freeHandles fm)"
    and "\<forall>x. count (mset (freeHandles fm)) x \<le> 1"
    and "\<And>h f. map_of (handles fm) h = Some f \<Longrightarrow> h < nextHandle fm \<and> h \<notin># mset (freeHandles fm)"
    and "\<And>h. h \<in># mset (freeHandles fm) \<Longrightarrow> h < nextHandle fm"
    and "\<And>p h. map_of (pathHandles fm) p = Some h \<Longrightarrow>
      (\<exists>n. map_of (handles fm) h = Some (NodeFile n) \<and> n_path n = p) \<and> p \<noteq> []"
    and "\<And>h n. map_of (handles fm) h = Some (NodeFile n) \<Longrightarrow> n_path n \<noteq> [] \<Longrightarrow>
      map_of (pathHandles fm) (n_path n) = Some h"
  shows "fh_inv fm"
  unfolding fh_inv_def using assms by blast

lemma fh_inv_new: "fh_inv newFileMap"
  using heap_pool.new_ok heap_pool.new_contents by (simp add: fh_inv_def newFileMap_def)

lemma fh_inv_maxHandles: "fh_inv (fm\<lparr>maxHandles := m\<rparr>) \<longleftrightarrow> fh_inv fm"
  by (simp add: fh_inv_def)

lemma fh_inv_ReleaseAll: "fh_inv fm \<Longrightarrow> fh_inv (ReleaseAll fm)"
  using heap_pool.new_ok heap_pool.new_contents by (simp add: fh_inv_def ReleaseAll_def)

lemma drop_handle_sel [simp]:
  "handles (drop_handle h f fm) = AList.delete h (handles fm)"
  "nextHandle (drop_handle h f fm) = nextHandle fm"
  "maxHandles (drop_handle h f fm) = maxHandles fm"
  "freeHandles (drop_handle h f fm) = PushValue (freeHandles fm) h"
  by (simp_all add: drop_handle_def Let_def split: absfs_file.split)

lemma pathHandles_drop_handle:
  "pathHandles (drop_handle h f fm) =
     (case f of NodeFile n \<Rightarrow> AList.delete (n_path n) (pathHandles fm) | OtherFile _ \<Rightarrow> pathHandles fm)"
  by (simp add: drop_handle_def Let_def split: absfs_file.split)

lemma fh_inv_drop_handle:
  assumes inv: "fh_inv fm" and h: "map_of (handles fm) h = Some f"
  shows "fh_inv (drop_handle h f fm)"
proof -
  note d = fh_invD [OF inv]
  have free: "h \<notin># mset (freeHandles fm)" "h < nextHandle fm" using d(5,6) h by auto
  have q: "mset (PushValue (freeHandles fm) h) = add_mset h (mset (freeHandles fm))"
    by (rule heap_pool.push_contents [OF d(3)])
  have paths: "map_of (pathHandles (drop_handle h f fm)) p =
      (if \<exists>n. f = NodeFile n \<and> n_path n = p then None else map_of (pathHandles fm) p)" for p
    by (auto simp: pathHandles_drop_handle split: absfs_file.split)
  show ?thesis
  proof (rule fh_invI)
    show "gm_ok (handles (drop_handle h f fm))" "gm_ok (pathHandles (drop_handle h f fm))"
      using d(1,2) by (simp_all add: pathHandles_drop_handle split: absfs_file.split)
    show "heap_ok (freeHandles (drop_handle h f fm))"
      using heap_pool.push_ok [OF d(3)] by simp
    show "\<forall>x. count (mset (freeHandles (drop_handle h f fm))) x \<le> 1"
      using heap_pool.push_unique [OF d(3,4) free(1)] by simp
  next
    fix h' f'
    assume "map_of (handles (drop_handle h f fm)) h' = Some f'"
    then have "map_of (handles fm) h' = Some f'" "h' \<noteq> h" by (auto split: if_splits)
    with d(5,6) show "h' < nextHandle (drop_handle h f fm) \<and>
        h' \<notin># mset (freeHandles (drop_handle h f fm))" by (simp add: q)
  next
    fix h' assume "h' \<in># mset (freeHandles (drop_handle h f fm))"
    with d(7) free(2) show "h' < nextHandle (drop_handle h f fm)" by (auto simp: q)
  next
    fix p h' assume "map_of (pathHandles (drop_handle h f fm)) p = Some h'"
    then have p: "map_of (pathHandles fm) p = Some h'" and np: "\<not> (\<exists>n. f = NodeFile n \<and> n_path n = p)"
      by (auto simp: paths split: if_splits)
    from d(8,9) [OF p] np h
    show "(\<exists>n. map_of (handles (drop_handle h f fm)) h' = Some (NodeFile n) \<and> n_path n = p) \<and> p \<noteq> []"
      by (cases "h' = h") auto
  next
    fix h' n assume n: "map_of (handles (drop_handle h f fm)) h' = Some (NodeFile n)" "n_path n \<noteq> []"
    then have n': "map_of (handles fm) h' = Some (NodeFile n)" and ne: "h' \<noteq> h" by (auto split: if_splits)
    have "\<not> (f = NodeFile n2 \<and> n_path n2 = n_path n)" for n2
      using d(10) [of h n2] d(10) [OF n' n(2)] h ne n(2) by auto
    with d(10) [OF n' n(2)] show "map_of (pathHandles (drop_handle h f fm)) (n_path n) = Some h'"
      by (auto simp: paths)
  qed
qed

lemma fh_inv_Release: "fh_inv fm \<Longrightarrow> fh_inv (Release fm h)"
  by (simp add: Release_def fh_inv_drop_handle split: option.split)

section \<open>Eviction\<close>

lemma min_handle_le_acc: "fold (\<lambda>h m. if h < m then h else m) ks m0 \<le> (m0 :: u64)"
  by (induction ks arbitrary: m0) (auto intro: order_trans [OF _ less_imp_le])

lemma min_handle_fold_le: "k \<in> set ks \<Longrightarrow> fold (\<lambda>h m. if h < m then h else m) ks m0 \<le> (k :: u64)"
proof (induction ks arbitrary: m0)
  case (Cons a ks)
  show ?case
  proof (cases "k = a")
    case True
    then show ?thesis
      using min_handle_le_acc [of ks "if a < m0 then a else m0"] by (auto split: if_splits)
  next
    case False
    with Cons show ?thesis by simp
  qed
qed simp

lemma min_handle_le: "map_of hs h = Some f \<Longrightarrow> min_handle hs \<le> h"
  unfolding min_handle_def by (rule min_handle_fold_le) (force dest: map_of_SomeD simp: image_iff)

text \<open>
  What the loop does from handle \<open>h\<close> when every key is at least \<open>h\<close>: it returns, and removes the
  \<open>c\<close> smallest keys.
\<close>

definition evicted :: "nat \<Rightarrow> FileHandleMap \<Rightarrow> FileHandleMap \<Rightarrow> bool" where
  "evicted c fm fm' \<longleftrightarrow>
     fh_inv fm' \<and> length (handles fm') + c = length (handles fm) \<and>
     nextHandle fm' = nextHandle fm \<and> maxHandles fm' = maxHandles fm \<and>
     map_of (handles fm') \<subseteq>\<^sub>m map_of (handles fm) \<and>
     (\<forall>e \<in> dom (map_of (handles fm)) - dom (map_of (handles fm')).
        \<forall>k \<in> dom (map_of (handles fm')). e < k)"

lemma evict_loop_evicted:
  assumes "fh_inv fm" and "c \<le> length (handles fm)"
    and "\<And>k f. map_of (handles fm) k = Some f \<Longrightarrow> h \<le> k"
  shows "\<exists>fm'. evict_loop (int c) h fm = Some fm' \<and> evicted c fm fm'"
  using assms
proof (induction "2 ^ 64 - unat h" arbitrary: h c fm rule: less_induct)
  case less
  show ?case
  proof (cases c)
    case 0
    with less.prems(1) show ?thesis
      by (subst evict_loop.simps) (simp add: evicted_def)
  next
    case (Suc c')
    then have "handles fm \<noteq> []" using less.prems(2) by auto
    then obtain k f where k: "map_of (handles fm) k = Some f"
      using map_of_nonempty by blast
    have hk: "h \<le> k" using less.prems(3) k by blast
    have next_le: "h + 1 \<le> k'" and dec: "2 ^ 64 - unat (h + 1) < 2 ^ 64 - unat h" if "h < k'" for k'
    proof -
      have "unat (h + 1) = unat h + 1"
        using that unsigned_less [of k', where ?'a = nat] by (simp add: word_less_nat_alt unat_word_ariths)
      then show "h + 1 \<le> k'" "2 ^ 64 - unat (h + 1) < 2 ^ 64 - unat h"
        using that unsigned_less [of k', where ?'a = nat] by (auto simp: word_less_nat_alt word_le_nat_alt)
    qed
    show ?thesis
    proof (cases "map_of (handles fm) h")
      case None
      with k hk have "h < k" by (cases "h = k") auto
      have "h + 1 \<le> k'" if "map_of (handles fm) k' = Some f'" for k' f'
        using less.prems(3) [OF that] None that next_le [of k'] by (cases "h = k'") auto
      with less.hyps [OF dec [OF \<open>h < k\<close>] less.prems(1,2)] None Suc show ?thesis
        by (subst evict_loop.simps) auto
    next
      case (Some fl)
      let ?fm = "drop_handle h fl fm"
      have inv: "fh_inv ?fm" by (rule fh_inv_drop_handle [OF less.prems(1) Some])
      have len: "Suc (length (handles ?fm)) = length (handles fm)"
        using length_delete_present [OF fh_invD(1) [OF less.prems(1)] Some] by simp
      have rec: "\<exists>fm'. evict_loop (int c') (h + 1) ?fm = Some fm' \<and> evicted c' ?fm fm'"
      proof (cases "\<exists>k' f'. map_of (handles ?fm) k' = Some f'")
        case True
        then obtain k' f' where "map_of (handles ?fm) k' = Some f'" by blast
        then have "map_of (handles fm) k' = Some f'" "k' \<noteq> h" by (auto split: if_splits)
        with less.prems(3) [of k'] have "h < k'" by simp
        have "h + 1 \<le> k2" if "map_of (handles ?fm) k2 = Some f2" for k2 f2
          using that less.prems(3) [of k2] next_le [of k2] by (auto split: if_splits)
        with less.hyps [OF dec [OF \<open>h < k'\<close>] inv, of c'] len Suc less.prems(2) show ?thesis by auto
      next
        case False
        then have "handles ?fm = []" using map_of_nonempty by blast
        with len Suc less.prems(2) have "c' = 0" by simp
        with inv show ?thesis by (subst evict_loop.simps) (simp add: evicted_def)
      qed
      then obtain fm' where fm': "evict_loop (int c') (h + 1) ?fm = Some fm'" "evicted c' ?fm fm'" by blast
      have run: "evict_loop (int c) h fm = Some fm'"
        using fm'(1) Some Suc by (subst evict_loop.simps) simp
      have "evicted c fm fm'"
      proof -
        have sub: "map_of (handles fm') \<subseteq>\<^sub>m (map_of (handles fm))(h := None)"
          using fm'(2) by (simp add: evicted_def)
        then have "map_of (handles fm') h = None"
          by (auto simp: map_le_def dest: bspec [of _ _ h])
        moreover have "map_of (handles fm') \<subseteq>\<^sub>m map_of (handles fm)"
          using sub by (rule map_le_trans) (simp add: map_le_def)
        moreover have "h < k" if "map_of (handles fm') k = Some f'" for k f'
        proof -
          have "((map_of (handles fm))(h := None)) k = Some f'"
            using sub that by (auto simp: map_le_def dom_def)
          then show ?thesis using less.prems(3) [of k] by (auto split: if_splits)
        qed
        ultimately show ?thesis
          using fm'(2) len Suc by (fastforce simp: evicted_def)
      qed
      with run show ?thesis by blast
    qed
  qed
qed

lemma evict_returns:
  assumes "fh_inv fm"
  shows "\<exists>fm'. evict fm = Some fm' \<and>
    evicted (if int (length (handles fm)) > max_handles fm then nat (evict_count fm) else 0) fm fm'"
proof (cases "int (length (handles fm)) > max_handles fm")
  case True
  have "0 < evict_count fm" "evict_count fm \<le> max_handles fm"
    by (auto simp: evict_count_def Let_def max_handles_def)
  with True evict_loop_evicted [OF assms, of "nat (evict_count fm)" "min_handle (handles fm)"]
    min_handle_le [of "handles fm"] show ?thesis by (auto simp: evict_def)
next
  case False
  with assms show ?thesis by (simp add: evict_def evicted_def)
qed

section \<open>Allocation\<close>

text \<open>Recording a new handle that is neither in use nor free.\<close>

definition record_handle :: "u64 \<Rightarrow> absfs_file \<Rightarrow> FileHandleMap \<Rightarrow> FileHandleMap" where
  "record_handle h f fm =
     (let fm = fm\<lparr>handles := AList.update h f (handles fm)\<rparr>
      in case dedup_path f of
           Some p \<Rightarrow> fm\<lparr>pathHandles := AList.update p h (pathHandles fm)\<rparr>
         | None \<Rightarrow> fm)"

lemma record_handle_sel [simp]:
  "handles (record_handle h f fm) = AList.update h f (handles fm)"
  "nextHandle (record_handle h f fm) = nextHandle fm"
  "maxHandles (record_handle h f fm) = maxHandles fm"
  "freeHandles (record_handle h f fm) = freeHandles fm"
  "map_of (pathHandles (record_handle h f fm)) p =
     (if dedup_path f = Some p then Some h else map_of (pathHandles fm) p)"
  by (auto simp: record_handle_def Let_def split: option.split)

lemma gm_ok_pathHandles_record_handle [simp]:
  "gm_ok (pathHandles fm) \<Longrightarrow> gm_ok (pathHandles (record_handle h f fm))"
  by (simp add: record_handle_def Let_def split: option.split)

lemma dedup_path_Some: "dedup_path f = Some p \<longleftrightarrow> (\<exists>n. f = NodeFile n \<and> n_path n = p) \<and> p \<noteq> []"
  by (auto simp: dedup_path_def split: absfs_file.split)

lemma fh_inv_record_handle:
  assumes inv: "fh_inv fm" and h: "map_of (handles fm) h = None" "h \<notin># mset (freeHandles fm)" "h < nextHandle fm"
    and new: "Option.bind (dedup_path f) (map_of (pathHandles fm)) = None"
  shows "fh_inv (record_handle h f fm)"
proof -
  note d = fh_invD [OF inv]
  show ?thesis
  proof (rule fh_invI)
    fix h' f' assume "map_of (handles (record_handle h f fm)) h' = Some f'"
    with d(5,6) h show "h' < nextHandle (record_handle h f fm) \<and>
        h' \<notin># mset (freeHandles (record_handle h f fm))" by (auto split: if_splits)
  next
    fix p h' assume p: "map_of (pathHandles (record_handle h f fm)) p = Some h'"
    show "(\<exists>n. map_of (handles (record_handle h f fm)) h' = Some (NodeFile n) \<and> n_path n = p) \<and> p \<noteq> []"
    proof (cases "dedup_path f = Some p")
      case True
      with p show ?thesis by (auto simp: dedup_path_Some)
    next
      case False
      with p have "map_of (pathHandles fm) p = Some h'" by simp
      with d(8,9) [OF this] h(1) show ?thesis by auto
    qed
  next
    fix h' n assume n: "map_of (handles (record_handle h f fm)) h' = Some (NodeFile n)" "n_path n \<noteq> []"
    show "map_of (pathHandles (record_handle h f fm)) (n_path n) = Some h'"
    proof (cases "h' = h")
      case True
      with n show ?thesis by (simp add: dedup_path_Some)
    next
      case False
      with n have "map_of (pathHandles fm) (n_path n) = Some h'" using d(10) by simp
      with new show ?thesis by (auto simp: Option.bind_eq_None_conv)
    qed
  qed (use d in simp_all)
qed

lemma alloc_new_unfold:
  "alloc_new fm f =
     (case PopMin (freeHandles fm) of
        (Some v, q) \<Rightarrow> (v, record_handle v f (fm\<lparr>freeHandles := q\<rparr>))
      | (None, q) \<Rightarrow> (nextHandle fm, record_handle (nextHandle fm) f
          (fm\<lparr>freeHandles := q, nextHandle := nextHandle fm + 1\<rparr>)))"
  by (auto simp: alloc_new_def record_handle_def Let_def split: prod.split option.split)

lemma word_Suc_greater:
  fixes x :: u64
  assumes "x \<noteq> MaxUint64"
  shows "x < x + 1"
proof -
  have "unat x \<noteq> unat MaxUint64" using assms by (simp only: word_unat_eq_iff [symmetric] not_False_eq_True)
  then have "unat x + 1 < 2 ^ 64" using unsigned_less [of x, where ?'a = nat] by simp
  then show ?thesis by (simp add: word_less_nat_alt unat_word_ariths)
qed

lemma fh_inv_pool:
  assumes inv: "fh_inv fm" and q: "heap_ok q" "\<forall>x. count (mset q) x \<le> 1"
    and sub: "\<And>x. x \<in># mset q \<Longrightarrow> x \<in># mset (freeHandles fm)" and n: "nextHandle fm \<le> n"
  shows "fh_inv (fm\<lparr>freeHandles := q, nextHandle := n\<rparr>)"
proof (rule fh_invI)
  note d = fh_invD [OF inv]
  let ?fm = "fm\<lparr>freeHandles := q, nextHandle := n\<rparr>"
  show "gm_ok (handles ?fm)" "gm_ok (pathHandles ?fm)" "heap_ok (freeHandles ?fm)"
    "\<forall>x. count (mset (freeHandles ?fm)) x \<le> 1" using d(1,2) q by simp_all
next
  fix h f assume "map_of (handles (fm\<lparr>freeHandles := q, nextHandle := n\<rparr>)) h = Some f"
  then have "map_of (handles fm) h = Some f" by simp
  from fh_invD(5,6) [OF inv this] sub n
  show "h < nextHandle (fm\<lparr>freeHandles := q, nextHandle := n\<rparr>) \<and>
      h \<notin># mset (freeHandles (fm\<lparr>freeHandles := q, nextHandle := n\<rparr>))"
    by (auto simp del: set_mset_mset intro: less_le_trans)
next
  fix h assume "h \<in># mset (freeHandles (fm\<lparr>freeHandles := q, nextHandle := n\<rparr>))"
  then have "h \<in># mset (freeHandles fm)" using sub by simp
  from fh_invD(7) [OF inv this] n
  show "h < nextHandle (fm\<lparr>freeHandles := q, nextHandle := n\<rparr>)" by (auto intro: less_le_trans)
next
  fix p h assume "map_of (pathHandles (fm\<lparr>freeHandles := q, nextHandle := n\<rparr>)) p = Some h"
  then have "map_of (pathHandles fm) p = Some h" by simp
  from fh_invD(8,9) [OF inv this]
  show "(\<exists>na. map_of (handles (fm\<lparr>freeHandles := q, nextHandle := n\<rparr>)) h = Some (NodeFile na) \<and>
      n_path na = p) \<and> p \<noteq> []" by simp
next
  fix h na assume "map_of (handles (fm\<lparr>freeHandles := q, nextHandle := n\<rparr>)) h = Some (NodeFile na)"
    and ne: "n_path na \<noteq> []"
  then have "map_of (handles fm) h = Some (NodeFile na)" by simp
  from fh_invD(10) [OF inv this ne]
  show "map_of (pathHandles (fm\<lparr>freeHandles := q, nextHandle := n\<rparr>)) (n_path na) = Some h" by simp
qed

lemma alloc_new_ok:
  assumes inv: "fh_inv fm" and next_ok: "nextHandle fm \<noteq> MaxUint64"
    and new: "Option.bind (dedup_path f) (map_of (pathHandles fm)) = None"
    and run: "alloc_new fm f = (h, fm')"
  shows "fh_inv fm'" and "map_of (handles fm) h = None"
    and "handles fm' = AList.update h f (handles fm)" and "maxHandles fm' = maxHandles fm"
    and "\<forall>p. map_of (pathHandles fm') p = (if dedup_path f = Some p then Some h else map_of (pathHandles fm) p)"
proof -
  note d = fh_invD [OF inv]
  obtain r q where pop: "PopMin (freeHandles fm) = (r, q)" by fastforce
  have "fh_inv fm' \<and> map_of (handles fm) h = None \<and> handles fm' = AList.update h f (handles fm) \<and>
      maxHandles fm' = maxHandles fm \<and>
      (\<forall>p. map_of (pathHandles fm') p = (if dedup_path f = Some p then Some h else map_of (pathHandles fm) p))"
  proof (cases r)
    case None
    with pop heap_pool.pop_None [OF d(3)] have q: "q = freeHandles fm" by simp
    let ?fm = "fm\<lparr>freeHandles := q, nextHandle := nextHandle fm + 1\<rparr>"
    have run': "h = nextHandle fm" "fm' = record_handle h f ?fm"
      using run by (auto simp: alloc_new_unfold pop None)
    have lt: "nextHandle fm < nextHandle fm + 1" by (rule word_Suc_greater [OF next_ok])
    have h0: "map_of (handles fm) h = None" "h \<notin># mset (freeHandles fm)"
      using d(5,7) [of h] run'(1) by (cases "map_of (handles fm) h", auto)
    have "fh_inv ?fm"
      by (rule fh_inv_pool [OF inv]) (use d(3,4) lt q in simp_all)
    then have "fh_inv fm'"
      unfolding run'(2) by (rule fh_inv_record_handle) (use h0 run'(1) lt new q in simp_all)
    with h0 show ?thesis by (simp add: run'(2))
  next
    case (Some v)
    note p = heap_pool.pop_Some [OF d(3) pop [unfolded Some]]
    note fr = heap_pool.pop_fresh [OF d(3,4) pop [unfolded Some]]
    let ?fm = "fm\<lparr>freeHandles := q\<rparr>"
    have run': "h = v" "fm' = record_handle h f ?fm"
      using run by (auto simp: alloc_new_unfold pop Some)
    have v: "v \<in># mset (freeHandles fm)" using p by simp
    then have h0: "map_of (handles fm) h = None" "h < nextHandle fm"
      using d(6,7) [of h] run'(1) by (cases "map_of (handles fm) h", auto)
    have sub: "x \<in># mset (freeHandles fm)" if "x \<in># mset q" for x using p that by simp
    have "fh_inv ?fm"
      using fh_inv_pool [OF inv, of q "nextHandle fm"] p fr(2) sub by simp
    then have "fh_inv fm'"
      unfolding run'(2) by (rule fh_inv_record_handle) (use h0 run'(1) fr(1) new in simp_all)
    with h0 show ?thesis by (simp add: run'(2))
  qed
  then show "fh_inv fm'" and "map_of (handles fm) h = None"
    and "handles fm' = AList.update h f (handles fm)" and "maxHandles fm' = maxHandles fm"
    and "\<forall>p. map_of (pathHandles fm') p = (if dedup_path f = Some p then Some h else map_of (pathHandles fm) p)"
    by auto
qed

lemma fh_inv_dedup:
  assumes inv: "fh_inv fm" and old: "Option.bind (dedup_path f) (map_of (pathHandles fm)) = Some h"
  shows "fh_inv (fm\<lparr>handles := AList.update h f (handles fm)\<rparr>)" and "map_of (handles fm) h \<noteq> None"
proof -
  note d = fh_invD [OF inv]
  from old obtain n where f: "f = NodeFile n" "n_path n \<noteq> []" and p: "map_of (pathHandles fm) (n_path n) = Some h"
    by (auto simp: Option.bind_eq_Some_conv dedup_path_Some)
  from d(8) [OF p] obtain m where m: "map_of (handles fm) h = Some (NodeFile m)" "n_path m = n_path n" by blast
  let ?fm = "fm\<lparr>handles := AList.update h f (handles fm)\<rparr>"
  show "map_of (handles fm) h \<noteq> None" using m by simp
  show "fh_inv ?fm"
  proof (rule fh_invI)
    fix h' f' assume "map_of (handles ?fm) h' = Some f'"
    then have "\<exists>f'. map_of (handles fm) h' = Some f'" using m(1) by (auto split: if_splits)
    with d(5,6) show "h' < nextHandle ?fm \<and> h' \<notin># mset (freeHandles ?fm)" by auto
  next
    fix p' h' assume "map_of (pathHandles ?fm) p' = Some h'"
    then have p': "map_of (pathHandles fm) p' = Some h'" by simp
    from d(8,9) [OF p'] m f show "(\<exists>n. map_of (handles ?fm) h' = Some (NodeFile n) \<and> n_path n = p') \<and> p' \<noteq> []"
      by auto
  next
    fix h' n' assume "map_of (handles ?fm) h' = Some (NodeFile n')" "n_path n' \<noteq> []"
    then show "map_of (pathHandles ?fm) (n_path n') = Some h'"
      using d(10) [of h' n'] p f by (auto split: if_splits)
  qed (use d(1-4,7) in simp_all)
qed

lemma Allocate_old:
  "Option.bind (dedup_path f) (map_of (pathHandles fm)) = Some h \<Longrightarrow>
    Allocate fm f = (h, fm\<lparr>handles := AList.update h f (handles fm)\<rparr>)"
  by (simp add: Allocate_def)

lemma Allocate_new:
  assumes inv: "fh_inv fm" and next_ok: "nextHandle fm \<noteq> MaxUint64"
    and new: "Option.bind (dedup_path f) (map_of (pathHandles fm)) = None"
  obtains h fm1 fm2 where "Allocate fm f = (h, fm2)" and "alloc_new fm f = (h, fm1)"
    and "evict fm1 = Some fm2" and "fh_inv fm1" and "map_of (handles fm) h = None"
    and "handles fm1 = AList.update h f (handles fm)" and "max_handles fm1 = max_handles fm"
    and "evicted (if int (length (handles fm)) \<ge> max_handles fm then nat (evict_count fm) else 0) fm1 fm2"
proof -
  obtain h fm1 where run: "alloc_new fm f = (h, fm1)" by fastforce
  note a = alloc_new_ok [OF inv next_ok new run]
  have len: "length (handles fm1) = Suc (length (handles fm))"
    using a(2,3) by (simp add: length_update_new)
  have m: "max_handles fm1 = max_handles fm" "evict_count fm1 = evict_count fm"
    using a(4) by (simp_all add: max_handles_def evict_count_def)
  from evict_returns [OF a(1)] obtain fm2 where e: "evict fm1 = Some fm2"
    "evicted (if int (length (handles fm1)) > max_handles fm1 then nat (evict_count fm1) else 0) fm1 fm2"
    by blast
  have "(int (length (handles fm1)) > max_handles fm1) = (int (length (handles fm)) \<ge> max_handles fm)"
    using len m by auto
  with e m have "evicted (if int (length (handles fm)) \<ge> max_handles fm then nat (evict_count fm) else 0) fm1 fm2"
    by (simp split: if_split_asm)
  moreover have "Allocate fm f = (h, fm2)" using new run e by (simp add: Allocate_def)
  ultimately show thesis using that run e(1) a m(1) by blast
qed

lemma fh_inv_Allocate:
  assumes "fh_inv fm" and "nextHandle fm \<noteq> MaxUint64"
  shows "fh_inv (snd (Allocate fm f))"
proof (cases "Option.bind (dedup_path f) (map_of (pathHandles fm))")
  case None
  then show ?thesis by (rule Allocate_new [OF assms]) (simp add: evicted_def)
next
  case (Some h)
  with fh_inv_dedup [OF assms(1)] show ?thesis by (simp add: Allocate_old)
qed

lemma Allocate_bound:
  assumes "fh_inv fm" and "nextHandle fm \<noteq> MaxUint64" and "int (Count fm) \<le> max_handles fm"
  shows "int (Count (snd (Allocate fm f))) \<le> max_handles fm"
proof (cases "Option.bind (dedup_path f) (map_of (pathHandles fm))")
  case None
  show ?thesis
  proof (rule Allocate_new [OF assms(1,2) None])
    fix h fm1 fm2
    assume "Allocate fm f = (h, fm2)" "map_of (handles fm) h = None"
      "handles fm1 = AList.update h f (handles fm)"
      "evicted (if int (length (handles fm)) \<ge> max_handles fm then nat (evict_count fm) else 0) fm1 fm2"
    moreover have "1 \<le> evict_count fm" by (simp add: evict_count_def Let_def)
    ultimately show ?thesis
      using assms(3) by (auto simp: Count_def evicted_def length_update_new split: if_splits)
  qed
next
  case (Some h)
  with fh_inv_dedup(2) [OF assms(1) Some] assms(3) show ?thesis
    by (auto simp: Allocate_old Count_def length_update_old)
qed

lemma Get_Allocate_room:
  assumes "fh_inv fm" and "nextHandle fm \<noteq> MaxUint64" and "int (Count fm) < max_handles fm"
    and "Allocate fm f = (h, fm')"
  shows "Get fm' = (Get fm)(h \<mapsto> f)"
proof (cases "Option.bind (dedup_path f) (map_of (pathHandles fm))")
  case None
  show ?thesis
  proof (rule Allocate_new [OF assms(1,2) None])
    fix h' fm1 fm2
    assume a: "Allocate fm f = (h', fm2)" "handles fm1 = AList.update h' f (handles fm)"
      "evict fm1 = Some fm2" "map_of (handles fm) h' = None" "max_handles fm1 = max_handles fm"
    then have "fm2 = fm1" using assms(3) by (auto simp: evict_def Count_def length_update_new split: if_splits)
    with a assms(4) show ?thesis by (auto simp: Get_def fun_eq_iff)
  qed
next
  case (Some h')
  with assms(4) show ?thesis by (auto simp: Allocate_old Get_def fun_eq_iff)
qed
section \<open>Properties\<close>

text \<open>
  C16: The handle map keeps its invariant: allocating a handle, releasing one and releasing all of
  them leave the handle map, the path map and the free list consistent, as long as the 64-bit
  counter has not reached its last value.
\<close>

theorem file_handle_invariant:
  "fh_inv newFileMap \<and>
   (fh_inv fm \<longrightarrow> nextHandle fm \<noteq> MaxUint64 \<longrightarrow> fh_inv (snd (Allocate fm f))) \<and>
   (fh_inv fm \<longrightarrow> fh_inv (Release fm h) \<and> fh_inv (ReleaseAll fm))"
  by (simp add: fh_inv_new fh_inv_Allocate fh_inv_Release fh_inv_ReleaseAll)

definition sample_node :: "string \<Rightarrow> nat \<Rightarrow> absfs_file" where
  "sample_node p c = NodeFile \<lparr>n_path = p, n_cell = c\<rparr>"

theorem file_handle_invariant_witness:
  "fh_inv (snd (Allocate newFileMap (sample_node ''/a'' 1)))"
  using file_handle_invariant [of newFileMap "sample_node ''/a'' 1"] by (simp add: newFileMap_def)

text \<open>
  C17: While the map has room, a handle just allocated resolves to the file it was allocated for
  and every other handle resolves as before.
\<close>

theorem Get_after_Allocate:
  assumes "fh_inv fm" and "nextHandle fm \<noteq> MaxUint64" and "int (Count fm) < max_handles fm"
  shows "Get (snd (Allocate fm f)) = (Get fm)(fst (Allocate fm f) \<mapsto> f)"
  using Get_Allocate_room [OF assms] by (metis prod.collapse)

theorem Get_after_Allocate_witness:
  "Get (snd (Allocate newFileMap (sample_node ''/a'' 1))) 1 = Some (sample_node ''/a'' 1)"
proof -
  have "fst (Allocate newFileMap (sample_node ''/a'' 1)) = 1" by code_simp
  with Get_after_Allocate [OF fh_inv_new, of "sample_node ''/a'' 1"] show ?thesis
    by (simp add: newFileMap_def Count_def max_handles_def)
qed

text \<open>
  One path has one handle: allocating again for a path whose handle is still in the map returns
  that handle, replaces the file behind it, and changes nothing else.
\<close>

theorem Allocate_deduplicates:
  assumes "fh_inv fm" and "Get fm h = Some (NodeFile n)" and "n_path n \<noteq> []" and "n_path m = n_path n"
  shows "Allocate fm (NodeFile m) = (h, fm\<lparr>handles := AList.update h (NodeFile m) (handles fm)\<rparr>) \<and>
    Count (snd (Allocate fm (NodeFile m))) = Count fm"
proof -
  have "Option.bind (dedup_path (NodeFile m)) (map_of (pathHandles fm)) = Some h"
    using fh_invD(10) [OF assms(1), of h n] assms(2-4) by (simp add: Get_def dedup_path_def)
  then have "Allocate fm (NodeFile m) = (h, fm\<lparr>handles := AList.update h (NodeFile m) (handles fm)\<rparr>)"
    by (rule Allocate_old)
  with assms(2) show ?thesis by (simp add: Count_def Get_def length_update_old)
qed

text \<open>
  C26: The eviction loop of \<open>Allocate\<close> returns, although it steps through the whole 64-bit range: on
  a consistent map over its limit it removes exactly \<open>max(1, limit / 10)\<close> handles, they are the
  smallest ones, and the files behind the others are untouched.
\<close>

theorem eviction_returns:
  assumes "fh_inv fm" and "int (Count fm) > max_handles fm"
  shows "\<exists>fm'. evict fm = Some fm' \<and> fh_inv fm' \<and>
    int (Count fm') = int (Count fm) - max 1 (max_handles fm div 10) \<and>
    (\<forall>k. Get fm' k \<noteq> None \<longrightarrow> Get fm' k = Get fm k) \<and>
    (\<forall>e k. Get fm e \<noteq> None \<and> Get fm' e = None \<and> Get fm' k \<noteq> None \<longrightarrow> e < k)"
proof -
  obtain fm' where e: "evict fm = Some fm'" "evicted (nat (evict_count fm)) fm fm'"
    using evict_returns [OF assms(1)] assms(2) by (auto simp: Count_def)
  have c: "evict_count fm = max 1 (max_handles fm div 10)" "1 \<le> evict_count fm"
    by (auto simp: evict_count_def Let_def max_def)
  from e(2) have "Count fm' + nat (evict_count fm) = Count fm" by (simp add: evicted_def Count_def)
  then have "int (Count fm') = int (Count fm) - max 1 (max_handles fm div 10)"
    unfolding c(1) [symmetric] using c(2) by linarith
  moreover have "\<forall>k. Get fm' k \<noteq> None \<longrightarrow> Get fm' k = Get fm k"
    using e(2) by (auto simp: evicted_def Get_def map_le_def dom_def)
  moreover have "\<forall>e k. Get fm e \<noteq> None \<and> Get fm' e = None \<and> Get fm' k \<noteq> None \<longrightarrow> e < k"
    using e(2) by (auto simp: evicted_def Get_def dom_def)
  ultimately show ?thesis using e by (auto simp: evicted_def)
qed

definition full_map :: FileHandleMap where
  "full_map = snd (alloc_new (snd (Allocate (newFileMap\<lparr>maxHandles := 1\<rparr>) (sample_node ''/a'' 1)))
     (sample_node ''/b'' 2))"

theorem eviction_returns_witness:
  "\<exists>fm'. evict full_map = Some fm' \<and> Count fm' = 1"
proof -
  let ?fm0 = "newFileMap\<lparr>maxHandles := 1\<rparr>"
  let ?fm1 = "snd (Allocate ?fm0 (sample_node ''/a'' 1))"
  have "fh_inv ?fm0" using fh_inv_new by (simp only: fh_inv_maxHandles)
  then have i1: "fh_inv ?fm1" by (rule fh_inv_Allocate) (simp add: newFileMap_def)
  have n1: "nextHandle ?fm1 \<noteq> MaxUint64" by code_simp
  have b1: "Option.bind (dedup_path (sample_node ''/b'' 2)) (map_of (pathHandles ?fm1)) = None" by code_simp
  have "fh_inv full_map"
    unfolding full_map_def by (rule alloc_new_ok(1) [OF i1 n1 b1 prod.collapse [symmetric]])
  moreover have c: "int (Count full_map) = 2" "max_handles full_map = 1" by code_simp+
  ultimately obtain fm' where "evict full_map = Some fm'" "int (Count fm') = 2 - max 1 (1 div 10)"
    using eviction_returns [of full_map, unfolded c] by fastforce
  then show ?thesis by simp
qed

text \<open>
  A map within its limit stays within it: the number of handles never exceeds the limit after
  an allocation.
\<close>

theorem handle_count_bounded:
  assumes "fh_inv fm" and "nextHandle fm \<noteq> MaxUint64" and "int (Count fm) \<le> max_handles fm"
  shows "int (Count (snd (Allocate fm f))) \<le> max_handles fm"
  using assms by (rule Allocate_bound)

text \<open>
  Eviction takes the lowest handle numbers, and a reused handle is the lowest number of all: with
  room for one handle, the third allocation reuses handle 1, evicts it again, and returns a handle
  that no longer resolves.
\<close>

theorem Allocate_can_return_evicted_handle:
  "(let (h1, fm) = Allocate (newFileMap\<lparr>maxHandles := 1\<rparr>) (sample_node ''/a'' 1);
        (h2, fm) = Allocate fm (sample_node ''/b'' 2);
        (h3, fm) = Allocate fm (sample_node ''/c'' 3)
    in h1 = 1 \<and> h2 = 2 \<and> h3 = 1 \<and> Get fm h3 = None \<and> Get fm h2 \<noteq> None)"
  by code_simp

end
