(* ===== verification/LRU.thy ===== *)
theory LRU
  imports Prelude
begin

text \<open>
  The least-recently-used bookkeeping that both caches of \<open>cache.go\<close> share: the doubly linked list
  of Go's \<open>container/list\<close>, cache entries that hold a reference to their list element, and the steps
  \<open>updateAccessLog\<close>, \<open>removeFromAccessLog\<close> and eviction from the back.  The abstract view of a
  cache is its entries in order of last use; every step is proved to do the obvious thing to it.
\<close>

section \<open>container/list\<close>

text \<open>The elements from front to back, each with the address of its \<open>list.Element\<close>.\<close>

record golist =
  l_items :: "(nat \<times> string) list"
  l_next :: nat

definition list_New :: golist where
  "list_New = \<lparr>l_items = [], l_next = 0\<rparr>"

definition PushFront :: "golist \<Rightarrow> string \<Rightarrow> nat \<times> golist" where
  "PushFront l v = (l_next l, \<lparr>l_items = (l_next l, v) # l_items l, l_next = Suc (l_next l)\<rparr>)"

definition MoveToFront :: "golist \<Rightarrow> nat \<Rightarrow> golist" where
  "MoveToFront l e =
     l\<lparr>l_items := filter (\<lambda>x. fst x = e) (l_items l) @ filter (\<lambda>x. fst x \<noteq> e) (l_items l)\<rparr>"

definition list_Remove :: "golist \<Rightarrow> nat \<Rightarrow> golist" where
  "list_Remove l e = l\<lparr>l_items := filter (\<lambda>x. fst x \<noteq> e) (l_items l)\<rparr>"

definition Back :: "golist \<Rightarrow> (nat \<times> string) option" where
  "Back l = (if l_items l = [] then None else Some (last (l_items l)))"

definition list_ok :: "golist \<Rightarrow> bool" where
  "list_ok l \<longleftrightarrow> distinct (map fst (l_items l)) \<and> (\<forall>(e, v) \<in> set (l_items l). e < l_next l)"

section \<open>What a cache relies on\<close>

locale access_list =
  fixes ok :: "'l \<Rightarrow> bool"
    and items :: "'l \<Rightarrow> (nat \<times> string) list"
    and push :: "'l \<Rightarrow> string \<Rightarrow> nat \<times> 'l"
    and move :: "'l \<Rightarrow> nat \<Rightarrow> 'l"
    and rem :: "'l \<Rightarrow> nat \<Rightarrow> 'l"
  assumes ok_distinct: "ok l \<Longrightarrow> distinct (map fst (items l))"
    and push_law: "ok l \<Longrightarrow> push l v = (e, l') \<Longrightarrow> ok l' \<and> items l' = (e, v) # items l"
    and move_law: "ok l \<Longrightarrow> (e, v) \<in> set (items l) \<Longrightarrow>
      ok (move l e) \<and> items (move l e) = (e, v) # filter (\<lambda>x. fst x \<noteq> e) (items l)"
    and rem_law: "ok l \<Longrightarrow> ok (rem l e) \<and> items (rem l e) = filter (\<lambda>x. fst x \<noteq> e) (items l)"
begin

text \<open>\<open>index m l\<close>: the partial map \<open>m\<close> from paths to elements is exactly what the list holds.\<close>

definition index :: "(string \<Rightarrow> nat option) \<Rightarrow> 'l \<Rightarrow> bool" where
  "index m l \<longleftrightarrow> ok l \<and> (\<forall>p e. m p = Some e \<longleftrightarrow> (e, p) \<in> set (items l))"

lemma index_iff: "index m l \<Longrightarrow> (e, p) \<in> set (items l) \<longleftrightarrow> m p = Some e"
  by (simp add: index_def)

lemma index_ok: "index m l \<Longrightarrow> ok l"
  by (simp add: index_def)

lemma index_elem: "index m l \<Longrightarrow> m p = Some e \<Longrightarrow> (e, p) \<in> set (items l)"
  by (simp add: index_def)

lemma index_distinct_paths:
  assumes "index m l"
  shows "distinct (map snd (items l))"
proof -
  have d: "distinct (items l)"
    using assms ok_distinct by (auto simp: index_def distinct_map)
  have "inj_on snd (set (items l))"
    using assms by (auto simp: index_def inj_on_def) (metis option.inject)
  with d show ?thesis by (simp add: distinct_map)
qed

lemma index_filter:
  assumes "index m l" and "m p = Some e"
  shows "filter (\<lambda>x. fst x \<noteq> e) (items l) = filter (\<lambda>x. snd x \<noteq> p) (items l)"
proof (rule filter_cong [OF refl])
  fix x assume x: "x \<in> set (items l)"
  obtain e' p' where [simp]: "x = (e', p')" by fastforce
  have "m p' = Some e'" using assms x by (simp add: index_def)
  moreover have "p' = p" if "e' = e"
    using eq_key_imp_eq_value [OF ok_distinct [OF index_ok [OF assms(1)]], of e p' p] assms x that
    by (simp add: index_iff)
  ultimately show "(fst x \<noteq> e) = (snd x \<noteq> p)" using assms by auto
qed

lemma index_push:
  assumes "index m l" and "m p = None" and "push l p = (e, l')"
  shows "index (m(p \<mapsto> e)) l'"
proof -
  from push_law [OF index_ok [OF assms(1)] assms(3)] show ?thesis
    using assms(2) by (auto simp: index_def index_iff [OF assms(1)])
qed

lemma index_move:
  assumes "index m l" and "m p = Some e"
  shows "index m (move l e)"
    and "items (move l e) = (e, p) # filter (\<lambda>x. snd x \<noteq> p) (items l)"
proof -
  have l: "ok l" "(e, p) \<in> set (items l)" using assms by (auto simp: index_iff index_ok)
  from move_law [OF l] index_filter [OF assms]
  show i: "items (move l e) = (e, p) # filter (\<lambda>x. snd x \<noteq> p) (items l)" by simp
  show "index m (move l e)"
    unfolding index_def i using move_law [OF l] assms(2) by (auto simp: index_iff [OF assms(1)])
qed

lemma index_rem:
  assumes "index m l" and "m p = Some e"
  shows "index (m(p := None)) (rem l e)"
    and "items (rem l e) = filter (\<lambda>x. snd x \<noteq> p) (items l)"
proof -
  have l: "ok l" using assms by (simp add: index_def)
  from rem_law [OF l] index_filter [OF assms]
  show i: "items (rem l e) = filter (\<lambda>x. snd x \<noteq> p) (items l)" by simp
  show "index (m(p := None)) (rem l e)"
    unfolding index_def i using rem_law [OF l] assms(2) by (auto simp: index_iff [OF assms(1)])
qed

end

lemma filter_key:
  "distinct (map fst xs) \<Longrightarrow> (e, v) \<in> set xs \<Longrightarrow> filter (\<lambda>x. fst x = e) xs = [(e, v)]"
  by (induction xs) (force simp: filter_empty_conv)+

interpretation glist: access_list list_ok l_items PushFront MoveToFront list_Remove
proof
  fix l :: golist and v e l'
  assume ok: "list_ok l"
  then show "distinct (map fst (l_items l))" by (simp add: list_ok_def)
  show "list_ok l' \<and> l_items l' = (e, v) # l_items l" if "PushFront l v = (e, l')"
    using that ok by (fastforce simp: PushFront_def list_ok_def less_Suc_eq)
  have d: "distinct (map fst (filter P (l_items l)))" for P
    using ok by (simp add: list_ok_def distinct_map_filter)
  show "list_ok (list_Remove l e) \<and> l_items (list_Remove l e) = filter (\<lambda>x. fst x \<noteq> e) (l_items l)"
    using ok d by (auto simp: list_Remove_def list_ok_def)
  show "list_ok (MoveToFront l e) \<and> l_items (MoveToFront l e) = (e, v) # filter (\<lambda>x. fst x \<noteq> e) (l_items l)"
    if v: "(e, v) \<in> set (l_items l)"
  proof -
    have "filter (\<lambda>x. fst x = e) (l_items l) = [(e, v)]"
      using ok v by (simp add: list_ok_def filter_key)
    then show ?thesis
      using ok d v by (auto simp: MoveToFront_def list_ok_def)
  qed
qed

section \<open>Cache state\<close>

text \<open>What \<open>CachedAttrs\<close> and \<open>CachedDirEntry\<close>, and \<open>AttrCache\<close> and \<open>DirCache\<close>, have in common.\<close>

record lru_entry =
  listElement :: "nat option"

record 'e lru_state =
  cache :: "(string, 'e) gomap"
  accessList :: golist

definition updateAccessLog ::
    "('m lru_entry_scheme, 'z) lru_state_scheme \<Rightarrow> string \<Rightarrow> ('m lru_entry_scheme, 'z) lru_state_scheme" where
  "updateAccessLog c path =
     (case map_of (cache c) path of
        None \<Rightarrow> c
      | Some cached \<Rightarrow>
          (case listElement cached of
             Some e \<Rightarrow> c\<lparr>accessList := MoveToFront (accessList c) e\<rparr>
           | None \<Rightarrow>
               let (e, l) = PushFront (accessList c) path
               in c\<lparr>accessList := l, cache := AList.update path (cached\<lparr>listElement := Some e\<rparr>) (cache c)\<rparr>))"

definition removeFromAccessLog ::
    "('m lru_entry_scheme, 'z) lru_state_scheme \<Rightarrow> string \<Rightarrow> ('m lru_entry_scheme, 'z) lru_state_scheme" where
  "removeFromAccessLog c path =
     (case map_of (cache c) path of
        None \<Rightarrow> c
      | Some cached \<Rightarrow>
          (case listElement cached of
             None \<Rightarrow> c
           | Some e \<Rightarrow>
               c\<lparr>accessList := list_Remove (accessList c) e,
                 cache := AList.update path (cached\<lparr>listElement := None\<rparr>) (cache c)\<rparr>))"

text \<open>\<open>removeFromAccessLog\<close> followed by \<open>delete\<close>.\<close>

definition drop_entry ::
    "('m lru_entry_scheme, 'z) lru_state_scheme \<Rightarrow> string \<Rightarrow> ('m lru_entry_scheme, 'z) lru_state_scheme" where
  "drop_entry c path =
     (let c = removeFromAccessLog c path in c\<lparr>cache := AList.delete path (cache c)\<rparr>)"

text \<open>Eviction of the element at the back of the access list.\<close>

definition evict_lru ::
    "('m lru_entry_scheme, 'z) lru_state_scheme \<Rightarrow> ('m lru_entry_scheme, 'z) lru_state_scheme" where
  "evict_lru c =
     (case Back (accessList c) of
        None \<Rightarrow> c
      | Some (e, lruPath) \<Rightarrow>
          c\<lparr>cache := AList.delete lruPath (cache c), accessList := list_Remove (accessList c) e\<rparr>)"

section \<open>The abstract view\<close>

definition strip :: "'m lru_entry_scheme \<Rightarrow> 'm lru_entry_scheme" where
  "strip c = c\<lparr>listElement := None\<rparr>"

definition elem_of :: "('m lru_entry_scheme, 'z) lru_state_scheme \<Rightarrow> string \<Rightarrow> nat option" where
  "elem_of c p = Option.bind (map_of (cache c) p) listElement"

definition lru_inv :: "('m lru_entry_scheme, 'z) lru_state_scheme \<Rightarrow> bool" where
  "lru_inv c \<longleftrightarrow>
     gm_ok (cache c) \<and> glist.index (elem_of c) (accessList c) \<and>
     (\<forall>p x. map_of (cache c) p = Some x \<longrightarrow> listElement x \<noteq> None)"

text \<open>The entries, most recently used first.\<close>

definition lru_view :: "('m lru_entry_scheme, 'z) lru_state_scheme \<Rightarrow> (string \<times> 'm lru_entry_scheme) list" where
  "lru_view c = map (\<lambda>(e, p). (p, strip (the (map_of (cache c) p)))) (l_items (accessList c))"

lemma strip_strip [simp]: "strip (strip x) = strip x" "strip (x\<lparr>listElement := e\<rparr>) = strip x"
  by (simp_all add: strip_def)

lemma lru_inv_index: "lru_inv c \<Longrightarrow> glist.index (elem_of c) (accessList c)"
  by (simp add: lru_inv_def)

lemma lru_inv_entry:
  assumes "lru_inv c" and "map_of (cache c) p = Some x"
  obtains e where "listElement x = Some e" and "elem_of c p = Some e"
proof -
  from assms obtain e where e: "listElement x = Some e" unfolding lru_inv_def by blast
  then show thesis by (rule that) (simp add: elem_of_def assms(2) e)
qed

lemma elem_of_None: "lru_inv c \<Longrightarrow> elem_of c p = None \<longleftrightarrow> map_of (cache c) p = None"
  by (auto simp: lru_inv_def elem_of_def split: Option.bind_split)

lemma keys_lru_view: "map fst (lru_view c) = map snd (l_items (accessList c))"
  by (simp add: lru_view_def case_prod_beta comp_def)

lemma distinct_lru_view: "lru_inv c \<Longrightarrow> gm_ok (lru_view c)"
  using glist.index_distinct_paths [OF lru_inv_index] by (simp add: gm_ok_def keys_lru_view)

lemma map_of_map_snd:
  "map_of (map (\<lambda>(e, p). (p, f p)) xs) p = (if p \<in> snd ` set xs then Some (f p) else None)"
  by (induction xs) auto

lemma map_of_lru_view:
  assumes "lru_inv c"
  shows "map_of (lru_view c) p = map_option strip (map_of (cache c) p)"
proof -
  have "p \<in> snd ` set (l_items (accessList c)) \<longleftrightarrow> map_of (cache c) p \<noteq> None"
    using glist.index_iff [OF lru_inv_index [OF assms]] elem_of_None [OF assms, of p]
    by (force simp: image_iff)
  then show ?thesis by (auto simp: lru_view_def map_of_map_snd)
qed

lemma length_lru_view:
  assumes "lru_inv c"
  shows "length (cache c) = length (lru_view c)"
proof -
  have "dom (map_of (lru_view c)) = dom (map_of (cache c))"
    by (auto simp: map_of_lru_view [OF assms])
  then show ?thesis
    using length_gm_ok [of "cache c"] length_gm_ok [of "lru_view c"] distinct_lru_view [OF assms] assms
    by (simp add: lru_inv_def)
qed

lemma filter_lru_view:
  "map (\<lambda>(e, p). (p, g p)) (filter (\<lambda>x. snd x \<noteq> q) xs) = AList.delete q (map (\<lambda>(e, p). (p, g p)) xs)"
  by (induction xs) (auto simp: AList.delete_eq)

section \<open>The steps on the view\<close>

lemma updateAccessLog_view:
  assumes inv: "lru_inv c" and x: "map_of (cache c) p = Some x"
  shows "lru_inv (updateAccessLog c p)"
    and "lru_view (updateAccessLog c p) = (p, strip x) # AList.delete p (lru_view c)"
    and "cache (updateAccessLog c p) = cache c"
proof -
  obtain e where e: "listElement x = Some e" "elem_of c p = Some e" using lru_inv_entry [OF inv x] .
  note mv = glist.index_move [OF lru_inv_index [OF inv] e(2)]
  have u: "updateAccessLog c p = c\<lparr>accessList := MoveToFront (accessList c) e\<rparr>"
    by (simp add: updateAccessLog_def x e)
  have "elem_of (c\<lparr>accessList := MoveToFront (accessList c) e\<rparr>) = elem_of c" by (simp add: elem_of_def fun_eq_iff)
  with inv mv(1) show "lru_inv (updateAccessLog c p)" by (simp add: u lru_inv_def)
  show "lru_view (updateAccessLog c p) = (p, strip x) # AList.delete p (lru_view c)"
    by (simp add: u lru_view_def mv(2) filter_lru_view x)
  show "cache (updateAccessLog c p) = cache c" by (simp add: u)
qed

lemma drop_entry_view:
  assumes inv: "lru_inv c"
  shows "lru_inv (drop_entry c p)" and "lru_view (drop_entry c p) = AList.delete p (lru_view c)"
proof -
  have "lru_inv (drop_entry c p) \<and> lru_view (drop_entry c p) = AList.delete p (lru_view c)"
  proof (cases "map_of (cache c) p")
    case None
    then have "drop_entry c p = c\<lparr>cache := cache c\<rparr>"
      by (simp add: drop_entry_def removeFromAccessLog_def delete_absent)
    moreover have "AList.delete p (lru_view c) = lru_view c"
      using None map_of_lru_view [OF inv, of p] by (simp add: delete_absent)
    ultimately show ?thesis using inv by simp
  next
    case (Some x)
    obtain e where e: "listElement x = Some e" "elem_of c p = Some e" using lru_inv_entry [OF inv Some] .
    note rm = glist.index_rem [OF lru_inv_index [OF inv] e(2)]
    let ?c = "c\<lparr>accessList := list_Remove (accessList c) e, cache := AList.delete p (cache c)\<rparr>"
    have m: "map_of (cache (drop_entry c p)) = (map_of (cache c))(p := None)"
      and a: "accessList (drop_entry c p) = list_Remove (accessList c) e"
      by (simp_all add: drop_entry_def removeFromAccessLog_def Some e)
    have ok: "gm_ok (cache (drop_entry c p))"
      using inv by (simp add: drop_entry_def removeFromAccessLog_def Some e lru_inv_def)
    have "elem_of (drop_entry c p) = (elem_of c)(p := None)"
      by (simp add: elem_of_def m fun_eq_iff)
    with inv rm(1) ok have "lru_inv (drop_entry c p)" by (simp add: lru_inv_def m a)
    moreover have "lru_view (drop_entry c p) = AList.delete p (lru_view c)"
    proof -
      have "lru_view (drop_entry c p) =
          map (\<lambda>(e, q). (q, strip (the (map_of (cache c) q)))) (filter (\<lambda>x. snd x \<noteq> p) (l_items (accessList c)))"
        unfolding lru_view_def m a rm(2) by (rule map_cong) auto
      then show ?thesis by (simp add: filter_lru_view lru_view_def)
    qed
    ultimately show ?thesis by blast
  qed
  then show "lru_inv (drop_entry c p)" and "lru_view (drop_entry c p) = AList.delete p (lru_view c)" by auto
qed

lemma evict_lru_view:
  assumes inv: "lru_inv c"
  shows "lru_inv (evict_lru c)" and "lru_view (evict_lru c) = butlast (lru_view c)"
proof -
  have "lru_inv (evict_lru c) \<and> lru_view (evict_lru c) = butlast (lru_view c)"
  proof (cases "l_items (accessList c) = []")
    case True
    with inv show ?thesis by (simp add: evict_lru_def Back_def lru_view_def)
  next
    case False
    obtain e p where l: "last (l_items (accessList c)) = (e, p)" by fastforce
    define xs where "xs = butlast (l_items (accessList c))"
    have items: "l_items (accessList c) = xs @ [(e, p)]"
      using append_butlast_last_id [OF False] l by (simp add: xs_def)
    note idx = lru_inv_index [OF inv]
    have ep: "elem_of c p = Some e" using glist.index_iff [OF idx, of e p] items by simp
    note rm = glist.index_rem [OF idx ep]
    have "distinct (map snd (xs @ [(e, p)]))" using glist.index_distinct_paths [OF idx] items by simp
    then have fil: "filter (\<lambda>x. snd x \<noteq> p) (xs @ [(e, p)]) = xs" by (auto simp: filter_id_conv)
    have ev: "evict_lru c = c\<lparr>cache := AList.delete p (cache c), accessList := list_Remove (accessList c) e\<rparr>"
      using False l by (simp add: evict_lru_def Back_def)
    have "elem_of (evict_lru c) = (elem_of c)(p := None)" by (simp add: elem_of_def ev fun_eq_iff)
    with inv rm(1) have "lru_inv (evict_lru c)" by (simp add: lru_inv_def ev)
    moreover have "lru_view (evict_lru c) = butlast (lru_view c)"
    proof -
      have "q \<noteq> p" if "(e', q) \<in> set xs" for e' q
        using \<open>distinct (map snd (xs @ [(e, p)]))\<close> that by force
      then have "lru_view (evict_lru c) = map (\<lambda>(e, p). (p, strip (the (map_of (cache c) p)))) xs"
        unfolding lru_view_def using rm(2) items fil by (auto simp: ev)
      then show ?thesis by (simp add: lru_view_def items)
    qed
    ultimately show ?thesis by blast
  qed
  then show "lru_inv (evict_lru c)" and "lru_view (evict_lru c) = butlast (lru_view c)" by auto
qed

text \<open>Storing a new entry, and replacing one while keeping its list element.\<close>

lemma insert_view:
  assumes inv: "lru_inv c" and new: "map_of (cache c) p = None" and x: "listElement x = None"
  shows "lru_inv (updateAccessLog (c\<lparr>cache := AList.update p x (cache c)\<rparr>) p)"
    and "lru_view (updateAccessLog (c\<lparr>cache := AList.update p x (cache c)\<rparr>) p) = (p, strip x) # lru_view c"
proof -
  obtain e l where push: "PushFront (accessList c) p = (e, l)" by fastforce
  note idx = lru_inv_index [OF inv]
  let ?c = "updateAccessLog (c\<lparr>cache := AList.update p x (cache c)\<rparr>) p"
  have m: "map_of (cache ?c) = (map_of (cache c))(p \<mapsto> x\<lparr>listElement := Some e\<rparr>)" and a: "accessList ?c = l"
    by (simp_all add: updateAccessLog_def x push)
  have ok: "gm_ok (cache ?c)" using inv by (simp add: updateAccessLog_def x push lru_inv_def)
  have ep: "elem_of c p = None" using new by (simp add: elem_of_def)
  have "elem_of ?c = (elem_of c)(p \<mapsto> e)" by (simp add: elem_of_def m fun_eq_iff)
  with glist.index_push [OF idx ep push] inv ok show "lru_inv ?c"
    by (simp add: lru_inv_def m a)
  have items: "l_items l = (e, p) # l_items (accessList c)"
    using glist.push_law [OF glist.index_ok [OF idx] push] by simp
  have "q \<noteq> p" if "(e', q) \<in> set (l_items (accessList c))" for e' q
    using glist.index_iff [OF idx, of e' q] that ep by auto
  then show "lru_view ?c = (p, strip x) # lru_view c"
    unfolding lru_view_def m a items by auto
qed

lemma replace_view:
  assumes inv: "lru_inv c" and old: "map_of (cache c) p = Some y" and x: "listElement x = listElement y"
  shows "lru_inv (updateAccessLog (c\<lparr>cache := AList.update p x (cache c)\<rparr>) p)"
    and "lru_view (updateAccessLog (c\<lparr>cache := AList.update p x (cache c)\<rparr>) p) =
      (p, strip x) # AList.delete p (lru_view c)"
proof -
  let ?c = "c\<lparr>cache := AList.update p x (cache c)\<rparr>"
  have "elem_of ?c = elem_of c" using old x by (simp add: elem_of_def fun_eq_iff)
  then have inv': "lru_inv ?c" using inv old x by (auto simp: lru_inv_def)
  have mx: "map_of (cache ?c) p = Some x" by simp
  have "AList.delete p (lru_view ?c) = AList.delete p (lru_view c)"
    unfolding lru_view_def filter_lru_view [symmetric] by (rule map_cong) auto
  with updateAccessLog_view [OF inv' mx]
  show "lru_inv (updateAccessLog ?c p)"
    and "lru_view (updateAccessLog ?c p) = (p, strip x) # AList.delete p (lru_view c)" by simp_all
qed

section \<open>The abstract cache\<close>

text \<open>
  A bounded cache as a list of entries, most recently used first: a hit moves the entry to the
  front, a store puts it there and drops the last entry when a new key finds the cache full.
\<close>

definition lru_touch :: "string \<Rightarrow> (string \<times> 'e) list \<Rightarrow> (string \<times> 'e) list" where
  "lru_touch p xs = (case map_of xs p of None \<Rightarrow> xs | Some x \<Rightarrow> (p, x) # AList.delete p xs)"

definition lru_store :: "nat \<Rightarrow> string \<Rightarrow> 'e \<Rightarrow> (string \<times> 'e) list \<Rightarrow> (string \<times> 'e) list" where
  "lru_store cap p x xs =
     (p, x) # (if map_of xs p \<noteq> None then AList.delete p xs
               else if length xs \<ge> cap then butlast xs else xs)"

lemma length_lru_store:
  assumes "gm_ok xs" and "length xs \<le> cap" and "0 < cap"
  shows "length (lru_store cap p x xs) \<le> cap"
proof (cases "map_of xs p")
  case (Some y)
  with length_delete_present [OF assms(1)] assms show ?thesis by (simp add: lru_store_def)
qed (use assms in \<open>auto simp: lru_store_def\<close>)

lemma length_lru_store_int:
  assumes "gm_ok xs" and "int (length xs) \<le> cap" and "0 < cap"
  shows "int (length (lru_store (nat cap) p x xs)) \<le> cap"
proof -
  have "length xs \<le> nat cap" "0 < nat cap" using assms by linarith+
  from length_lru_store [OF assms(1) this, of p x] assms(3) show ?thesis by linarith
qed

lemma map_of_lru_store: "map_of (lru_store cap p x xs) p = Some x"
  by (simp add: lru_store_def)

text \<open>The store as both caches write it: evict, replace the entry, mark it as used.\<close>

definition lru_put ::
    "int \<Rightarrow> string \<Rightarrow> (nat option \<Rightarrow> 'm lru_entry_scheme) \<Rightarrow> ('m lru_entry_scheme, 'z) lru_state_scheme \<Rightarrow>
     ('m lru_entry_scheme, 'z) lru_state_scheme" where
  "lru_put cap path mk c =
     (let existing = map_of (cache c) path;
          c = (if int (length (cache c)) \<ge> cap \<and> existing = None then evict_lru c else c);
          listElem = (case existing of Some x \<Rightarrow> listElement x | None \<Rightarrow> None)
      in updateAccessLog (c\<lparr>cache := AList.update path (mk listElem) (cache c)\<rparr>) path)"

lemma lru_put_view:
  assumes inv: "lru_inv c" and mk: "\<And>e. listElement (mk e) = e" "\<And>e. strip (mk e) = mk None"
    and cap: "0 \<le> cap"
  shows "lru_inv (lru_put cap p mk c)"
    and "lru_view (lru_put cap p mk c) = lru_store (nat cap) p (mk None) (lru_view c)"
proof -
  have mv: "map_of (lru_view c) p = None \<longleftrightarrow> map_of (cache c) p = None"
    by (simp add: map_of_lru_view [OF inv])
  have len: "length (cache c) = length (lru_view c)" by (rule length_lru_view [OF inv])
  have "lru_inv (lru_put cap p mk c) \<and>
      lru_view (lru_put cap p mk c) = lru_store (nat cap) p (mk None) (lru_view c)"
  proof (cases "map_of (cache c) p")
    case None
    show ?thesis
    proof (cases "int (length (cache c)) \<ge> cap")
      case True
      note ev = evict_lru_view [OF inv]
      have "map_of (lru_view (evict_lru c)) p = None"
        using None mv unfolding ev(2) map_of_eq_None_iff by (auto dest: in_set_butlastD)
      then have new: "map_of (cache (evict_lru c)) p = None"
        using map_of_lru_view [OF ev(1), of p] by simp
      from insert_view [OF ev(1) new, of "mk None"] mk None True len cap mv show ?thesis
        by (auto simp: lru_put_def Let_def lru_store_def ev(2))
    next
      case False
      with insert_view [OF inv None, of "mk None"] mk None len cap mv show ?thesis
        by (auto simp: lru_put_def Let_def lru_store_def)
    qed
  next
    case (Some y)
    with replace_view [OF inv Some, of "mk (listElement y)"] mk mv show ?thesis
      by (simp add: lru_put_def Let_def lru_store_def)
  qed
  then show "lru_inv (lru_put cap p mk c)"
    and "lru_view (lru_put cap p mk c) = lru_store (nat cap) p (mk None) (lru_view c)" by auto
qed

text \<open>The eviction loop of \<open>Resize\<close>.\<close>

function shrink ::
    "int \<Rightarrow> ('m lru_entry_scheme, 'z) lru_state_scheme \<Rightarrow> ('m lru_entry_scheme, 'z) lru_state_scheme" where
  "shrink cap c =
     (if int (length (cache c)) > cap \<and> length (l_items (accessList c)) > 0
      then shrink cap (evict_lru c) else c)"
  by pat_completeness auto
termination
proof (relation "measure (\<lambda>(_, c). length (l_items (accessList c)))")
  fix cap :: int and c :: "('m lru_entry_scheme, 'z) lru_state_scheme"
  assume "cap < int (length (cache c)) \<and> 0 < length (l_items (accessList c))"
  then have ne: "l_items (accessList c) \<noteq> []" by auto
  obtain e p where l: "last (l_items (accessList c)) = (e, p)" by fastforce
  have "(e, p) \<in> set (l_items (accessList c))" using last_in_set [OF ne] l by simp
  then have "length (filter (\<lambda>x. fst x \<noteq> e) (l_items (accessList c))) < length (l_items (accessList c))"
    by (rule length_filter_less) simp
  then show "((cap, evict_lru c), cap, c) \<in> measure (\<lambda>(_, c). length (l_items (accessList c)))"
    using ne l by (simp add: evict_lru_def Back_def list_Remove_def)
qed simp

declare shrink.simps [simp del]

lemma shrink_view:
  "lru_inv c \<Longrightarrow> 0 \<le> cap \<Longrightarrow> lru_inv (shrink cap c) \<and> lru_view (shrink cap c) = take (nat cap) (lru_view c)"
proof (induction cap c rule: shrink.induct)
  case (1 cap c)
  have len: "length (cache c) = length (lru_view c)" by (rule length_lru_view [OF "1.prems"(1)])
  show ?case
  proof (cases "int (length (cache c)) > cap")
    case True
    then have "l_items (accessList c) \<noteq> []" using len "1.prems"(2) by (auto simp: lru_view_def)
    with True have go: "int (length (cache c)) > cap \<and> length (l_items (accessList c)) > 0" by simp
    note ev = evict_lru_view [OF "1.prems"(1)]
    have "take (nat cap) (butlast (lru_view c)) = take (nat cap) (lru_view c)"
      using True len "1.prems"(2) by (simp add: take_butlast)
    with "1.IH" [OF go ev(1) "1.prems"(2)] go ev(2) show ?thesis by (subst (1 2) shrink.simps) simp
  next
    case False
    with "1.prems" len show ?thesis by (subst (1 2) shrink.simps) auto
  qed
qed

end
