(* ===== verification/Attributes.thy ===== *)
theory Attributes
  imports XDR
begin

text \<open>
  File attributes: the \<open>NFSAttrs\<close> record of \<open>types.go\<close> with its validity window, the file
  mode bits of Go's \<open>os.FileMode\<close>, and the \<open>fattr3\<close> and \<open>wcc_attr\<close> encoders of
  \<open>attributes.go\<close>.  \<open>decode_fattr3\<close> is the RFC 1813 structure as a client reads it; the
  encoder is proved to write exactly that structure.
\<close>

section \<open>File modes\<close>

abbreviation (input) os_ModeDir :: u32 where "os_ModeDir \<equiv> 0x80000000"
abbreviation (input) os_ModeSymlink :: u32 where "os_ModeSymlink \<equiv> 0x08000000"
abbreviation (input) os_ModeDevice :: u32 where "os_ModeDevice \<equiv> 0x04000000"
abbreviation (input) os_ModeNamedPipe :: u32 where "os_ModeNamedPipe \<equiv> 0x02000000"
abbreviation (input) os_ModeSocket :: u32 where "os_ModeSocket \<equiv> 0x01000000"
abbreviation (input) os_ModeCharDevice :: u32 where "os_ModeCharDevice \<equiv> 0x00200000"
abbreviation (input) os_ModeIrregular :: u32 where "os_ModeIrregular \<equiv> 0x00080000"
abbreviation (input) os_ModePerm :: u32 where "os_ModePerm \<equiv> 0x1FF"

definition os_ModeType :: u32 where
  "os_ModeType = (os_ModeDir OR os_ModeSymlink OR os_ModeNamedPipe OR os_ModeSocket OR
     os_ModeDevice OR os_ModeCharDevice OR os_ModeIrregular)"

definition mode_is_dir :: "u32 \<Rightarrow> bool" where
  "mode_is_dir m \<longleftrightarrow> m AND os_ModeDir \<noteq> 0"

section \<open>NFSAttrs\<close>

record NFSAttrs =
  Mode :: u32
  Size :: int
  FileId :: u64
  mtime :: time
  atime :: time
  Uid :: u32
  Gid :: u32
  validUntil :: time

definition NewNFSAttrs :: "u32 \<Rightarrow> int \<Rightarrow> time \<Rightarrow> time \<Rightarrow> u32 \<Rightarrow> u32 \<Rightarrow> NFSAttrs" where
  "NewNFSAttrs mode sz mt atm uid gid =
     \<lparr>Mode = mode, Size = sz, FileId = 0, mtime = mt, atime = atm, Uid = uid, Gid = gid,
      validUntil = 0\<rparr>"

definition IsValid :: "NFSAttrs \<Rightarrow> time \<Rightarrow> bool" where
  "IsValid a now \<longleftrightarrow> now < validUntil a"

definition Refresh :: "time \<Rightarrow> NFSAttrs \<Rightarrow> NFSAttrs" where
  "Refresh now a = a\<lparr>validUntil := now + 2 * second\<rparr>"

definition Invalidate :: "NFSAttrs \<Rightarrow> NFSAttrs" where
  "Invalidate a = a\<lparr>validUntil := 0\<rparr>"

text \<open>The copies that the caches take: every field but the validity window, which is left at zero.\<close>

definition copy_attrs :: "NFSAttrs \<Rightarrow> NFSAttrs" where
  "copy_attrs a =
     \<lparr>Mode = Mode a, Size = Size a, FileId = FileId a, mtime = mtime a, atime = atime a,
      Uid = Uid a, Gid = Gid a, validUntil = 0\<rparr>"

text \<open>An \<open>os.FileInfo\<close>; its \<open>IsDir()\<close> is documented as an abbreviation for \<open>Mode().IsDir()\<close>.\<close>

record FileInfo =
  fi_Name :: string
  fi_Size :: int
  fi_Mode :: u32
  fi_ModTime :: time

section \<open>Encoding\<close>

definition ftype3 :: "u32 \<Rightarrow> u32" where
  "ftype3 mode =
     (let t = mode AND os_ModeType
      in if t = os_ModeDir then 2
         else if t = os_ModeSymlink then 5
         else if t = os_ModeDevice then 3
         else if t = os_ModeDevice OR os_ModeCharDevice then 4
         else if t = os_ModeSocket then 6
         else if t = os_ModeNamedPipe then 7
         else 1)"

definition encode_nfstime3 :: "time \<Rightarrow> bytes" where
  "encode_nfstime3 t =
     xdrEncodeUint32 (word_of_int (time_Unix_sec t)) @
     xdrEncodeUint32 (word_of_int (time_Nanosecond t))"

definition encodeFileAttributes :: "NFSAttrs \<Rightarrow> bytes" where
  "encodeFileAttributes attrs =
     (let ftype = ftype3 (Mode attrs);
          nlink = (if ftype = 2 then 2 else 1)
      in xdrEncodeUint32 ftype @
         xdrEncodeUint32 (Mode attrs AND os_ModePerm) @
         xdrEncodeUint32 nlink @
         xdrEncodeUint32 (Uid attrs) @
         xdrEncodeUint32 (Gid attrs) @
         xdrEncodeUint64 (word_of_int (Size attrs)) @
         xdrEncodeUint64 (word_of_int (Size attrs)) @
         xdrEncodeUint32 0 @
         xdrEncodeUint32 0 @
         xdrEncodeUint64 0 @
         xdrEncodeUint64 (FileId attrs) @
         encode_nfstime3 (atime attrs) @
         encode_nfstime3 (mtime attrs) @
         encode_nfstime3 (mtime attrs))"

definition encodeWccAttr :: "NFSAttrs \<Rightarrow> bytes" where
  "encodeWccAttr attrs =
     xdrEncodeUint64 (word_of_int (Size attrs)) @
     encode_nfstime3 (mtime attrs) @
     encode_nfstime3 (mtime attrs)"

definition encodeAttributesResponse :: "NFSAttrs \<Rightarrow> bytes" where
  "encodeAttributesResponse attrs = xdrEncodeUint32 NFS_OK @ encodeFileAttributes attrs"

definition encodeErrorResponse :: "u32 \<Rightarrow> bytes" where
  "encodeErrorResponse errorCode = xdrEncodeUint32 errorCode"

lemma length_encode_nfstime3 [simp, wire_simps]: "length (encode_nfstime3 t) = 8"
  by (simp add: encode_nfstime3_def)

lemma length_encodeFileAttributes [simp, wire_simps]: "length (encodeFileAttributes a) = 84"
  by (simp add: encodeFileAttributes_def Let_def)

lemma length_encodeWccAttr [simp, wire_simps]: "length (encodeWccAttr a) = 24"
  by (simp add: encodeWccAttr_def)

section \<open>The RFC 1813 structures, as a client decodes them\<close>

record nfstime3 =
  nt_seconds :: u32
  nt_nseconds :: u32

record fattr3 =
  fa_type :: u32
  fa_mode :: u32
  fa_nlink :: u32
  fa_uid :: u32
  fa_gid :: u32
  fa_size :: u64
  fa_used :: u64
  fa_rdev :: "u32 \<times> u32"
  fa_fsid :: u64
  fa_fileid :: u64
  fa_atime :: nfstime3
  fa_mtime :: nfstime3
  fa_ctime :: nfstime3

definition decode_nfstime3 :: "nfstime3 reader" where
  "decode_nfstime3 = rbind xdrDecodeUint32 (\<lambda>s. rbind xdrDecodeUint32 (\<lambda>n.
     rreturn \<lparr>nt_seconds = s, nt_nseconds = n\<rparr>))"

definition decode_fattr3 :: "fattr3 reader" where
  "decode_fattr3 =
     rbind xdrDecodeUint32 (\<lambda>ty. rbind xdrDecodeUint32 (\<lambda>mo. rbind xdrDecodeUint32 (\<lambda>nl.
     rbind xdrDecodeUint32 (\<lambda>ui. rbind xdrDecodeUint32 (\<lambda>gi.
     rbind rd_u64 (\<lambda>sz. rbind rd_u64 (\<lambda>us.
     rbind xdrDecodeUint32 (\<lambda>r1. rbind xdrDecodeUint32 (\<lambda>r2.
     rbind rd_u64 (\<lambda>fsid. rbind rd_u64 (\<lambda>fileid.
     rbind decode_nfstime3 (\<lambda>tat. rbind decode_nfstime3 (\<lambda>mt. rbind decode_nfstime3 (\<lambda>ct.
     rreturn \<lparr>fa_type = ty, fa_mode = mo, fa_nlink = nl, fa_uid = ui, fa_gid = gi, fa_size = sz,
       fa_used = us, fa_rdev = (r1, r2), fa_fsid = fsid, fa_fileid = fileid,
       fa_atime = tat, fa_mtime = mt, fa_ctime = ct\<rparr>))))))))))))))"

definition nfstime3_of :: "time \<Rightarrow> nfstime3" where
  "nfstime3_of t = \<lparr>nt_seconds = word_of_int (time_Unix_sec t),
     nt_nseconds = word_of_int (time_Nanosecond t)\<rparr>"

definition fattr3_of :: "NFSAttrs \<Rightarrow> fattr3" where
  "fattr3_of a = \<lparr>fa_type = ftype3 (Mode a), fa_mode = Mode a AND os_ModePerm,
     fa_nlink = (if ftype3 (Mode a) = 2 then 2 else 1), fa_uid = Uid a, fa_gid = Gid a,
     fa_size = word_of_int (Size a), fa_used = word_of_int (Size a), fa_rdev = (0, 0),
     fa_fsid = 0, fa_fileid = FileId a, fa_atime = nfstime3_of (atime a),
     fa_mtime = nfstime3_of (mtime a), fa_ctime = nfstime3_of (mtime a)\<rparr>"

lemma decode_nfstime3_app [read_simps]:
  "decode_nfstime3 (encode_nfstime3 t @ rest) = (Inr (nfstime3_of t), rest)"
  by (simp add: decode_nfstime3_def encode_nfstime3_def rbind_def read_simps nfstime3_of_def)

lemma decode_fattr3_app [read_simps]:
  "decode_fattr3 (encodeFileAttributes a @ rest) = (Inr (fattr3_of a), rest)"
  by (simp add: decode_fattr3_def encodeFileAttributes_def rbind_def read_simps fattr3_of_def
      Let_def)

text \<open>The file type only depends on the type bits, and only a directory has type 2.\<close>

lemma ftype3_range: "ftype3 m \<in> {1, 2, 3, 4, 5, 6, 7}"
  by (simp add: ftype3_def Let_def)

lemma ftype3_dir_iff: "ftype3 m = 2 \<longleftrightarrow> m AND os_ModeType = os_ModeDir"
  by (simp add: ftype3_def Let_def)

section \<open>Properties\<close>

text \<open>
  \<open>encodeFileAttributes\<close> writes exactly the 84 bytes of an RFC 1813 \<open>fattr3\<close>: a client that
  decodes them reads the file type of the mode's type bits, the permission bits alone, two links for
  a directory and one otherwise, the owner, size and file id of the attributes, and the times with
  the modification time twice.
\<close>

theorem fattr3_encoding:
  "decode_fattr3 (encodeFileAttributes a @ rest) = (Inr (fattr3_of a), rest) \<and>
   length (encodeFileAttributes a) = 84"
  by (simp add: decode_fattr3_app)

end
