(* ===== verification/Cache.thy ===== *)
theory Cache
  imports LRU Attributes
begin

text \<open>
  The attribute cache and the directory cache (\<open>cache.go\<close>).  Each call is one atomic step; a call
  that reads the clock takes the times it read as arguments, in order.  Metrics and debug logging
  of \<open>Get\<close> are left to its callers.  The refinement theorems relate every operation to the
  bounded list of entries in order of last use (theory \<open>LRU\<close>).
\<close>

section \<open>Attribute cache\<close>

record CachedAttrs = lru_entry +
  ca_attrs :: "NFSAttrs option"
  ca_expireAt :: time
  ca_isNegative :: bool

record AttrCache = "CachedAttrs lru_state" +
  ttl :: duration
  negativeTTL :: duration
  maxSize :: int
  enableNegative :: bool

definition NewAttrCache :: "duration \<Rightarrow> int \<Rightarrow> AttrCache" where
  "NewAttrCache t n =
     (let n = (if n \<le> 0 then 10000 else n)
      in \<lparr>cache = [], accessList = list_New, ttl = t, negativeTTL = 5 * second, maxSize = n,
          enableNegative = False\<rparr>)"

definition ConfigureNegativeCaching :: "bool \<Rightarrow> duration \<Rightarrow> AttrCache \<Rightarrow> AttrCache" where
  "ConfigureNegativeCaching enable t c =
     (let c = c\<lparr>enableNegative := enable\<rparr>
      in if t > 0 then c\<lparr>negativeTTL := t\<rparr> else c)"

text \<open>\<open>now1\<close> is the reading before the lookup, \<open>now2\<close> the one before removing an expired entry.\<close>

definition AttrCache_Get ::
    "string \<Rightarrow> time \<Rightarrow> time \<Rightarrow> AttrCache \<Rightarrow> (NFSAttrs option \<times> bool) \<times> AttrCache" where
  "AttrCache_Get path now1 now2 c =
     (case map_of (cache c) path of
        Some cached \<Rightarrow>
          if now1 < ca_expireAt cached then
            if ca_isNegative cached then ((None, True), updateAccessLog c path)
            else ((map_option copy_attrs (ca_attrs cached), True), updateAccessLog c path)
          else
            ((None, False), if now2 > ca_expireAt cached then drop_entry c path else c)
      | None \<Rightarrow> ((None, False), c))"

definition AttrCache_Put :: "string \<Rightarrow> NFSAttrs \<Rightarrow> time \<Rightarrow> AttrCache \<Rightarrow> AttrCache" where
  "AttrCache_Put path attrs now c =
     lru_put (maxSize c) path
       (\<lambda>listElem. \<lparr>listElement = listElem, ca_attrs = Some (copy_attrs attrs),
          ca_expireAt = now + ttl c, ca_isNegative = False\<rparr>) c"

definition PutNegative :: "string \<Rightarrow> time \<Rightarrow> AttrCache \<Rightarrow> AttrCache" where
  "PutNegative path now c =
     (if \<not> enableNegative c then c
      else lru_put (maxSize c) path
             (\<lambda>listElem. \<lparr>listElement = listElem, ca_attrs = None,
                ca_expireAt = now + negativeTTL c, ca_isNegative = True\<rparr>) c)"

definition AttrCache_Invalidate :: "string \<Rightarrow> AttrCache \<Rightarrow> AttrCache" where
  "AttrCache_Invalidate path c = drop_entry c path"

definition AttrCache_Clear :: "AttrCache \<Rightarrow> AttrCache" where
  "AttrCache_Clear c = c\<lparr>cache := [], accessList := list_New\<rparr>"

definition AttrCache_Size :: "AttrCache \<Rightarrow> nat" where
  "AttrCache_Size c = length (cache c)"

definition AttrCache_MaxSize :: "AttrCache \<Rightarrow> int" where
  "AttrCache_MaxSize c = maxSize c"

definition AttrCache_Stats :: "AttrCache \<Rightarrow> nat \<times> int" where
  "AttrCache_Stats c = (length (cache c), maxSize c)"

definition NegativeStats :: "AttrCache \<Rightarrow> nat" where
  "NegativeStats c = fold (\<lambda>(_, cached) count. if ca_isNegative cached then count + 1 else count) (cache c) 0"

definition isChildOf :: "string \<Rightarrow> string \<Rightarrow> bool" where
  "isChildOf path dirPath =
     (let direct = (\<lambda>remainder. CHR ''/'' \<notin> set remainder \<and> length remainder > 0)
      in if dirPath = ''/'' then
           if path = ''/'' \<or> length path < 2 then False else direct (drop 1 path)
         else
           if length path \<le> length dirPath + 1 then False
           else if take (length dirPath) path \<noteq> dirPath then False
           else if path ! length dirPath \<noteq> CHR ''/'' then False
           else direct (drop (length dirPath + 1) path))"

definition InvalidateNegativeInDir :: "string \<Rightarrow> AttrCache \<Rightarrow> AttrCache" where
  "InvalidateNegativeInDir dirPath c =
     (let toDelete = map fst (filter (\<lambda>(path, cached). ca_isNegative cached \<and> isChildOf path dirPath) (cache c))
      in fold (\<lambda>path c. drop_entry c path) toDelete c)"

definition AttrCache_Resize :: "int \<Rightarrow> AttrCache \<Rightarrow> AttrCache" where
  "AttrCache_Resize newSize c =
     (let newSize = (if newSize \<le> 0 then 10000 else newSize)
      in if maxSize c = newSize then c
         else let c = c\<lparr>maxSize := newSize\<rparr> in shrink (maxSize c) c)"

definition AttrCache_UpdateTTL :: "duration \<Rightarrow> AttrCache \<Rightarrow> AttrCache" where
  "AttrCache_UpdateTTL newTTL c = c\<lparr>ttl := (if newTTL \<le> 0 then 5 * second else newTTL)\<rparr>"

section \<open>Directory cache\<close>

record CachedDirEntry = lru_entry +
  cd_entries :: "FileInfo list"
  cd_validUntil :: time

record DirCache = "CachedDirEntry lru_state" +
  timeout :: duration
  maxEntries :: int
  maxDirSize :: int
  hits :: u64
  misses :: u64

definition NewDirCache :: "duration \<Rightarrow> int \<Rightarrow> int \<Rightarrow> DirCache" where
  "NewDirCache t me ms =
     \<lparr>cache = [], accessList = list_New,
      timeout = (if t \<le> 0 then 10 * second else t),
      maxEntries = (if me \<le> 0 then 1000 else me),
      maxDirSize = (if ms \<le> 0 then 10000 else ms), hits = 0, misses = 0\<rparr>"

definition DirCache_Get ::
    "string \<Rightarrow> time \<Rightarrow> time \<Rightarrow> DirCache \<Rightarrow> FileInfo list option \<times> DirCache" where
  "DirCache_Get path now1 now2 c =
     (case map_of (cache c) path of
        None \<Rightarrow> (None, c\<lparr>misses := misses c + 1\<rparr>)
      | Some cached \<Rightarrow>
          if now1 > cd_validUntil cached then
            let c = c\<lparr>misses := misses c + 1\<rparr>
            in (None, if now2 > cd_validUntil cached then drop_entry c path else c)
          else
            let c = updateAccessLog c path
            in (Some (cd_entries cached), c\<lparr>hits := hits c + 1\<rparr>))"

definition DirCache_Put :: "string \<Rightarrow> FileInfo list \<Rightarrow> time \<Rightarrow> DirCache \<Rightarrow> DirCache" where
  "DirCache_Put path entries now c =
     (if int (length entries) > maxDirSize c then c
      else lru_put (maxEntries c) path
             (\<lambda>listElem. \<lparr>listElement = listElem, cd_entries = entries, cd_validUntil = now + timeout c\<rparr>) c)"

definition DirCache_Invalidate :: "string \<Rightarrow> DirCache \<Rightarrow> DirCache" where
  "DirCache_Invalidate path c = drop_entry c path"

definition DirCache_Clear :: "DirCache \<Rightarrow> DirCache" where
  "DirCache_Clear c = c\<lparr>cache := [], accessList := list_New\<rparr>"

definition DirCache_Size :: "DirCache \<Rightarrow> nat" where
  "DirCache_Size c = length (cache c)"

definition DirCache_Stats :: "DirCache \<Rightarrow> nat \<times> int \<times> int" where
  "DirCache_Stats c = (length (cache c), sint (hits c), sint (misses c))"

definition DirCache_Resize :: "int \<Rightarrow> DirCache \<Rightarrow> DirCache" where
  "DirCache_Resize newMax c =
     (let newMax = (if newMax \<le> 0 then 1000 else newMax)
      in if maxEntries c = newMax then c
         else let c = c\<lparr>maxEntries := newMax\<rparr> in shrink (maxEntries c) c)"

definition DirCache_UpdateTTL :: "duration \<Rightarrow> DirCache \<Rightarrow> DirCache" where
  "DirCache_UpdateTTL newTimeout c = c\<lparr>timeout := (if newTimeout \<le> 0 then 10 * second else newTimeout)\<rparr>"

section \<open>Invariants\<close>

definition attr_cache_inv :: "AttrCache \<Rightarrow> bool" where
  "attr_cache_inv c \<longleftrightarrow> lru_inv c \<and> 0 < maxSize c \<and> int (length (cache c)) \<le> maxSize c \<and>
     (\<forall>p x. map_of (cache c) p = Some x \<longrightarrow> (ca_isNegative x \<longleftrightarrow> ca_attrs x = None))"

definition dir_cache_inv :: "DirCache \<Rightarrow> bool" where
  "dir_cache_inv c \<longleftrightarrow> lru_inv c \<and> 0 < maxEntries c \<and> int (length (cache c)) \<le> maxEntries c \<and>
     (\<forall>p x. map_of (cache c) p = Some x \<longrightarrow> int (length (cd_entries x)) \<le> maxDirSize c)"


lemma lru_fields [simp]:
  fixes c :: AttrCache and d :: DirCache
  shows "maxSize (updateAccessLog c p) = maxSize c" "maxSize (drop_entry c p) = maxSize c"
    "maxSize (evict_lru c) = maxSize c"
    "maxEntries (updateAccessLog d p) = maxEntries d" "maxEntries (drop_entry d p) = maxEntries d"
    "maxEntries (evict_lru d) = maxEntries d"
    "maxDirSize (updateAccessLog d p) = maxDirSize d" "maxDirSize (drop_entry d p) = maxDirSize d"
    "maxDirSize (evict_lru d) = maxDirSize d"
    "enableNegative (updateAccessLog c p) = enableNegative c" "enableNegative (drop_entry c p) = enableNegative c"
    "enableNegative (evict_lru c) = enableNegative c"
  by (auto simp: updateAccessLog_def drop_entry_def removeFromAccessLog_def evict_lru_def Let_def
      split: option.split prod.split)

lemma lru_put_fields [simp]:
  fixes c :: AttrCache and d :: DirCache
  shows "maxSize (lru_put n p mk c) = maxSize c" "maxEntries (lru_put n p mk' d) = maxEntries d"
    "maxDirSize (lru_put n p mk' d) = maxDirSize d" "enableNegative (lru_put n p mk c) = enableNegative c"
  by (simp_all add: lru_put_def Let_def)

lemma shrink_fields [simp]:
  fixes c :: AttrCache and d :: DirCache
  shows "maxSize (shrink n c) = maxSize c" "maxEntries (shrink n d) = maxEntries d"
    "maxDirSize (shrink n d) = maxDirSize d" "enableNegative (shrink n c) = enableNegative c"
proof -
  show "maxSize (shrink n c) = maxSize c"
    by (induction n c rule: shrink.induct) (subst shrink.simps, simp)
  show "enableNegative (shrink n c) = enableNegative c"
    by (induction n c rule: shrink.induct) (subst shrink.simps, simp)
  show "maxEntries (shrink n d) = maxEntries d"
    by (induction n d rule: shrink.induct) (subst shrink.simps, simp)
  show "maxDirSize (shrink n d) = maxDirSize d"
    by (induction n d rule: shrink.induct) (subst shrink.simps, simp)
qed

text \<open>The invariants read off the abstract view.\<close>

lemma view_mem:
  "lru_inv c \<Longrightarrow> y \<in> set (lru_view c) \<longleftrightarrow> map_of (lru_view c) (fst y) = Some (snd y)"
  using distinct_lru_view [of c] by (cases y) (simp add: gm_ok_def)

lemma entries_view:
  assumes "lru_inv c"
  shows "(\<forall>p x. map_of (cache c) p = Some x \<longrightarrow> P (strip x)) \<longleftrightarrow> (\<forall>y \<in> set (lru_view c). P (snd y))"
proof -
  note mem = view_mem [OF assms]
  show ?thesis
  proof
    assume all: "\<forall>p x. map_of (cache c) p = Some x \<longrightarrow> P (strip x)"
    show "\<forall>y \<in> set (lru_view c). P (snd y)"
      using all by (auto simp: mem map_of_lru_view [OF assms])
  next
    assume all: "\<forall>y \<in> set (lru_view c). P (snd y)"
    show "\<forall>p x. map_of (cache c) p = Some x \<longrightarrow> P (strip x)"
    proof (intro allI impI)
      fix p x assume "map_of (cache c) p = Some x"
      then have "(p, strip x) \<in> set (lru_view c)" by (simp add: mem map_of_lru_view [OF assms])
      with all show "P (strip x)" by force
    qed
  qed
qed

lemma attr_cache_inv_view:
  "attr_cache_inv c \<longleftrightarrow> lru_inv c \<and> 0 < maxSize c \<and> int (length (lru_view c)) \<le> maxSize c \<and>
     (\<forall>y \<in> set (lru_view c). ca_isNegative (snd y) \<longleftrightarrow> ca_attrs (snd y) = None)"
proof (cases "lru_inv c")
  case True
  from entries_view [OF True, of "\<lambda>x. ca_isNegative x \<longleftrightarrow> ca_attrs x = None"] length_lru_view [OF True]
  show ?thesis by (simp add: attr_cache_inv_def strip_def)
qed (simp add: attr_cache_inv_def)

lemma dir_cache_inv_view:
  "dir_cache_inv c \<longleftrightarrow> lru_inv c \<and> 0 < maxEntries c \<and> int (length (lru_view c)) \<le> maxEntries c \<and>
     (\<forall>y \<in> set (lru_view c). int (length (cd_entries (snd y))) \<le> maxDirSize c)"
proof (cases "lru_inv c")
  case True
  from entries_view [OF True, of "\<lambda>x. int (length (cd_entries x)) \<le> maxDirSize c"] length_lru_view [OF True]
  show ?thesis by (simp add: dir_cache_inv_def strip_def)
qed (simp add: dir_cache_inv_def)

lemma lru_inv_empty: "lru_inv (c\<lparr>cache := [], accessList := list_New\<rparr>)" "lru_view (c\<lparr>cache := [], accessList := list_New\<rparr>) = []"
  by (simp_all add: lru_inv_def lru_view_def elem_of_def glist.index_def list_New_def list_ok_def)

lemma NewAttrCache_inv: "attr_cache_inv (NewAttrCache t n)"
  using lru_inv_empty(1) [of "NewAttrCache t n"] by (simp add: NewAttrCache_def Let_def attr_cache_inv_def)

lemma NewDirCache_inv: "dir_cache_inv (NewDirCache t n m)"
  using lru_inv_empty(1) [of "NewDirCache t n m"] by (simp add: NewDirCache_def dir_cache_inv_def)

section \<open>Refinement\<close>

lemma set_delete_subset: "set (AList.delete p xs) \<subseteq> set xs"
  by (auto simp: AList.delete_eq)

lemma set_lru_store_subset: "set (lru_store n p x xs) \<subseteq> insert (p, x) (set xs)"
  using set_delete_subset [of p xs] by (auto simp: lru_store_def dest: in_set_butlastD split: if_splits)

lemma set_lru_touch_subset: "set (lru_touch p xs) \<subseteq> set xs"
  using set_delete_subset [of p xs] by (auto simp: lru_touch_def dest: map_of_SomeD split: option.splits)

lemma lru_touch_view:
  "lru_inv c \<Longrightarrow> map_of (cache c) p = Some x \<Longrightarrow> lru_view (updateAccessLog c p) = lru_touch p (lru_view c)"
  by (simp add: lru_touch_def updateAccessLog_view map_of_lru_view)

lemma length_lru_touch: "gm_ok xs \<Longrightarrow> length (lru_touch p xs) = length xs"
  by (auto simp: lru_touch_def length_delete_present split: option.split)

definition attr_entry :: "NFSAttrs option \<Rightarrow> time \<Rightarrow> CachedAttrs" where
  "attr_entry a t = \<lparr>listElement = None, ca_attrs = a, ca_expireAt = t, ca_isNegative = (a = None)\<rparr>"

lemma attr_put_view:
  assumes "attr_cache_inv c" and mk: "\<And>e. listElement (mk e) = e" "\<And>e. strip (mk e) = mk None"
    and ok: "ca_isNegative (mk None) \<longleftrightarrow> ca_attrs (mk None) = None"
  shows "attr_cache_inv (lru_put (maxSize c) p mk c)"
    and "lru_view (lru_put (maxSize c) p mk c) = lru_store (nat (maxSize c)) p (mk None) (lru_view c)"
proof -
  note c = assms(1) [unfolded attr_cache_inv_view]
  have inv: "lru_inv c" and cap: "0 \<le> maxSize c" using c by simp_all
  note v = lru_put_view [OF inv mk cap, of p]
  show view: "lru_view (lru_put (maxSize c) p mk c) = lru_store (nat (maxSize c)) p (mk None) (lru_view c)"
    by (rule v(2))
  have "int (length (lru_store (nat (maxSize c)) p (mk None) (lru_view c))) \<le> maxSize c"
    by (rule length_lru_store_int [OF distinct_lru_view [OF inv]]) (use c in simp_all)
  moreover have "ca_isNegative (snd y) \<longleftrightarrow> ca_attrs (snd y) = None"
    if "y \<in> set (lru_store (nat (maxSize c)) p (mk None) (lru_view c))" for y
    using subsetD [OF set_lru_store_subset that] c ok by auto
  ultimately show "attr_cache_inv (lru_put (maxSize c) p mk c)"
    unfolding attr_cache_inv_view view using v(1) c by simp
qed

lemma AttrCache_Put_view:
  assumes "attr_cache_inv c"
  shows "attr_cache_inv (AttrCache_Put p a now c)"
    and "lru_view (AttrCache_Put p a now c) =
      lru_store (nat (maxSize c)) p (attr_entry (Some (copy_attrs a)) (now + ttl c)) (lru_view c)"
  using attr_put_view [OF assms, of "\<lambda>e. \<lparr>listElement = e, ca_attrs = Some (copy_attrs a),
    ca_expireAt = now + ttl c, ca_isNegative = False\<rparr>" p]
  by (simp_all add: AttrCache_Put_def attr_entry_def strip_def)

lemma PutNegative_view:
  assumes "attr_cache_inv c"
  shows "attr_cache_inv (PutNegative p now c)"
    and "lru_view (PutNegative p now c) =
      (if enableNegative c
       then lru_store (nat (maxSize c)) p (attr_entry None (now + negativeTTL c)) (lru_view c)
       else lru_view c)"
  using assms attr_put_view [OF assms, of "\<lambda>e. \<lparr>listElement = e, ca_attrs = None,
    ca_expireAt = now + negativeTTL c, ca_isNegative = True\<rparr>" p]
  by (simp_all add: PutNegative_def attr_entry_def strip_def)

lemma AttrCache_Invalidate_view:
  assumes "attr_cache_inv c"
  shows "attr_cache_inv (AttrCache_Invalidate p c)"
    and "lru_view (AttrCache_Invalidate p c) = AList.delete p (lru_view c)"
proof -
  note c = assms [unfolded attr_cache_inv_view]
  note v = drop_entry_view [of c p]
  show view: "lru_view (AttrCache_Invalidate p c) = AList.delete p (lru_view c)"
    using v(2) c by (simp add: AttrCache_Invalidate_def)
  have "int (length (AList.delete p (lru_view c))) \<le> maxSize c"
    using length_delete_le [of p "lru_view c"] c by linarith
  with v(1) c set_delete_subset [of p "lru_view c"] show "attr_cache_inv (AttrCache_Invalidate p c)"
    unfolding attr_cache_inv_view view by (auto simp: AttrCache_Invalidate_def)
qed

lemma touch_attr_view:
  assumes "attr_cache_inv c" and "map_of (cache c) p = Some x"
  shows "attr_cache_inv (updateAccessLog c p)"
    and "lru_view (updateAccessLog c p) = lru_touch p (lru_view c)"
proof -
  note c = assms(1) [unfolded attr_cache_inv_view]
  show view: "lru_view (updateAccessLog c p) = lru_touch p (lru_view c)"
    using c assms(2) by (simp add: lru_touch_view)
  show "attr_cache_inv (updateAccessLog c p)"
    unfolding attr_cache_inv_view view
    using c updateAccessLog_view(1) [of c p x] assms(2) set_lru_touch_subset [of p "lru_view c"]
      length_lru_touch [OF distinct_lru_view, of c p] by auto
qed

text \<open>\<open>Get\<close> as a function of the view.\<close>

definition attr_lookup :: "string \<Rightarrow> time \<Rightarrow> (string \<times> CachedAttrs) list \<Rightarrow> NFSAttrs option \<times> bool" where
  "attr_lookup p now xs =
     (case map_of xs p of
        Some x \<Rightarrow> if now < ca_expireAt x then (map_option copy_attrs (ca_attrs x), True) else (None, False)
      | None \<Rightarrow> (None, False))"

definition attr_after_lookup ::
    "string \<Rightarrow> time \<Rightarrow> time \<Rightarrow> (string \<times> CachedAttrs) list \<Rightarrow> (string \<times> CachedAttrs) list" where
  "attr_after_lookup p now1 now2 xs =
     (case map_of xs p of
        Some x \<Rightarrow> if now1 < ca_expireAt x then lru_touch p xs
                  else if ca_expireAt x < now2 then AList.delete p xs else xs
      | None \<Rightarrow> xs)"

lemma AttrCache_Get_view:
  assumes "attr_cache_inv c"
  shows "fst (AttrCache_Get p now1 now2 c) = attr_lookup p now1 (lru_view c)"
    and "attr_cache_inv (snd (AttrCache_Get p now1 now2 c))"
    and "lru_view (snd (AttrCache_Get p now1 now2 c)) = attr_after_lookup p now1 now2 (lru_view c)"
proof -
  have m: "map_of (lru_view c) p = map_option strip (map_of (cache c) p)"
    using assms by (simp add: attr_cache_inv_def map_of_lru_view)
  have st: "ca_expireAt (strip x) = ca_expireAt x" "ca_attrs (strip x) = ca_attrs x" for x :: CachedAttrs
    by (simp_all add: strip_def)
  have neg: "ca_isNegative x \<longleftrightarrow> ca_attrs x = None" if "map_of (cache c) p = Some x" for x
    using assms that by (simp add: attr_cache_inv_def)
  note t = touch_attr_view [OF assms] and d = AttrCache_Invalidate_view [OF assms, unfolded AttrCache_Invalidate_def]
  show "fst (AttrCache_Get p now1 now2 c) = attr_lookup p now1 (lru_view c)"
    by (auto simp: AttrCache_Get_def attr_lookup_def m st neg split: option.split)
  show "attr_cache_inv (snd (AttrCache_Get p now1 now2 c))"
    using assms by (auto simp: AttrCache_Get_def t d split: option.split)
  show "lru_view (snd (AttrCache_Get p now1 now2 c)) = attr_after_lookup p now1 now2 (lru_view c)"
    by (auto simp: AttrCache_Get_def attr_after_lookup_def m st t d split: option.split)
qed

lemma fold_drop_view:
  "attr_cache_inv c \<Longrightarrow> attr_cache_inv (fold (\<lambda>p c. drop_entry c p) ps c) \<and>
     lru_view (fold (\<lambda>p c. drop_entry c p) ps c) = filter (\<lambda>y. fst y \<notin> set ps) (lru_view c)"
proof (induction ps arbitrary: c)
  case (Cons p ps)
  note d = AttrCache_Invalidate_view [OF Cons.prems, unfolded AttrCache_Invalidate_def, of p]
  have "filter (\<lambda>y. fst y \<notin> set ps) (AList.delete p xs) = filter (\<lambda>y. fst y \<notin> set (p # ps)) xs"
    for xs :: "(string \<times> CachedAttrs) list"
    by (auto simp: AList.delete_eq intro: filter_cong)
  with Cons.IH [OF d(1)] d(2) show ?case by simp
qed simp

lemma InvalidateNegativeInDir_view:
  assumes "attr_cache_inv c"
  shows "attr_cache_inv (InvalidateNegativeInDir dir c)"
    and "lru_view (InvalidateNegativeInDir dir c) =
      filter (\<lambda>(p, x). \<not> (ca_isNegative x \<and> isChildOf p dir)) (lru_view c)"
proof -
  let ?ps = "map fst (filter (\<lambda>(path, cached). ca_isNegative cached \<and> isChildOf path dir) (cache c))"
  note f = fold_drop_view [OF assms, of ?ps]
  from f show "attr_cache_inv (InvalidateNegativeInDir dir c)" by (simp add: InvalidateNegativeInDir_def)
  have inv: "lru_inv c" and ok: "gm_ok (cache c)" using assms by (auto simp: attr_cache_inv_def lru_inv_def)
  have mem: "fst y \<in> set ?ps \<longleftrightarrow> ca_isNegative (snd y) \<and> isChildOf (fst y) dir" if y: "y \<in> set (lru_view c)" for y
  proof -
    from y have "map_of (lru_view c) (fst y) = Some (snd y)" by (simp only: view_mem [OF inv])
    then obtain x where x: "map_of (cache c) (fst y) = Some x" and sy: "snd y = strip x"
      by (auto simp: map_of_lru_view [OF inv])
    have "fst y \<in> set ?ps \<longleftrightarrow> (\<exists>x'. (fst y, x') \<in> set (cache c) \<and> ca_isNegative x' \<and> isChildOf (fst y) dir)"
      by (auto simp: image_iff Bex_def)
    also have "\<dots> \<longleftrightarrow> ca_isNegative x \<and> isChildOf (fst y) dir"
      using x map_of_is_SomeI [OF ok [unfolded gm_ok_def], of "fst y"] by (auto dest: map_of_SomeD)
    finally show ?thesis by (simp add: sy strip_def)
  qed
  have "filter (\<lambda>y. fst y \<notin> set ?ps) (lru_view c) =
      filter (\<lambda>(p, x). \<not> (ca_isNegative x \<and> isChildOf p dir)) (lru_view c)"
    by (rule filter_cong [OF refl]) (simp only: mem case_prod_beta)
  with f show "lru_view (InvalidateNegativeInDir dir c) =
      filter (\<lambda>(p, x). \<not> (ca_isNegative x \<and> isChildOf p dir)) (lru_view c)"
    by (simp add: InvalidateNegativeInDir_def)
qed

lemma AttrCache_Resize_view:
  assumes "attr_cache_inv c"
  shows "attr_cache_inv (AttrCache_Resize n c)"
    and "lru_view (AttrCache_Resize n c) = take (nat (if n \<le> 0 then 10000 else n)) (lru_view c)"
proof -
  note c = assms [unfolded attr_cache_inv_view]
  define m where "m = (if n \<le> 0 then 10000 else n)"
  have m: "0 < m" by (simp add: m_def)
  have r: "AttrCache_Resize n c = (if maxSize c = m then c else shrink m (c\<lparr>maxSize := m\<rparr>))"
    by (simp add: AttrCache_Resize_def m_def)
  have "lru_inv (c\<lparr>maxSize := m\<rparr>)" "lru_view (c\<lparr>maxSize := m\<rparr>) = lru_view c"
    using c by (simp_all add: lru_inv_def lru_view_def elem_of_def [abs_def])
  with shrink_view [of "c\<lparr>maxSize := m\<rparr>" m] m
  have sh: "lru_inv (shrink m (c\<lparr>maxSize := m\<rparr>))" "lru_view (shrink m (c\<lparr>maxSize := m\<rparr>)) = take (nat m) (lru_view c)"
    by auto
  have id: "take (nat m) (lru_view c) = lru_view c" if "maxSize c = m"
  proof -
    have "length (lru_view c) \<le> nat m" using c that by linarith
    then show ?thesis by simp
  qed
  have view: "lru_view (AttrCache_Resize n c) = take (nat m) (lru_view c)"
    using sh(2) id by (simp add: r)
  then show "lru_view (AttrCache_Resize n c) = take (nat (if n \<le> 0 then 10000 else n)) (lru_view c)"
    by (simp only: m_def)
  have "maxSize (AttrCache_Resize n c) = m" "lru_inv (AttrCache_Resize n c)"
    using sh(1) c by (simp_all add: r)
  moreover have "int (length (take (nat m) (lru_view c))) \<le> m" using m by simp
  ultimately show "attr_cache_inv (AttrCache_Resize n c)"
    unfolding attr_cache_inv_view view using c m by (auto dest: in_set_takeD)
qed


lemma dir_inv_sub:
  assumes "dir_cache_inv c" and "lru_inv c'" and "maxEntries c' = maxEntries c" "maxDirSize c' = maxDirSize c"
    and "set (lru_view c') \<subseteq> set (lru_view c)" and "length (lru_view c') \<le> length (lru_view c)"
  shows "dir_cache_inv c'"
  using assms unfolding dir_cache_inv_view by auto

lemma DirCache_Put_view:
  assumes "dir_cache_inv c"
  shows "dir_cache_inv (DirCache_Put p es now c)"
    and "lru_view (DirCache_Put p es now c) =
      (if int (length es) > maxDirSize c then lru_view c
       else lru_store (nat (maxEntries c)) p
         \<lparr>listElement = None, cd_entries = es, cd_validUntil = now + timeout c\<rparr> (lru_view c))"
proof -
  note c = assms [unfolded dir_cache_inv_view]
  have inv: "lru_inv c" and cap: "0 \<le> maxEntries c" using c by simp_all
  let ?mk = "\<lambda>e. \<lparr>listElement = e, cd_entries = es, cd_validUntil = now + timeout c\<rparr>"
  let ?s = "lru_store (nat (maxEntries c)) p (?mk None) (lru_view c)"
  note v = lru_put_view [of c ?mk "maxEntries c" p, OF inv _ _ cap]
  have v': "lru_inv (lru_put (maxEntries c) p ?mk c)" "lru_view (lru_put (maxEntries c) p ?mk c) = ?s"
    using v by (simp_all add: strip_def)
  show view: "lru_view (DirCache_Put p es now c) = (if int (length es) > maxDirSize c then lru_view c else ?s)"
    using v'(2) by (simp add: DirCache_Put_def)
  have "int (length ?s) \<le> maxEntries c"
    by (rule length_lru_store_int [OF distinct_lru_view [OF inv]]) (use c in simp_all)
  moreover have "int (length (cd_entries (snd y))) \<le> maxDirSize c"
    if "\<not> int (length es) > maxDirSize c" "y \<in> set ?s" for y
    using subsetD [OF set_lru_store_subset that(2)] that(1) c by auto
  ultimately have "dir_cache_inv (lru_put (maxEntries c) p ?mk c)" if "\<not> int (length es) > maxDirSize c"
    unfolding dir_cache_inv_view v'(2) using v'(1) c that by simp
  with assms show "dir_cache_inv (DirCache_Put p es now c)" by (simp add: DirCache_Put_def)
qed

lemma DirCache_Invalidate_view:
  assumes "dir_cache_inv c"
  shows "dir_cache_inv (DirCache_Invalidate p c)"
    and "lru_view (DirCache_Invalidate p c) = AList.delete p (lru_view c)"
proof -
  have inv: "lru_inv c" using assms by (simp add: dir_cache_inv_def)
  note v = drop_entry_view [OF inv, of p]
  show view: "lru_view (DirCache_Invalidate p c) = AList.delete p (lru_view c)"
    using v(2) by (simp add: DirCache_Invalidate_def)
  show "dir_cache_inv (DirCache_Invalidate p c)"
    by (rule dir_inv_sub [OF assms])
      (use v set_delete_subset [of p "lru_view c"] length_delete_le [of p "lru_view c"]
        in \<open>simp_all add: DirCache_Invalidate_def\<close>)
qed

definition dir_lookup :: "string \<Rightarrow> time \<Rightarrow> (string \<times> CachedDirEntry) list \<Rightarrow> FileInfo list option" where
  "dir_lookup p now xs =
     (case map_of xs p of
        Some x \<Rightarrow> if now \<le> cd_validUntil x then Some (cd_entries x) else None
      | None \<Rightarrow> None)"

definition dir_after_lookup ::
    "string \<Rightarrow> time \<Rightarrow> time \<Rightarrow> (string \<times> CachedDirEntry) list \<Rightarrow> (string \<times> CachedDirEntry) list" where
  "dir_after_lookup p now1 now2 xs =
     (case map_of xs p of
        Some x \<Rightarrow> if now1 \<le> cd_validUntil x then lru_touch p xs
                  else if cd_validUntil x < now2 then AList.delete p xs else xs
      | None \<Rightarrow> xs)"

lemma dir_counters [simp]:
  "lru_inv (c\<lparr>hits := h\<rparr>) = lru_inv c" "lru_inv (c\<lparr>misses := m\<rparr>) = lru_inv c"
  "lru_view (c\<lparr>hits := h\<rparr>) = lru_view c" "lru_view (c\<lparr>misses := m\<rparr>) = lru_view c"
  "dir_cache_inv (c\<lparr>hits := h\<rparr>) = dir_cache_inv c" "dir_cache_inv (c\<lparr>misses := m\<rparr>) = dir_cache_inv c"
  by (simp_all add: dir_cache_inv_def lru_inv_def lru_view_def elem_of_def [abs_def])

lemma DirCache_Get_view:
  assumes "dir_cache_inv c"
  shows "fst (DirCache_Get p now1 now2 c) = dir_lookup p now1 (lru_view c)"
    and "dir_cache_inv (snd (DirCache_Get p now1 now2 c))"
    and "lru_view (snd (DirCache_Get p now1 now2 c)) = dir_after_lookup p now1 now2 (lru_view c)"
proof -
  have inv: "lru_inv c" using assms by (simp add: dir_cache_inv_def)
  note m = map_of_lru_view [OF inv, of p]
  have st: "cd_validUntil (strip x) = cd_validUntil x" "cd_entries (strip x) = cd_entries x" for x :: CachedDirEntry
    by (simp_all add: strip_def)
  have t: "dir_cache_inv (updateAccessLog c p)" "lru_view (updateAccessLog c p) = lru_touch p (lru_view c)"
    if "map_of (cache c) p = Some x" for x
  proof -
    show v: "lru_view (updateAccessLog c p) = lru_touch p (lru_view c)" using inv that by (rule lru_touch_view)
    show "dir_cache_inv (updateAccessLog c p)"
      by (rule dir_inv_sub [OF assms])
        (use updateAccessLog_view(1) [OF inv that] set_lru_touch_subset length_lru_touch [OF distinct_lru_view [OF inv]]
          in \<open>auto simp: v\<close>)
  qed
  have m1: "dir_cache_inv (c\<lparr>misses := misses c + 1\<rparr>)" using assms by simp
  note d = DirCache_Invalidate_view [OF m1, unfolded DirCache_Invalidate_def, simplified]
  show "fst (DirCache_Get p now1 now2 c) = dir_lookup p now1 (lru_view c)"
    by (auto simp: DirCache_Get_def dir_lookup_def m st Let_def split: option.split)
  show "dir_cache_inv (snd (DirCache_Get p now1 now2 c))"
    using assms t(1) d(1) by (auto simp: DirCache_Get_def Let_def split: option.split)
  show "lru_view (snd (DirCache_Get p now1 now2 c)) = dir_after_lookup p now1 now2 (lru_view c)"
    using t(2) d(2) by (auto simp: DirCache_Get_def dir_after_lookup_def m st Let_def split: option.split)
qed

lemma isChildOf_iff:
  assumes "path = CHR ''/'' # rest"
  shows "isChildOf path dir \<longleftrightarrow>
    (\<exists>name. name \<noteq> [] \<and> CHR ''/'' \<notin> set name \<and> path = (if dir = ''/'' then ''/'' @ name else dir @ ''/'' @ name))"
proof (cases "dir = ''/''")
  case True
  then show ?thesis by (auto simp: isChildOf_def assms Let_def)
next
  case False
  show ?thesis
  proof
    assume ch: "isChildOf path dir"
    then have c: "length path > length dir + 1" "take (length dir) path = dir" "path ! length dir = CHR ''/''"
      "CHR ''/'' \<notin> set (drop (length dir + 1) path)" "drop (length dir + 1) path \<noteq> []"
      using False by (auto simp: isChildOf_def Let_def split: if_splits)
    then have "path = dir @ [CHR ''/''] @ drop (length dir + 1) path"
      using append_take_drop_id [of "length dir" path] by (simp add: Cons_nth_drop_Suc [symmetric])
    with c False show "\<exists>name. name \<noteq> [] \<and> CHR ''/'' \<notin> set name \<and>
        path = (if dir = ''/'' then ''/'' @ name else dir @ ''/'' @ name)"
      by (intro exI [of _ "drop (length dir + 1) path"]) simp
  next
    assume "\<exists>name. name \<noteq> [] \<and> CHR ''/'' \<notin> set name \<and>
        path = (if dir = ''/'' then ''/'' @ name else dir @ ''/'' @ name)"
    with False show "isChildOf path dir" by (auto simp: isChildOf_def Let_def Suc_le_eq)
  qed
qed

section \<open>Properties\<close>

lemma attr_settings_view:
  "attr_cache_inv c \<Longrightarrow> attr_cache_inv (AttrCache_Clear c)" "lru_view (AttrCache_Clear c) = []"
  "attr_cache_inv c \<Longrightarrow> attr_cache_inv (AttrCache_UpdateTTL t c)" "lru_view (AttrCache_UpdateTTL t c) = lru_view c"
  "attr_cache_inv c \<Longrightarrow> attr_cache_inv (ConfigureNegativeCaching b t c)" "lru_view (ConfigureNegativeCaching b t c) = lru_view c"
  using lru_inv_empty [of c]
  by (simp_all add: attr_cache_inv_def AttrCache_UpdateTTL_def ConfigureNegativeCaching_def AttrCache_Clear_def Let_def
      lru_inv_def lru_view_def elem_of_def [abs_def])

text \<open>
  C18: The attribute cache is a bounded least-recently-used cache.  Every operation keeps the
  invariant (map, list and element references agree, at most \<open>maxSize\<close> entries, an entry is negative
  exactly when it has no attributes) and acts on the entries in order of last use as the abstract
  cache does: a store puts the entry first and drops the last one only when a new path meets a full
  cache, a hit moves the entry first, an expired entry is removed, invalidation and resizing remove
  exactly the entries they name, clearing removes all of them, and a change of the lifetimes of
  entries or of negative caching leaves the entries alone.
\<close>

theorem attr_cache_refines_lru:
  assumes "attr_cache_inv c"
  shows "attr_cache_inv (AttrCache_Put p a now c) \<and>
    lru_view (AttrCache_Put p a now c) =
      lru_store (nat (maxSize c)) p (attr_entry (Some (copy_attrs a)) (now + ttl c)) (lru_view c) \<and>
    attr_cache_inv (PutNegative p now c) \<and>
    lru_view (PutNegative p now c) =
      (if enableNegative c
       then lru_store (nat (maxSize c)) p (attr_entry None (now + negativeTTL c)) (lru_view c)
       else lru_view c) \<and>
    attr_cache_inv (snd (AttrCache_Get p now now' c)) \<and>
    fst (AttrCache_Get p now now' c) = attr_lookup p now (lru_view c) \<and>
    lru_view (snd (AttrCache_Get p now now' c)) = attr_after_lookup p now now' (lru_view c) \<and>
    attr_cache_inv (AttrCache_Invalidate p c) \<and>
    lru_view (AttrCache_Invalidate p c) = AList.delete p (lru_view c) \<and>
    attr_cache_inv (InvalidateNegativeInDir p c) \<and>
    lru_view (InvalidateNegativeInDir p c) =
      filter (\<lambda>(q, x). \<not> (ca_isNegative x \<and> isChildOf q p)) (lru_view c) \<and>
    attr_cache_inv (AttrCache_Resize n c) \<and>
    lru_view (AttrCache_Resize n c) = take (nat (if n \<le> 0 then 10000 else n)) (lru_view c) \<and>
    attr_cache_inv (AttrCache_Clear c) \<and> lru_view (AttrCache_Clear c) = [] \<and>
    attr_cache_inv (AttrCache_UpdateTTL d c) \<and> lru_view (AttrCache_UpdateTTL d c) = lru_view c \<and>
    attr_cache_inv (ConfigureNegativeCaching b d c) \<and> lru_view (ConfigureNegativeCaching b d c) = lru_view c"
  using attr_settings_view(1,3,5) [OF assms] AttrCache_Put_view [OF assms] PutNegative_view [OF assms] AttrCache_Get_view [OF assms]
    AttrCache_Invalidate_view [OF assms] InvalidateNegativeInDir_view [OF assms]
    AttrCache_Resize_view [OF assms]
  by (simp add: attr_settings_view(2,4,6))

definition sample_attrs :: NFSAttrs where
  "sample_attrs = NewNFSAttrs 0x1A4 5 100 200 1000 1000"

theorem attr_cache_refines_lru_witness:
  "lru_view (AttrCache_Put ''/a'' sample_attrs 7 (NewAttrCache 10 2)) =
     [(''/a'', attr_entry (Some sample_attrs) 17)]"
  using attr_cache_refines_lru [OF NewAttrCache_inv, of "''/a''" sample_attrs 7 10 2]
  by (simp add: NewAttrCache_def lru_view_def list_New_def lru_store_def copy_attrs_def sample_attrs_def
      NewNFSAttrs_def)

text \<open>
  Cached attributes are served exactly for their time to live: right after a store, a lookup
  before the expiry time returns the stored attributes, and one at or after it misses.
\<close>

theorem attr_cache_ttl:
  assumes "attr_cache_inv c"
  shows "fst (AttrCache_Get p now now' (AttrCache_Put p a t c)) =
    (if now < t + ttl c then (Some (copy_attrs a), True) else (None, False))"
proof -
  have "copy_attrs (copy_attrs a) = copy_attrs a" by (simp add: copy_attrs_def)
  then show ?thesis
    using AttrCache_Get_view(1) [OF AttrCache_Put_view(1) [OF assms]] AttrCache_Put_view(2) [OF assms]
    by (simp add: attr_lookup_def map_of_lru_store attr_entry_def)
qed

text \<open>
  Creating a file clears the negative entries of its directory: after \<open>InvalidateNegativeInDir\<close>
  no direct child of the directory is answered from a negative entry, and every other lookup
  answers as before.
\<close>

theorem negative_entries_cleared:
  assumes "attr_cache_inv c"
  shows "(isChildOf p dir \<longrightarrow>
      fst (AttrCache_Get p now now' (InvalidateNegativeInDir dir c)) \<noteq> (None, True)) \<and>
    (\<not> (isChildOf p dir \<and> fst (AttrCache_Get p now now' c) = (None, True)) \<longrightarrow>
      fst (AttrCache_Get p now now' (InvalidateNegativeInDir dir c)) = fst (AttrCache_Get p now now' c))"
proof -
  let ?keep = "\<lambda>(q, x). \<not> (ca_isNegative x \<and> isChildOf q dir)"
  have ok: "gm_ok (lru_view c)"
    using distinct_lru_view assms by (auto simp: attr_cache_inv_def)
  have mf: "map_of (filter ?keep (lru_view c)) p =
      (case map_of (lru_view c) p of Some x \<Rightarrow> if ?keep (p, x) then Some x else None | None \<Rightarrow> None)"
    using ok by (rule map_of_filter_key)
  have neg: "ca_isNegative x \<longleftrightarrow> ca_attrs x = None" if "map_of (lru_view c) p = Some x" for x
    using assms [unfolded attr_cache_inv_view] map_of_SomeD [OF that] by auto
  show ?thesis
    unfolding AttrCache_Get_view(1) [OF assms] AttrCache_Get_view(1) [OF InvalidateNegativeInDir_view(1) [OF assms]]
      InvalidateNegativeInDir_view(2) [OF assms] attr_lookup_def mf
    using neg by (auto split: option.split)
qed

text \<open>
  The directory cache is a bounded least-recently-used cache as well: its operations keep the
  invariant (at most \<open>maxEntries\<close> directories, none with more than \<open>maxDirSize\<close> entries) and act on the
  entries in order of last use as the abstract cache does; a listing that is too long is not stored.
\<close>

theorem dir_cache_refines_lru:
  assumes "dir_cache_inv c"
  shows "dir_cache_inv (DirCache_Put p es now c) \<and>
    lru_view (DirCache_Put p es now c) =
      (if int (length es) > maxDirSize c then lru_view c
       else lru_store (nat (maxEntries c)) p
         \<lparr>listElement = None, cd_entries = es, cd_validUntil = now + timeout c\<rparr> (lru_view c)) \<and>
    dir_cache_inv (snd (DirCache_Get p now now' c)) \<and>
    fst (DirCache_Get p now now' c) = dir_lookup p now (lru_view c) \<and>
    lru_view (snd (DirCache_Get p now now' c)) = dir_after_lookup p now now' (lru_view c) \<and>
    dir_cache_inv (DirCache_Invalidate p c) \<and>
    lru_view (DirCache_Invalidate p c) = AList.delete p (lru_view c)"
  using DirCache_Put_view [OF assms] DirCache_Get_view [OF assms] DirCache_Invalidate_view [OF assms]
  by simp

text \<open>
  Attributes that come out of the cache are never valid in the sense of \<open>NFSAttrs.IsValid\<close>: the copy
  that \<open>Get\<close> returns has a zero validity time, so a caller that also asks \<open>IsValid\<close> treats every hit as
  a miss.
\<close>

theorem cached_attrs_never_valid:
  assumes "AttrCache_Get p now now' c = ((Some a, True), c')" and "0 \<le> t"
  shows "\<not> IsValid a t"
  using assms by (auto simp: AttrCache_Get_def IsValid_def copy_attrs_def split: option.splits if_splits)

end
