(* ===== verification/RPC.thy ===== *)
theory RPC
  imports Attributes
begin

text \<open>
  ONC RPC messages (\<open>rpc_types.go\<close>): decoding of calls, encoding of replies, and the
  \<open>AUTH_SYS\<close> credential parser with its own byte reader.
\<close>

section \<open>Messages\<close>

abbreviation (input) RPC_CALL :: u32 where "RPC_CALL \<equiv> 0"
abbreviation (input) RPC_REPLY :: u32 where "RPC_REPLY \<equiv> 1"
abbreviation (input) AUTH_NONE :: u32 where "AUTH_NONE \<equiv> 0"
abbreviation (input) AUTH_SYS :: u32 where "AUTH_SYS \<equiv> 1"
abbreviation (input) MAX_RPC_AUTH_LENGTH :: nat where "MAX_RPC_AUTH_LENGTH \<equiv> 400"
abbreviation (input) MSG_ACCEPTED :: u32 where "MSG_ACCEPTED \<equiv> 0"
abbreviation (input) MSG_DENIED :: u32 where "MSG_DENIED \<equiv> 1"
abbreviation (input) SUCCESS :: u32 where "SUCCESS \<equiv> 0"
abbreviation (input) PROG_UNAVAIL :: u32 where "PROG_UNAVAIL \<equiv> 1"
abbreviation (input) PROG_MISMATCH :: u32 where "PROG_MISMATCH \<equiv> 2"
abbreviation (input) PROC_UNAVAIL :: u32 where "PROC_UNAVAIL \<equiv> 3"
abbreviation (input) GARBAGE_ARGS :: u32 where "GARBAGE_ARGS \<equiv> 4"
abbreviation (input) SYSTEM_ERR :: u32 where "SYSTEM_ERR \<equiv> 5"
abbreviation (input) AUTH_ERROR :: u32 where "AUTH_ERROR \<equiv> 1"
abbreviation (input) MOUNT_PROGRAM :: u32 where "MOUNT_PROGRAM \<equiv> 100005"
abbreviation (input) NFS_PROGRAM :: u32 where "NFS_PROGRAM \<equiv> 100003"
abbreviation (input) NFS_V3 :: u32 where "NFS_V3 \<equiv> 3"
abbreviation (input) MOUNT_V3 :: u32 where "MOUNT_V3 \<equiv> 3"

record RPCMsgHeader =
  Xid :: u32
  MsgType :: u32
  RPCVersion :: u32
  Program :: u32
  Version :: u32
  Procedure :: u32

record RPCCredential =
  cred_Flavor :: u32
  cred_Body :: bytes

record RPCVerifier =
  verf_Flavor :: u32
  verf_Body :: bytes

record RPCCall =
  call_Header :: RPCMsgHeader
  Credential :: RPCCredential
  call_Verifier :: RPCVerifier

datatype reply_data = DataNil | DataBytes bytes | DataAttrs NFSAttrs | DataString string | DataU32 u32

record RPCReply =
  reply_Header :: RPCMsgHeader
  Status :: u32
  AcceptStatus :: u32
  reply_Verifier :: RPCVerifier
  Data :: reply_data

section \<open>Decoding a call\<close>

text \<open>An \<open>opaque_auth\<close>: flavor, length, body and padding, the body at most 400 bytes.\<close>

definition decode_opaque_auth :: "string \<Rightarrow> (u32 \<times> bytes) reader" where
  "decode_opaque_auth what =
     rbind (rwrap (''failed to decode '' @ what @ '' flavor'') xdrDecodeUint32) (\<lambda>flavor.
     rbind (rwrap (''failed to decode '' @ what @ '' length'') xdrDecodeUint32) (\<lambda>len.
       if len > of_nat MAX_RPC_AUTH_LENGTH
       then rfail (ErrText (what @ '' length exceeds maximum allowed length''))
       else rbind (rwrap (''failed to read '' @ what @ '' body'') (rd_full (unat len))) (\<lambda>body.
         let pad = (4 - len mod 4) mod 4
         in rbind (if pad > 0
                   then rwrap (''failed to read '' @ what @ '' padding'') (rd_full (unat pad))
                   else rreturn [])
              (\<lambda>_. rreturn (flavor, body)))))"

definition DecodeRPCCall :: "RPCCall reader" where
  "DecodeRPCCall =
     rbind (rwrap ''failed to decode XID'' xdrDecodeUint32) (\<lambda>xid.
     rbind (rwrap ''failed to decode message type'' xdrDecodeUint32) (\<lambda>msgType.
       if msgType \<noteq> RPC_CALL then rfail (ErrText ''expected RPC call'')
       else
         rbind (rwrap ''failed to decode RPC version'' xdrDecodeUint32) (\<lambda>rpcvers.
         rbind (rwrap ''failed to decode program'' xdrDecodeUint32) (\<lambda>prog.
         rbind (rwrap ''failed to decode version'' xdrDecodeUint32) (\<lambda>vers.
         rbind (rwrap ''failed to decode procedure'' xdrDecodeUint32) (\<lambda>prc.
         rbind (decode_opaque_auth ''credential'') (\<lambda>(cf, cb).
         rbind (decode_opaque_auth ''verifier'') (\<lambda>(vf, vb).
           rreturn \<lparr>call_Header = \<lparr>Xid = xid, MsgType = msgType, RPCVersion = rpcvers,
               Program = prog, Version = vers, Procedure = prc\<rparr>,
             Credential = \<lparr>cred_Flavor = cf, cred_Body = cb\<rparr>,
             call_Verifier = \<lparr>verf_Flavor = vf, verf_Body = vb\<rparr>\<rparr>))))))))"

text \<open>The call message as RFC 1831 lays it out: what a client sends.\<close>

definition encode_opaque_auth :: "u32 \<Rightarrow> bytes \<Rightarrow> bytes" where
  "encode_opaque_auth f b =
     be32 f @ be32 (of_nat (length b)) @ b @ replicate (pad_len (length b)) 0"

definition encode_call :: "RPCCall \<Rightarrow> bytes" where
  "encode_call c =
     be32 (Xid (call_Header c)) @ be32 (MsgType (call_Header c)) @
     be32 (RPCVersion (call_Header c)) @ be32 (Program (call_Header c)) @
     be32 (Version (call_Header c)) @ be32 (Procedure (call_Header c)) @
     encode_opaque_auth (cred_Flavor (Credential c)) (cred_Body (Credential c)) @
     encode_opaque_auth (verf_Flavor (call_Verifier c)) (verf_Body (call_Verifier c))"

lemmas xdrDecodeUint32_be32 [read_simps] = xdrDecodeUint32_app [unfolded xdrEncodeUint32_def]

lemma rd_pad_word:
  "(if (4 - l mod 4) mod 4 > (0 :: u32) then rwrap msg (rd_full (unat ((4 - l mod 4) mod 4)))
    else rreturn []) = rwrap msg (rd_full (pad_len (unat l)))"
  by (auto simp: unat_word_pad [symmetric] word_gt_0 rd_full_def rreturn_def rwrap_def fun_eq_iff)

lemma decode_opaque_auth_alt:
  "decode_opaque_auth what =
     rbind (rwrap (''failed to decode '' @ what @ '' flavor'') xdrDecodeUint32) (\<lambda>flavor.
     rbind (rwrap (''failed to decode '' @ what @ '' length'') xdrDecodeUint32) (\<lambda>len.
       if unat len > MAX_RPC_AUTH_LENGTH
       then rfail (ErrText (what @ '' length exceeds maximum allowed length''))
       else rbind (rwrap (''failed to read '' @ what @ '' body'') (rd_full (unat len))) (\<lambda>body.
         rbind (rwrap (''failed to read '' @ what @ '' padding'') (rd_full (pad_len (unat len))))
           (\<lambda>_. rreturn (flavor, body)))))"
  unfolding decode_opaque_auth_def Let_def rd_pad_word by (simp add: word_less_nat_alt)

lemma decode_opaque_auth_app [read_simps]:
  assumes "length b \<le> MAX_RPC_AUTH_LENGTH"
  shows "decode_opaque_auth what (encode_opaque_auth f b @ rest) = (Inr (f, b), rest)"
proof -
  have "unat (of_nat (length b) :: u32) = length b"
    using assms by (simp add: unat_of_nat)
  with assms show ?thesis
    by (simp add: decode_opaque_auth_alt encode_opaque_auth_def rbind_def read_simps)
qed

lemma decode_opaque_auth_bound:
  "decode_opaque_auth what bs = (Inr (f, b), rest) \<Longrightarrow> length b \<le> MAX_RPC_AUTH_LENGTH"
  by (auto simp: decode_opaque_auth_alt rwrap_InrD rd_full_Inr rreturn_app rfail_app
      split: if_splits elim!: rbind_InrE)

lemma DecodeRPCCall_app:
  assumes "MsgType (call_Header c) = RPC_CALL"
    and "length (cred_Body (Credential c)) \<le> MAX_RPC_AUTH_LENGTH"
    and "length (verf_Body (call_Verifier c)) \<le> MAX_RPC_AUTH_LENGTH"
  shows "DecodeRPCCall (encode_call c @ rest) = (Inr c, rest)"
  using assms by (simp add: DecodeRPCCall_def encode_call_def rbind_def read_simps)

lemma DecodeRPCCall_bounds:
  "DecodeRPCCall bs = (Inr c, rest) \<Longrightarrow>
     MsgType (call_Header c) = RPC_CALL \<and>
     length (cred_Body (Credential c)) \<le> MAX_RPC_AUTH_LENGTH \<and>
     length (verf_Body (call_Verifier c)) \<le> MAX_RPC_AUTH_LENGTH"
  unfolding DecodeRPCCall_def
  by (elim rbind_InrE, auto simp: rreturn_app rfail_app split: if_splits prod.splits
      elim!: rbind_InrE dest!: decode_opaque_auth_bound)

section \<open>Encoding a reply\<close>

definition encode_reply_data :: "reply_data \<Rightarrow> bytes" where
  "encode_reply_data d =
     (case d of
        DataNil \<Rightarrow> []
      | DataBytes b \<Rightarrow> b
      | DataAttrs a \<Rightarrow> encodeFileAttributes a
      | DataString s \<Rightarrow> xdrEncodeString s
      | DataU32 v \<Rightarrow> xdrEncodeUint32 v)"

definition EncodeRPCReply :: "RPCReply \<Rightarrow> bytes" where
  "EncodeRPCReply reply =
     xdrEncodeUint32 (Xid (reply_Header reply)) @
     xdrEncodeUint32 RPC_REPLY @
     xdrEncodeUint32 (Status reply) @
     (if Status reply = MSG_ACCEPTED then
        (let body = verf_Body (reply_Verifier reply)
         in xdrEncodeUint32 (verf_Flavor (reply_Verifier reply)) @
            xdrEncodeUint32 (of_nat (length body)) @
            (if length body > 0
             then body @ (let pad = (4 - length body mod 4) mod 4
                          in if pad > 0 then replicate pad 0 else [])
             else [])) @
        xdrEncodeUint32 (AcceptStatus reply) @
        (if AcceptStatus reply = PROG_MISMATCH then xdrEncodeUint32 3 @ xdrEncodeUint32 3
         else if AcceptStatus reply = SUCCESS \<and> Data reply \<noteq> DataNil
         then encode_reply_data (Data reply)
         else [])
      else xdrEncodeUint32 AUTH_ERROR @ xdrEncodeUint32 1)"

text \<open>A client's view of the reply header (RFC 1831 section 8).\<close>

datatype reply_view =
    Accepted u32 "u32 \<times> bytes" u32
  | Mismatch u32 "u32 \<times> bytes" u32 u32
  | Denied u32 u32 u32
  | BadReply

definition decode_reply :: "reply_view reader" where
  "decode_reply =
     rbind xdrDecodeUint32 (\<lambda>xid. rbind xdrDecodeUint32 (\<lambda>mtype. rbind xdrDecodeUint32 (\<lambda>stat.
       if mtype \<noteq> RPC_REPLY then rreturn BadReply
       else if stat = MSG_ACCEPTED then
         rbind (decode_opaque_auth ''verifier'') (\<lambda>verf. rbind xdrDecodeUint32 (\<lambda>acc.
           if acc = PROG_MISMATCH then
             rbind xdrDecodeUint32 (\<lambda>lo. rbind xdrDecodeUint32 (\<lambda>hi. rreturn (Mismatch xid verf lo hi)))
           else rreturn (Accepted xid verf acc)))
       else
         rbind xdrDecodeUint32 (\<lambda>rej. rbind xdrDecodeUint32 (\<lambda>why. rreturn (Denied xid rej why))))))"

lemma encode_verifier_eq:
  "xdrEncodeUint32 f @ xdrEncodeUint32 (of_nat (length b)) @
     (if length b > 0
      then b @ (let pad = (4 - length b mod 4) mod 4 in if pad > 0 then replicate pad 0 else [])
      else []) = encode_opaque_auth f b"
  by (auto simp: encode_opaque_auth_def xdrEncodeUint32_def pad_len_def Let_def)

definition reply_view_of :: "RPCReply \<Rightarrow> reply_view" where
  "reply_view_of r =
     (let xid = Xid (reply_Header r);
          verf = (verf_Flavor (reply_Verifier r), verf_Body (reply_Verifier r))
      in if Status r = MSG_ACCEPTED
         then if AcceptStatus r = PROG_MISMATCH then Mismatch xid verf 3 3
              else Accepted xid verf (AcceptStatus r)
         else Denied xid AUTH_ERROR 1)"

definition reply_payload :: "RPCReply \<Rightarrow> bytes" where
  "reply_payload r =
     (if Status r = MSG_ACCEPTED \<and> AcceptStatus r = SUCCESS then encode_reply_data (Data r) else [])"

lemma decode_reply_EncodeRPCReply:
  assumes "length (verf_Body (reply_Verifier r)) \<le> MAX_RPC_AUTH_LENGTH"
  shows "decode_reply (EncodeRPCReply r @ rest) = (Inr (reply_view_of r), reply_payload r @ rest)"
proof -
  define f where "f = verf_Flavor (reply_Verifier r)"
  define b where "b = verf_Body (reply_Verifier r)"
  have enc: "EncodeRPCReply r =
     xdrEncodeUint32 (Xid (reply_Header r)) @ xdrEncodeUint32 RPC_REPLY @ xdrEncodeUint32 (Status r) @
     (if Status r = MSG_ACCEPTED
      then encode_opaque_auth f b @ xdrEncodeUint32 (AcceptStatus r) @
        (if AcceptStatus r = PROG_MISMATCH then xdrEncodeUint32 3 @ xdrEncodeUint32 3
         else if AcceptStatus r = SUCCESS \<and> Data r \<noteq> DataNil then encode_reply_data (Data r) else [])
      else xdrEncodeUint32 AUTH_ERROR @ xdrEncodeUint32 1)"
    unfolding EncodeRPCReply_def Let_def f_def b_def encode_verifier_eq [unfolded Let_def, symmetric]
    by simp
  have nil: "encode_reply_data DataNil = []"
    by (simp add: encode_reply_data_def)
  from assms have "length b \<le> MAX_RPC_AUTH_LENGTH" by (simp add: b_def)
  then show ?thesis
    unfolding enc decode_reply_def rbind_def
    by (auto simp: read_simps reply_view_of_def reply_payload_def f_def [symmetric] b_def [symmetric] nil)
qed

section \<open>AUTH_SYS credentials\<close>

record AuthSysCredential =
  Stamp :: u32
  MachineName :: string
  as_UID :: u32
  as_GID :: u32
  AuxGIDs :: "u32 list"

record byteReader =
  br_data :: bytes
  br_pos :: nat

definition readUint32 :: "byteReader \<Rightarrow> u32 result \<times> byteReader" where
  "readUint32 r =
     (if br_pos r + 4 > length (br_data r) then (Inl (ErrText ''not enough data for uint32''), r)
      else (Inr (un_be32 (take 4 (drop (br_pos r) (br_data r)))), r\<lparr>br_pos := br_pos r + 4\<rparr>))"

definition readString :: "byteReader \<Rightarrow> string result \<times> byteReader" where
  "readString r =
     (case readUint32 r of
        (Inl e, r) \<Rightarrow> (Inl e, r)
      | (Inr len, r) \<Rightarrow>
          if len > of_nat MAX_XDR_STRING_LENGTH
          then (Inl (ErrText ''string length exceeds maximum''), r)
          else
            let paddedLength = (len + 3) AND NOT 3
            in if br_pos r + unat paddedLength > length (br_data r)
               then (Inl (ErrText ''not enough data for string''), r)
               else (Inr (string_of_bytes (take (unat len) (drop (br_pos r) (br_data r)))),
                     r\<lparr>br_pos := br_pos r + unat paddedLength\<rparr>))"

fun readGIDs :: "nat \<Rightarrow> byteReader \<Rightarrow> (u32 list) result \<times> byteReader" where
  "readGIDs 0 r = (Inr [], r)"
| "readGIDs (Suc n) r =
     (case readUint32 r of
        (Inl e, r) \<Rightarrow> (Inl (Wrap ''failed to read auxiliary GID'' e), r)
      | (Inr g, r) \<Rightarrow>
          (case readGIDs n r of (Inl e, r) \<Rightarrow> (Inl e, r) | (Inr gs, r) \<Rightarrow> (Inr (g # gs), r)))"

definition ParseAuthSysCredential :: "bytes \<Rightarrow> AuthSysCredential result" where
  "ParseAuthSysCredential body =
     (if length body = 0 then Inl (ErrText ''empty AUTH_SYS credential body'')
      else
        (case readUint32 \<lparr>br_data = body, br_pos = 0\<rparr> of
           (Inl e, _) \<Rightarrow> Inl (Wrap ''failed to read stamp'' e)
         | (Inr stamp, r) \<Rightarrow>
        (case readString r of
           (Inl e, _) \<Rightarrow> Inl (Wrap ''failed to read machine name'' e)
         | (Inr name, r) \<Rightarrow>
        (case readUint32 r of
           (Inl e, _) \<Rightarrow> Inl (Wrap ''failed to read UID'' e)
         | (Inr uid, r) \<Rightarrow>
        (case readUint32 r of
           (Inl e, _) \<Rightarrow> Inl (Wrap ''failed to read GID'' e)
         | (Inr gid, r) \<Rightarrow>
        (case readUint32 r of
           (Inl e, _) \<Rightarrow> Inl (Wrap ''failed to read GID count'' e)
         | (Inr gidCount, r) \<Rightarrow>
             if gidCount > 16 then Inl (ErrText ''too many auxiliary GIDs'')
             else
               (case readGIDs (unat gidCount) r of
                  (Inl e, _) \<Rightarrow> Inl e
                | (Inr gids, _) \<Rightarrow>
                    Inr \<lparr>Stamp = stamp, MachineName = name, as_UID = uid, as_GID = gid,
                         AuxGIDs = gids\<rparr>)))))))"

lemma Suc_Suc_sub2: "2 \<le> n \<Longrightarrow> Suc (Suc (n - 2)) = n"
  by simp

lemma round4_eq: "(n + 3) div 4 * 4 = n + pad_len n" for n :: nat
proof -
  define q where "q = n div 4"
  have n: "n = 4 * q + n mod 4" by (simp add: q_def)
  show ?thesis
    by (cases n rule: mod4_cases; subst (1 2) n) (simp_all add: pad_len_def)
qed

lemma word_round4:
  fixes w :: u32
  assumes "unat w < 2 ^ 32 - 3"
  shows "unat ((w + 3) AND NOT 3) = unat w + pad_len (unat w)"
proof -
  have 1: "x AND NOT 3 = push_bit 2 (drop_bit 2 x)" for x :: u32
  proof -
    have "x AND NOT (mask 2) = push_bit 2 (drop_bit 2 x)"
      by (rule bit_eqI) (auto simp: bit_simps not_less Suc_Suc_sub2)
    then show ?thesis by (simp add: mask_eq_exp_minus_1)
  qed
  have 2: "unat (w + 3) = unat w + 3"
    using assms by (simp add: unat_add_lem [symmetric] unat_word_ariths)
  have 3: "unat (drop_bit 2 (w + 3)) = (unat w + 3) div 4"
    unfolding unat_drop_bit_eq 2 by (simp add: drop_bit_eq_div)
  have "(unat w + 3) div 4 * 4 < 2 ^ 32"
    using assms div_times_less_eq_dividend [of "unat w + 3" 4] by simp
  then have "unat ((w + 3) AND NOT 3) = (unat w + 3) div 4 * 4"
    unfolding 1 by (simp add: push_bit_eq_mult unat_word_ariths 3 mult.commute)
  also have "\<dots> = unat w + pad_len (unat w)"
    by (rule round4_eq)
  finally show ?thesis .
qed

lemma readUint32_step:
  assumes "drop (br_pos r) (br_data r) = be32 v @ rest"
  obtains r' where "readUint32 r = (Inr v, r')" and "drop (br_pos r') (br_data r') = rest"
proof -
  have "length (drop (br_pos r) (br_data r)) \<ge> 4" using assms by simp
  then have "\<not> br_pos r + 4 > length (br_data r)" by simp
  then have "readUint32 r = (Inr v, r\<lparr>br_pos := br_pos r + 4\<rparr>)"
    by (simp add: readUint32_def assms)
  moreover have "drop (br_pos r + 4) (br_data r) = rest"
    using assms by (metis drop_drop add.commute append_eq_conv_conj length_be32)
  ultimately show thesis using that by simp
qed

lemma readUint32_pos: "readUint32 r = (Inr v, r') \<Longrightarrow> br_pos r' \<le> length (br_data r')"
  by (auto simp: readUint32_def split: if_splits)

lemma readString_step:
  assumes "length name \<le> MAX_XDR_STRING_LENGTH"
    and "drop (br_pos r) (br_data r) = xdrEncodeString name @ rest"
  obtains r' where "readString r = (Inr name, r')" and "drop (br_pos r') (br_data r') = rest"
proof -
  let ?n = "length name" and ?w = "of_nat (length name) :: u32"
  have w: "unat ?w = ?n" using assms(1) by (simp add: unat_of_nat)
  have pad: "unat ((?w + 3) AND NOT 3) = ?n + pad_len ?n"
    using word_round4 [of ?w] assms(1) by (simp add: w)
  then have pad': "unat ((?w + 3) AND - 4) = ?n + pad_len ?n" by simp
  have le: "\<not> ?w > of_nat MAX_XDR_STRING_LENGTH"
    using assms(1) by (simp add: word_less_nat_alt w)
  from assms(2) have d: "drop (br_pos r) (br_data r) =
      be32 ?w @ bytes_of_string name @ replicate (pad_len ?n) 0 @ rest"
    by (simp add: xdrEncodeString_alt xdrEncodeUint32_def)
  from readUint32_step [OF d] obtain r1 where r1: "readUint32 r = (Inr ?w, r1)"
    and d1: "drop (br_pos r1) (br_data r1) = bytes_of_string name @ replicate (pad_len ?n) 0 @ rest" .
  have "length (drop (br_pos r1) (br_data r1)) \<ge> ?n + pad_len ?n" unfolding d1 by simp
  then have fits: "\<not> br_pos r1 + (?n + pad_len ?n) > length (br_data r1)"
    using readUint32_pos [OF r1] by simp
  have "drop (?n + pad_len ?n) (drop (br_pos r1) (br_data r1)) = rest" unfolding d1 by simp
  then have "drop (br_pos r1 + (?n + pad_len ?n)) (br_data r1) = rest"
    by (simp add: add.commute)
  moreover have "readString r = (Inr name, r1\<lparr>br_pos := br_pos r1 + (?n + pad_len ?n)\<rparr>)"
    using le fits by (simp add: readString_def r1 pad' w d1 Let_def)
  ultimately show thesis using that by simp
qed

lemma readGIDs_step:
  assumes "drop (br_pos r) (br_data r) = concat (map be32 gs) @ rest"
  obtains r' where "readGIDs (length gs) r = (Inr gs, r')"
  using assms
proof (induction gs arbitrary: r thesis)
  case (Cons g gs)
  from Cons.prems(2) have "drop (br_pos r) (br_data r) = be32 g @ concat (map be32 gs) @ rest"
    by simp
  then obtain r1 where r1: "readUint32 r = (Inr g, r1)"
    and d1: "drop (br_pos r1) (br_data r1) = concat (map be32 gs) @ rest"
    by (rule readUint32_step)
  from Cons.IH [OF _ d1] obtain r2 where "readGIDs (length gs) r1 = (Inr gs, r2)" .
  with r1 Cons.prems(1) show ?case by simp
qed simp

text \<open>The \<open>authsys_parms\<close> structure of RFC 1831, as a client encodes it.\<close>

definition encode_authsys :: "AuthSysCredential \<Rightarrow> bytes" where
  "encode_authsys c = be32 (Stamp c) @ xdrEncodeString (MachineName c) @ be32 (as_UID c) @
     be32 (as_GID c) @ be32 (of_nat (length (AuxGIDs c))) @ concat (map be32 (AuxGIDs c))"

lemma ParseAuthSysCredential_encode:
  assumes "length (MachineName c) \<le> MAX_XDR_STRING_LENGTH" and "length (AuxGIDs c) \<le> 16"
  shows "ParseAuthSysCredential (encode_authsys c @ rest) = Inr c"
proof -
  let ?r = "\<lparr>br_data = encode_authsys c @ rest, br_pos = 0\<rparr>" and ?n = "of_nat (length (AuxGIDs c)) :: u32"
  have n: "unat ?n = length (AuxGIDs c)" using assms(2) by (simp add: unat_of_nat)
  have le: "\<not> ?n > 16" using assms(2) by (simp add: word_less_nat_alt n)
  have "drop (br_pos ?r) (br_data ?r) = be32 (Stamp c) @ xdrEncodeString (MachineName c) @
      be32 (as_UID c) @ be32 (as_GID c) @ be32 ?n @ concat (map be32 (AuxGIDs c)) @ rest"
    by (simp add: encode_authsys_def)
  from readUint32_step [OF this] obtain r1 where r1: "readUint32 ?r = (Inr (Stamp c), r1)"
    and d1: "drop (br_pos r1) (br_data r1) = xdrEncodeString (MachineName c) @
      be32 (as_UID c) @ be32 (as_GID c) @ be32 ?n @ concat (map be32 (AuxGIDs c)) @ rest" .
  from readString_step [OF assms(1) d1] obtain r2 where r2: "readString r1 = (Inr (MachineName c), r2)"
    and d2: "drop (br_pos r2) (br_data r2) =
      be32 (as_UID c) @ be32 (as_GID c) @ be32 ?n @ concat (map be32 (AuxGIDs c)) @ rest" .
  from readUint32_step [OF d2] obtain r3 where r3: "readUint32 r2 = (Inr (as_UID c), r3)"
    and d3: "drop (br_pos r3) (br_data r3) = be32 (as_GID c) @ be32 ?n @ concat (map be32 (AuxGIDs c)) @ rest" .
  from readUint32_step [OF d3] obtain r4 where r4: "readUint32 r3 = (Inr (as_GID c), r4)"
    and d4: "drop (br_pos r4) (br_data r4) = be32 ?n @ concat (map be32 (AuxGIDs c)) @ rest" .
  from readUint32_step [OF d4] obtain r5 where r5: "readUint32 r4 = (Inr ?n, r5)"
    and d5: "drop (br_pos r5) (br_data r5) = concat (map be32 (AuxGIDs c)) @ rest" .
  from readGIDs_step [OF d5] obtain r6 where r6: "readGIDs (length (AuxGIDs c)) r5 = (Inr (AuxGIDs c), r6)" .
  have "length (encode_authsys c @ rest) \<noteq> 0" by (simp add: encode_authsys_def)
  then show ?thesis
    using le by (simp add: ParseAuthSysCredential_def r1 r2 r3 r4 r5 n r6)
qed

lemma length_readGIDs: "readGIDs n r = (Inr gs, r') \<Longrightarrow> length gs = n"
  by (induction n arbitrary: r gs r') (auto split: prod.splits sum.splits)

lemma ParseAuthSysCredential_bound:
  "ParseAuthSysCredential body = Inr c \<Longrightarrow> length (AuxGIDs c) \<le> 16"
  by (auto simp: ParseAuthSysCredential_def word_le_nat_alt not_less dest!: length_readGIDs
      split: if_splits prod.splits sum.splits)

section \<open>Properties\<close>

text \<open>
  The call decoder inverts the RFC 1831 call message and is bounded: a call whose credential and
  verifier bodies have at most 400 bytes decodes to itself, leaving the procedure arguments in the
  stream, and whatever the bytes, a decoded call is an RPC call whose bodies have at most 400 bytes.
\<close>

theorem rpc_call_decoding:
  "(MsgType (call_Header c) = RPC_CALL \<and> length (cred_Body (Credential c)) \<le> MAX_RPC_AUTH_LENGTH \<and>
    length (verf_Body (call_Verifier c)) \<le> MAX_RPC_AUTH_LENGTH \<longrightarrow>
      DecodeRPCCall (encode_call c @ rest) = (Inr c, rest)) \<and>
   (DecodeRPCCall bs = (Inr c', rest') \<longrightarrow>
      MsgType (call_Header c') = RPC_CALL \<and>
      length (cred_Body (Credential c')) \<le> MAX_RPC_AUTH_LENGTH \<and>
      length (verf_Body (call_Verifier c')) \<le> MAX_RPC_AUTH_LENGTH)"
  using DecodeRPCCall_app DecodeRPCCall_bounds by blast

definition sample_call :: RPCCall where
  "sample_call = \<lparr>call_Header = \<lparr>Xid = 7, MsgType = 0, RPCVersion = 2, Program = 100003, Version = 3,
     Procedure = 1\<rparr>, Credential = \<lparr>cred_Flavor = 1, cred_Body = [1, 2, 3, 4, 5]\<rparr>,
     call_Verifier = \<lparr>verf_Flavor = 0, verf_Body = []\<rparr>\<rparr>"

text \<open>
  \<open>EncodeRPCReply\<close> writes a reply that an RFC 1831 client can take apart: it sees the transaction
  id, the verifier and the accept status, the version range 3 to 3 on a program mismatch, or an
  authentication error on a denial; what follows is the procedure result, and only a success has one.
\<close>

theorem rpc_reply_encoding:
  assumes "length (verf_Body (reply_Verifier r)) \<le> MAX_RPC_AUTH_LENGTH"
  shows "decode_reply (EncodeRPCReply r @ rest) = (Inr (reply_view_of r), reply_payload r @ rest)"
  using assms by (rule decode_reply_EncodeRPCReply)

text \<open>
  \<open>AUTH_SYS\<close> credentials are parsed as RFC 1831 lays them out, whatever follows them, and a
  parsed credential never has more than 16 auxiliary groups.
\<close>

theorem auth_sys_parsing:
  "(length (MachineName c) \<le> MAX_XDR_STRING_LENGTH \<and> length (AuxGIDs c) \<le> 16 \<longrightarrow>
      ParseAuthSysCredential (encode_authsys c @ rest) = Inr c) \<and>
   (ParseAuthSysCredential body = Inr c' \<longrightarrow> length (AuxGIDs c') \<le> 16)"
  using ParseAuthSysCredential_encode ParseAuthSysCredential_bound by blast

end
