(* ===== verification/IPAddr.thy ===== *)
theory IPAddr
  imports Prelude
begin

text \<open>
  The parts of Go's \<open>net\<close> and \<open>net/netip\<close> packages that the access checks use: \<open>ParseIP\<close>,
  \<open>ParseCIDR\<close>, \<open>IP.To4\<close>, \<open>IP.Equal\<close>, \<open>IP.Mask\<close> and \<open>IPNet.Contains\<close>.  An \<open>IP\<close> is a byte list of
  length 4 or 16; a parse error is \<open>None\<close>.
\<close>

section \<open>IPv4\<close>

fun split_on :: "char \<Rightarrow> string \<Rightarrow> string list" where
  "split_on d [] = [[]]"
| "split_on d (c # s) =
     (if c = d then [] # split_on d s
      else case split_on d s of [] \<Rightarrow> [[c]] | w # ws \<Rightarrow> (c # w) # ws)"

definition is_digit :: "char \<Rightarrow> bool" where
  "is_digit c \<longleftrightarrow> 48 \<le> (of_char c :: nat) \<and> (of_char c :: nat) \<le> 57"

definition digit_val :: "char \<Rightarrow> nat" where
  "digit_val c = of_char c - 48"

definition dec_val :: "string \<Rightarrow> nat" where
  "dec_val s = fold (\<lambda>c v. v * 10 + digit_val c) s 0"

text \<open>One octet: one to three digits, no leading zero, at most 255.\<close>

definition parse_octet :: "string \<Rightarrow> byte option" where
  "parse_octet w =
     (if w = [] \<or> \<not> list_all is_digit w \<or> (length w > 1 \<and> hd w = CHR ''0'') \<or> length w > 3 \<or> dec_val w > 255
      then None else Some (of_nat (dec_val w)))"

fun parse_all :: "string list \<Rightarrow> bytes option" where
  "parse_all [] = Some []"
| "parse_all (w # ws) =
     (case parse_octet w of
        None \<Rightarrow> None
      | Some b \<Rightarrow> map_option (\<lambda>bs. b # bs) (parse_all ws))"

definition parseIPv4 :: "string \<Rightarrow> bytes option" where
  "parseIPv4 s =
     (let ws = split_on (CHR ''.'') s
      in if length ws = 4 then parse_all ws else None)"

section \<open>IPv6\<close>

definition hex_val :: "char \<Rightarrow> nat option" where
  "hex_val c =
     (let n = of_char c :: nat
      in if 48 \<le> n \<and> n \<le> 57 then Some (n - 48)
         else if 97 \<le> n \<and> n \<le> 102 then Some (n - 97 + 10)
         else if 65 \<le> n \<and> n \<le> 70 then Some (n - 65 + 10)
         else None)"

definition is_hex :: "char \<Rightarrow> bool" where
  "is_hex c \<longleftrightarrow> hex_val c \<noteq> None"

text \<open>
  The loop of \<open>parseIPv6\<close>: \<open>acc\<close> is \<open>ip[:i]\<close>, \<open>ell\<close> the position of the ellipsis.  A group is
  the longest run of hex digits, at most four of them.
\<close>

function v6_loop :: "nat option \<Rightarrow> bytes \<Rightarrow> string \<Rightarrow> (nat option \<times> bytes \<times> string) option" where
  "v6_loop ell acc s =
     (if \<not> length acc < 16 then Some (ell, acc, s)
      else
        let ds = takeWhile is_hex s;
            rest = dropWhile is_hex s;
            v = fold (\<lambda>c v. v * 16 + the (hex_val c)) ds (0 :: nat)
        in if length ds > 4 \<or> ds = [] then None
           else if rest \<noteq> [] \<and> hd rest = CHR ''.'' then
             if (ell = None \<and> length acc \<noteq> 12) \<or> length acc + 4 > 16 then None
             else map_option (\<lambda>b4. (ell, acc @ b4, [])) (parseIPv4 s)
           else
             let acc = acc @ [of_nat (v div 256), of_nat (v mod 256)]
             in if rest = [] then Some (ell, acc, [])
                else if hd rest \<noteq> CHR '':'' \<or> length rest = 1 then None
                else
                  let s = tl rest
                  in if hd s = CHR '':'' then
                       if ell \<noteq> None then None
                       else let ell = Some (length acc); s = tl s
                            in if s = [] then Some (ell, acc, []) else v6_loop ell acc s
                     else v6_loop ell acc s)"
  by pat_completeness auto
termination by (relation "measure (\<lambda>(ell, acc, s). 16 - length acc)") auto

declare v6_loop.simps [simp del]

definition parseIPv6 :: "string \<Rightarrow> bytes option" where
  "parseIPv6 s =
     (if CHR ''%'' \<in> set s then None
      else
        let (ell, s) = (if take 2 s = ''::'' then (Some 0, drop 2 s) else (None, s))
        in if ell \<noteq> None \<and> s = [] then Some (replicate 16 0)
           else
             (case v6_loop ell [] s of
                None \<Rightarrow> None
              | Some (ell, acc, s) \<Rightarrow>
                  if s \<noteq> [] then None
                  else if length acc < 16 then
                    (case ell of
                       None \<Rightarrow> None
                     | Some e \<Rightarrow> Some (take e acc @ replicate (16 - length acc) 0 @ drop e acc))
                  else if ell \<noteq> None then None
                  else Some acc))"

section \<open>Addresses\<close>

text \<open>\<open>netip.ParseAddr\<close>: 4 bytes for an IPv4 address, 16 for an IPv6 one.\<close>

definition ParseAddr :: "string \<Rightarrow> bytes option" where
  "ParseAddr s =
     (case dropWhile (\<lambda>c. c \<noteq> CHR ''.'' \<and> c \<noteq> CHR '':'' \<and> c \<noteq> CHR ''%'') s of
        [] \<Rightarrow> None
      | c # _ \<Rightarrow> if c = CHR ''.'' then parseIPv4 s else if c = CHR '':'' then parseIPv6 s else None)"

definition v4InV6Prefix :: bytes where
  "v4InV6Prefix = replicate 10 0 @ [0xFF, 0xFF]"

definition As16 :: "bytes \<Rightarrow> bytes" where
  "As16 ip = (if length ip = 4 then v4InV6Prefix @ ip else ip)"

definition ParseIP :: "string \<Rightarrow> bytes option" where
  "ParseIP s = map_option As16 (ParseAddr s)"

definition To4 :: "bytes \<Rightarrow> bytes option" where
  "To4 ip =
     (if length ip = 4 then Some ip
      else if length ip = 16 \<and> take 12 ip = v4InV6Prefix then Some (drop 12 ip)
      else None)"

definition IP_Equal :: "bytes \<Rightarrow> bytes \<Rightarrow> bool" where
  "IP_Equal ip x =
     (if length ip = length x then ip = x
      else if length ip = 4 \<and> length x = 16 then take 12 x = v4InV6Prefix \<and> ip = drop 12 x
      else if length ip = 16 \<and> length x = 4 then take 12 ip = v4InV6Prefix \<and> drop 12 ip = x
      else False)"

section \<open>Networks\<close>

fun CIDRMask_bytes :: "nat \<Rightarrow> nat \<Rightarrow> bytes" where
  "CIDRMask_bytes n 0 = []"
| "CIDRMask_bytes n (Suc l) =
     (if n \<ge> 8 then 0xFF # CIDRMask_bytes (n - 8) l
      else NOT (drop_bit n 0xFF) # CIDRMask_bytes 0 l)"

definition CIDRMask :: "nat \<Rightarrow> nat \<Rightarrow> bytes" where
  "CIDRMask ones bits = CIDRMask_bytes ones (bits div 8)"

definition IP_Mask :: "bytes \<Rightarrow> bytes \<Rightarrow> bytes option" where
  "IP_Mask ip msk =
     (let msk = (if length msk = 16 \<and> length ip = 4 \<and> list_all (\<lambda>b. b = 0xFF) (take 12 msk)
                  then drop 12 msk else msk);
          ip = (if length msk = 4 \<and> length ip = 16 \<and> take 12 ip = v4InV6Prefix then drop 12 ip else ip)
      in if length ip \<noteq> length msk then None else Some (map2 (AND) ip msk))"

text \<open>\<open>dtoi\<close> on the whole mask string.\<close>

definition dtoi_all :: "string \<Rightarrow> nat option" where
  "dtoi_all s = (if s = [] \<or> \<not> list_all is_digit s \<or> dec_val s \<ge> 0xFFFFFF then None else Some (dec_val s))"

record IPNet =
  net_IP :: bytes
  net_Mask :: bytes

definition ParseCIDR :: "string \<Rightarrow> IPNet option" where
  "ParseCIDR s =
     (let addr = takeWhile (\<lambda>c. c \<noteq> CHR ''/'') s; rest = dropWhile (\<lambda>c. c \<noteq> CHR ''/'') s
      in if rest = [] then None
         else
           (case (ParseAddr addr, dtoi_all (tl rest)) of
              (Some ip, Some n) \<Rightarrow>
                let bits = 8 * length ip
                in if n > bits then None
                   else
                     let m = CIDRMask n bits
                     in map_option (\<lambda>nn. \<lparr>net_IP = nn, net_Mask = m\<rparr>) (IP_Mask (As16 ip) m)
            | _ \<Rightarrow> None))"

definition networkNumberAndMask :: "IPNet \<Rightarrow> (bytes \<times> bytes) option" where
  "networkNumberAndMask n =
     (let ip = (case To4 (net_IP n) of Some x \<Rightarrow> x | None \<Rightarrow> net_IP n); m = net_Mask n
      in if length ip \<noteq> 4 \<and> length ip \<noteq> 16 then None
         else if length m = 4 then if length ip \<noteq> 4 then None else Some (ip, m)
         else if length m = 16 then Some (ip, if length ip = 4 then drop 12 m else m)
         else None)"

definition IPNet_Contains :: "IPNet \<Rightarrow> bytes \<Rightarrow> bool" where
  "IPNet_Contains n ip =
     (let (nn, m) = (case networkNumberAndMask n of Some x \<Rightarrow> x | None \<Rightarrow> ([], []));
          ip = (case To4 ip of Some x \<Rightarrow> x | None \<Rightarrow> ip)
      in length ip = length nn \<and>
         (\<forall>i < length ip. (nn ! i) AND (m ! i) = (ip ! i) AND (m ! i)))"

section \<open>Printing\<close>

text \<open>The decimal notation, to state what the parsers accept.\<close>

definition dec :: "nat \<Rightarrow> string" where
  "dec n =
     (if n < 10 then [char_of (48 + n)]
      else if n < 100 then [char_of (48 + n div 10), char_of (48 + n mod 10)]
      else [char_of (48 + n div 100), char_of (48 + n div 10 mod 10), char_of (48 + n mod 10)])"

definition dotted :: "bytes \<Rightarrow> string" where
  "dotted bs = concat (map (\<lambda>b. dec (unat b) @ ''.'') (butlast bs)) @ dec (unat (last bs))"

lemma digit_char:
  assumes "k < 10"
  shows "is_digit (char_of (48 + k))" and "digit_val (char_of (48 + k)) = k"
    and "char_of (48 + k) = CHR ''0'' \<longleftrightarrow> k = 0"
proof -
  have v: "of_char (char_of (48 + k) :: char) = 48 + k" using assms by (simp add: of_char_of)
  show "is_digit (char_of (48 + k))" "digit_val (char_of (48 + k)) = k"
    using assms by (simp_all add: is_digit_def digit_val_def v)
  have "char_of (48 + k) = CHR ''0'' \<longleftrightarrow> of_char (char_of (48 + k) :: char) = (of_char (CHR ''0'') :: nat)"
    by (simp only: of_char_eq_iff)
  also have "\<dots> \<longleftrightarrow> k = 0" unfolding v by simp
  finally show "char_of (48 + k) = CHR ''0'' \<longleftrightarrow> k = 0" .
qed

lemma dec_facts:
  assumes "n < 1000"
  shows "list_all is_digit (dec n)" and "dec n \<noteq> []" and "dec_val (dec n) = n"
    and "length (dec n) \<le> 3" and "length (dec n) > 1 \<Longrightarrow> hd (dec n) \<noteq> CHR ''0''"
proof -
  have k: "n < 10 \<Longrightarrow> n < 10" "n div 10 mod 10 < 10" "n mod 10 < 10" "n div 100 < 10" "n < 100 \<Longrightarrow> n div 10 < 10"
    using assms by auto
  note d = digit_char
  show "list_all is_digit (dec n)" using d(1) k by (auto simp: dec_def)
  show "dec n \<noteq> []" "length (dec n) \<le> 3" by (simp_all add: dec_def)
  have "(n div 100 * 10 + n div 10 mod 10) * 10 + n mod 10 = n"
  proof -
    have "n div 100 = n div 10 div 10" by (simp add: div_mult2_eq [symmetric])
    then show ?thesis by simp
  qed
  moreover have "n div 10 * 10 + n mod 10 = n" by simp
  ultimately show "dec_val (dec n) = n" using d(2) k by (auto simp: dec_def dec_val_def)
  show "hd (dec n) \<noteq> CHR ''0''" if "length (dec n) > 1"
  proof (cases "n < 100")
    case True
    with that have "\<not> n < 10" by (auto simp: dec_def)
    with True d(3) [of "n div 10"] show ?thesis by (simp add: dec_def)
  next
    case False
    with d(3) [OF k(4)] show ?thesis by (simp add: dec_def)
  qed
qed

lemma parse_octet_dec: "parse_octet (dec (unat b)) = Some b" for b :: byte
proof -
  have "unat b < 256" using unsigned_less [of b, where ?'a = nat] by simp
  with dec_facts [of "unat b"] show ?thesis by (auto simp: parse_octet_def)
qed

lemma dec_chars: "list_all is_digit (dec (unat b)) \<and> dec (unat b) \<noteq> []" for b :: byte
  using dec_facts [of "unat b"] unsigned_less [of b, where ?'a = nat] by simp

lemma dtoi_dec: "n < 1000 \<Longrightarrow> dtoi_all (dec n) = Some n"
  using dec_facts [of n] by (simp add: dtoi_all_def)

lemma split_on_ne [simp]: "split_on d s \<noteq> []"
  by (cases s) (auto split: list.split)

lemma split_on_app: "d \<notin> set c \<Longrightarrow> split_on d (c @ d # s) = c # split_on d s"
  by (induction c) auto

lemma split_on_single: "d \<notin> set c \<Longrightarrow> split_on d c = [c]"
  by (induction c) auto

lemma digit_not: "list_all is_digit w \<Longrightarrow> CHR ''.'' \<notin> set w \<and> CHR '':'' \<notin> set w \<and> CHR ''/'' \<notin> set w \<and> CHR ''%'' \<notin> set w"
  by (auto simp: list_all_iff is_digit_def)

lemma parseIPv4_dotted: "parseIPv4 (dotted [a, b, c, d]) = Some [a, b, c, d]"
proof -
  have dg: "CHR ''.'' \<notin> set (dec (unat x))" for x :: byte
    using digit_not [OF conjunct1 [OF dec_chars]] by blast
  have "split_on (CHR ''.'') (dotted [a, b, c, d]) = [dec (unat a), dec (unat b), dec (unat c), dec (unat d)]"
    by (simp add: dotted_def split_on_app split_on_single dg)
  then show ?thesis by (simp add: parseIPv4_def parse_octet_dec)
qed

section \<open>What the parsers and networks mean\<close>

lemma dropWhile_digits:
  "list_all is_digit w \<Longrightarrow> dropWhile (\<lambda>c. c \<noteq> CHR ''.'' \<and> c \<noteq> CHR '':'' \<and> c \<noteq> CHR ''%'') (w @ CHR ''.'' # s) = CHR ''.'' # s"
  by (induction w) (auto simp: is_digit_def)

lemma ParseAddr_dotted: "ParseAddr (dotted [a, b, c, d]) = Some [a, b, c, d]"
proof -
  have e: "dotted [a, b, c, d] = dec (unat a) @ CHR ''.'' # (dec (unat b) @ ''.'' @ dec (unat c) @ ''.'' @ dec (unat d))"
    by (simp add: dotted_def)
  show ?thesis
    unfolding ParseAddr_def using parseIPv4_dotted [of a b c d] dec_chars [of a]
    by (simp add: e dropWhile_digits)
qed

lemma hex_digit: "is_digit c \<Longrightarrow> is_hex c"
  by (simp add: is_digit_def is_hex_def hex_val_def Let_def)

lemma takeWhile_hex:
  assumes "list_all is_digit w"
  shows "takeWhile is_hex (w @ CHR ''.'' # s) = w"
    and "dropWhile is_hex (w @ CHR ''.'' # s) = CHR ''.'' # s"
proof -
  have dot: "\<not> is_hex (CHR ''.'')" by (simp add: is_hex_def hex_val_def)
  show "takeWhile is_hex (w @ CHR ''.'' # s) = w"
    using assms hex_digit dot by (subst takeWhile_append2) (auto simp: list_all_iff)
  show "dropWhile is_hex (w @ CHR ''.'' # s) = CHR ''.'' # s"
    using assms hex_digit dot by (subst dropWhile_append2) (auto simp: list_all_iff)
qed

lemma v6_loop_v4:
  "v6_loop (Some 0) [0xFF, 0xFF] (dotted [a, b, c, d]) = Some (Some 0, [0xFF, 0xFF, a, b, c, d], [])"
proof -
  have e: "dotted [a, b, c, d] = dec (unat a) @ CHR ''.'' # (dec (unat b) @ ''.'' @ dec (unat c) @ ''.'' @ dec (unat d))"
    by (simp add: dotted_def)
  have "unat a < 1000" using unsigned_less [of a, where ?'a = nat] by simp
  note f = dec_facts [OF this]
  show ?thesis
    using f parseIPv4_dotted [of a b c d]
    by (subst v6_loop.simps) (simp add: e takeWhile_hex Let_def)
qed

lemma v6_loop_mapped:
  "v6_loop (Some 0) [] (''ffff:'' @ dotted [a, b, c, d]) = Some (Some 0, [0xFF, 0xFF, a, b, c, d], [])"
proof -
  have h: "hex_val (CHR ''f'') = Some 15" "is_hex (CHR ''f'')" "\<not> is_hex (CHR '':'')"
    by (simp_all add: hex_val_def is_hex_def)
  have ne: "dotted [a, b, c, d] \<noteq> []" "hd (dotted [a, b, c, d]) \<noteq> CHR '':''"
    using dec_chars [of a] by (cases "dec (unat a)"; force simp: dotted_def is_digit_def)+
  show ?thesis
    using v6_loop_v4 [of a b c d] ne by (subst v6_loop.simps) (simp add: h Let_def)
qed

lemma dotted_chars: "c \<in> set (dotted [x1, x2, x3, x4]) \<Longrightarrow> is_digit c \<or> c = CHR ''.''"
  using dec_chars [of x1] dec_chars [of x2] dec_chars [of x3] dec_chars [of x4]
  by (auto simp: dotted_def list_all_iff)

lemma ParseAddr_mapped:
  "ParseAddr (''::ffff:'' @ dotted [a, b, c, d]) = Some (v4InV6Prefix @ [a, b, c, d])"
proof -
  have "CHR ''%'' \<notin> set (dotted [a, b, c, d])"
    using dotted_chars [of "CHR ''%''" a b c d] by (auto simp: is_digit_def)
  then show ?thesis
    using v6_loop_mapped [of a b c d]
    by (simp add: ParseAddr_def parseIPv6_def v4InV6Prefix_def Let_def)
qed

lemma bit_CIDRMask_bytes:
  "i < l \<Longrightarrow> bit (CIDRMask_bytes n l ! i) j \<longleftrightarrow> j < 8 \<and> 8 * i + (7 - j) < n"
proof (induction n l arbitrary: i rule: CIDRMask_bytes.induct)
  case (2 n l)
  have "(0xFF :: byte) = mask 8" by (simp add: mask_eq_exp_minus_1)
  then have ff: "bit (0xFF :: byte) k \<longleftrightarrow> k < 8" for k by (simp only: bit_mask_iff) auto
  show ?case
  proof (cases i)
    case 0
    have "(255 :: int) = mask 8" by (simp add: mask_eq_exp_minus_1)
    then have ffi: "bit (255 :: int) k \<longleftrightarrow> k < 8" for k by (simp only: bit_mask_iff) auto
    from 0 show ?thesis by (auto simp: bit_simps ff ffi)
  next
    case (Suc i')
    with 2 show ?thesis by auto
  qed
qed simp

text \<open>Two addresses agree on their first \<open>n\<close> bits, the most significant bit of the first byte first.\<close>

definition same_prefix :: "nat \<Rightarrow> bytes \<Rightarrow> bytes \<Rightarrow> bool" where
  "same_prefix n xs ys \<longleftrightarrow>
     (\<forall>k < n. bit (xs ! (k div 8)) (7 - k mod 8) = bit (ys ! (k div 8)) (7 - k mod 8))"

lemma masked_eq_iff:
  assumes "n \<le> 8 * l"
  shows "(\<forall>i < l. (xs ! i) AND (CIDRMask_bytes n l ! i) = (ys ! i) AND (CIDRMask_bytes n l ! i)) \<longleftrightarrow>
    same_prefix n xs ys"
proof
  assume eq: "\<forall>i < l. (xs ! i) AND (CIDRMask_bytes n l ! i) = (ys ! i) AND (CIDRMask_bytes n l ! i)"
  show "same_prefix n xs ys"
    unfolding same_prefix_def
  proof (intro allI impI)
    fix k assume k: "k < n"
    then have i: "k div 8 < l" using assms by auto
    have b: "bit (CIDRMask_bytes n l ! (k div 8)) (7 - k mod 8)"
      unfolding bit_CIDRMask_bytes [OF i] using k by (simp add: le_diff_conv)
    have "bit ((xs ! (k div 8)) AND (CIDRMask_bytes n l ! (k div 8))) (7 - k mod 8) =
        bit ((ys ! (k div 8)) AND (CIDRMask_bytes n l ! (k div 8))) (7 - k mod 8)"
      using eq i by simp
    with b show "bit (xs ! (k div 8)) (7 - k mod 8) = bit (ys ! (k div 8)) (7 - k mod 8)"
      by (simp add: bit_and_iff)
  qed
next
  assume sp: "same_prefix n xs ys"
  show "\<forall>i < l. (xs ! i) AND (CIDRMask_bytes n l ! i) = (ys ! i) AND (CIDRMask_bytes n l ! i)"
  proof (intro allI impI bit_eqI)
    fix i j assume i: "i < l"
    show "bit ((xs ! i) AND (CIDRMask_bytes n l ! i)) j = bit ((ys ! i) AND (CIDRMask_bytes n l ! i)) j"
    proof (cases "j < 8 \<and> 8 * i + (7 - j) < n")
      case True
      define r where "r = 7 - j"
      define k where "k = 8 * i + r"
      have "r < 8" by (simp add: r_def)
      then have k: "k div 8 = i" "k mod 8 = r" by (simp_all add: k_def)
      have "7 - r = j" "k < n" using True by (auto simp: k_def r_def)
      with sp [unfolded same_prefix_def, rule_format, of k] k have "bit (xs ! i) j = bit (ys ! i) j" by simp
      then show ?thesis by (simp add: bit_and_iff)
    next
      case False
      then show ?thesis by (simp only: bit_and_iff bit_CIDRMask_bytes [OF i] simp_thms)
    qed
  qed
qed

lemma length_CIDRMask_bytes [simp]: "length (CIDRMask_bytes n l) = l"
  by (induction n l rule: CIDRMask_bytes.induct) auto

end
