(* ===== verification/RateLimiter.thy ===== *)
theory RateLimiter
  imports Prelude
begin

text \<open>
  Rate limiting (\<open>rate_limiter.go\<close>).  Token counts are exact reals where the code has float64:
  rounding is not modelled.  A call that reads the clock several times takes the readings as a
  function \<open>clk\<close>, \<open>clk 0\<close> being the first one; the readings of one cleanup pass are one instant.
\<close>

section \<open>Token bucket\<close>

record TokenBucket =
  tokens :: real
  maxTokens :: real
  refillRate :: real
  lastRefill :: time

definition seconds :: "duration \<Rightarrow> real" where
  "seconds d = of_int d / 1000000000"

definition NewTokenBucket :: "real \<Rightarrow> int \<Rightarrow> time \<Rightarrow> TokenBucket" where
  "NewTokenBucket rate burst now =
     \<lparr>tokens = of_int burst, maxTokens = of_int burst, refillRate = rate, lastRefill = now\<rparr>"

definition TokenBucket_AllowN :: "int \<Rightarrow> time \<Rightarrow> TokenBucket \<Rightarrow> bool \<times> TokenBucket" where
  "TokenBucket_AllowN n now tb =
     (let elapsed = seconds (now - lastRefill tb);
          tb = tb\<lparr>tokens := tokens tb + elapsed * refillRate tb\<rparr>;
          tb = (if tokens tb > maxTokens tb then tb\<lparr>tokens := maxTokens tb\<rparr> else tb);
          tb = tb\<lparr>lastRefill := now\<rparr>
      in if tokens tb \<ge> of_int n then (True, tb\<lparr>tokens := tokens tb - of_int n\<rparr>) else (False, tb))"

definition TokenBucket_Allow :: "time \<Rightarrow> TokenBucket \<Rightarrow> bool \<times> TokenBucket" where
  "TokenBucket_Allow now tb =
     (let elapsed = seconds (now - lastRefill tb);
          tb = tb\<lparr>tokens := tokens tb + elapsed * refillRate tb\<rparr>;
          tb = (if tokens tb > maxTokens tb then tb\<lparr>tokens := maxTokens tb\<rparr> else tb);
          tb = tb\<lparr>lastRefill := now\<rparr>
      in if tokens tb \<ge> 1 then (True, tb\<lparr>tokens := tokens tb - 1\<rparr>) else (False, tb))"

definition TokenBucket_Tokens :: "time \<Rightarrow> TokenBucket \<Rightarrow> real" where
  "TokenBucket_Tokens now tb =
     (let elapsed = seconds (now - lastRefill tb);
          toks = tokens tb + elapsed * refillRate tb
      in if toks > maxTokens tb then maxTokens tb else toks)"

section \<open>Sliding window\<close>

record SlidingWindow =
  sw_window :: duration
  sw_maxCount :: int
  sw_requests :: "time list"

definition NewSlidingWindow :: "duration \<Rightarrow> int \<Rightarrow> SlidingWindow" where
  "NewSlidingWindow win maxc = \<lparr>sw_window = win, sw_maxCount = maxc, sw_requests = []\<rparr>"

definition SlidingWindow_Allow :: "time \<Rightarrow> SlidingWindow \<Rightarrow> bool \<times> SlidingWindow" where
  "SlidingWindow_Allow now sw =
     (let cutoff = now - sw_window sw;
          sw = sw\<lparr>sw_requests := filter (\<lambda>t. t > cutoff) (sw_requests sw)\<rparr>
      in if int (length (sw_requests sw)) < sw_maxCount sw
         then (True, sw\<lparr>sw_requests := sw_requests sw @ [now]\<rparr>)
         else (False, sw))"

definition SlidingWindow_Count :: "time \<Rightarrow> SlidingWindow \<Rightarrow> nat" where
  "SlidingWindow_Count now sw =
     (let cutoff = now - sw_window sw
      in fold (\<lambda>t count. if t > cutoff then count + 1 else count) (sw_requests sw) 0)"

section \<open>Per-IP limiter\<close>

record PerIPLimiter =
  ip_limiters :: "(string, TokenBucket) gomap"
  ip_rate :: real
  ip_burst :: int
  ip_lastCleanup :: time
  ip_cleanupInterval :: duration

definition NewPerIPLimiter :: "real \<Rightarrow> int \<Rightarrow> duration \<Rightarrow> time \<Rightarrow> PerIPLimiter" where
  "NewPerIPLimiter rate burst iv now =
     \<lparr>ip_limiters = [], ip_rate = rate, ip_burst = burst, ip_lastCleanup = now, ip_cleanupInterval = iv\<rparr>"

text \<open>At most 100 full buckets are dropped per pass; which ones is up to Go's map order.\<close>

definition PerIPLimiter_cleanup :: "time \<Rightarrow> PerIPLimiter \<Rightarrow> PerIPLimiter" where
  "PerIPLimiter_cleanup now pl =
     (let toDelete = take 100 (map fst (filter (\<lambda>(ip, lim). TokenBucket_Tokens now lim \<ge> of_int (ip_burst pl))
                       (ip_limiters pl)))
      in pl\<lparr>ip_limiters := fold AList.delete toDelete (ip_limiters pl)\<rparr>)"

definition PerIPLimiter_Allow :: "string \<Rightarrow> (nat \<Rightarrow> time) \<Rightarrow> PerIPLimiter \<Rightarrow> bool \<times> PerIPLimiter" where
  "PerIPLimiter_Allow ip clk pl =
     (let pl = (if clk 0 - ip_lastCleanup pl > ip_cleanupInterval pl
                then (PerIPLimiter_cleanup (clk 1) pl)\<lparr>ip_lastCleanup := clk 2\<rparr> else pl);
          limiter = (case map_of (ip_limiters pl) ip of
                       Some l \<Rightarrow> l | None \<Rightarrow> NewTokenBucket (ip_rate pl) (ip_burst pl) (clk 3));
          (ok, limiter) = TokenBucket_Allow (clk 4) limiter
      in (ok, pl\<lparr>ip_limiters := AList.update ip limiter (ip_limiters pl)\<rparr>))"

definition PerIPLimiter_GetStats :: "time \<Rightarrow> PerIPLimiter \<Rightarrow> (string, real) gomap" where
  "PerIPLimiter_GetStats now pl = map (\<lambda>(ip, l). (ip, TokenBucket_Tokens now l)) (ip_limiters pl)"

section \<open>Per-operation limiter\<close>

datatype OperationType = OpTypeReadLarge | OpTypeWriteLarge | OpTypeReaddir | OpTypeMount

record RateLimiterConfig =
  GlobalRequestsPerSecond :: int
  PerIPRequestsPerSecond :: int
  PerIPBurstSize :: int
  PerConnectionRequestsPerSecond :: int
  PerConnectionBurstSize :: int
  ReadLargeOpsPerSecond :: int
  WriteLargeOpsPerSecond :: int
  ReaddirOpsPerSecond :: int
  MountOpsPerMinute :: int
  FileHandlesPerIP :: int
  FileHandlesGlobal :: int
  CleanupInterval :: duration

definition DefaultRateLimiterConfig :: RateLimiterConfig where
  "DefaultRateLimiterConfig =
     \<lparr>GlobalRequestsPerSecond = 10000, PerIPRequestsPerSecond = 1000, PerIPBurstSize = 500,
      PerConnectionRequestsPerSecond = 500, PerConnectionBurstSize = 100,
      ReadLargeOpsPerSecond = 100, WriteLargeOpsPerSecond = 50, ReaddirOpsPerSecond = 50,
      MountOpsPerMinute = 10, FileHandlesPerIP = 10000, FileHandlesGlobal = 1000000,
      CleanupInterval = 300 * second\<rparr>"

record PerOperationLimiter =
  op_limiters :: "(string, (OperationType, TokenBucket) gomap) gomap"
  op_rates :: "OperationType \<Rightarrow> real"
  op_bursts :: "OperationType \<Rightarrow> int"
  op_lastCleanup :: time
  op_cleanupInterval :: duration

definition NewPerOperationLimiter :: "RateLimiterConfig \<Rightarrow> time \<Rightarrow> PerOperationLimiter" where
  "NewPerOperationLimiter config now =
     \<lparr>op_limiters = [],
      op_rates = (\<lambda>op. case op of
          OpTypeReadLarge \<Rightarrow> of_int (ReadLargeOpsPerSecond config)
        | OpTypeWriteLarge \<Rightarrow> of_int (WriteLargeOpsPerSecond config)
        | OpTypeReaddir \<Rightarrow> of_int (ReaddirOpsPerSecond config)
        | OpTypeMount \<Rightarrow> of_int (MountOpsPerMinute config) / 60),
      op_bursts = (\<lambda>op. case op of
          OpTypeReadLarge \<Rightarrow> 10 | OpTypeWriteLarge \<Rightarrow> 5 | OpTypeReaddir \<Rightarrow> 5 | OpTypeMount \<Rightarrow> 2),
      op_lastCleanup = now, op_cleanupInterval = CleanupInterval config\<rparr>"

definition PerOperationLimiter_cleanup :: "time \<Rightarrow> PerOperationLimiter \<Rightarrow> PerOperationLimiter" where
  "PerOperationLimiter_cleanup now pol =
     pol\<lparr>op_limiters := filter (\<lambda>(ip, lims).
        \<not> list_all (\<lambda>(op, lim). \<not> TokenBucket_Tokens now lim < of_int (op_bursts pol op)) lims)
        (op_limiters pol)\<rparr>"

definition PerOperationLimiter_Allow ::
    "string \<Rightarrow> OperationType \<Rightarrow> (nat \<Rightarrow> time) \<Rightarrow> PerOperationLimiter \<Rightarrow> bool \<times> PerOperationLimiter" where
  "PerOperationLimiter_Allow ip op clk pol =
     (let pol = (if clk 0 - op_lastCleanup pol > op_cleanupInterval pol
                 then (PerOperationLimiter_cleanup (clk 1) pol)\<lparr>op_lastCleanup := clk 2\<rparr> else pol);
          ipLimiters = (case map_of (op_limiters pol) ip of Some m \<Rightarrow> m | None \<Rightarrow> []);
          limiter = (case map_of ipLimiters op of
                       Some l \<Rightarrow> l | None \<Rightarrow> NewTokenBucket (op_rates pol op) (op_bursts pol op) (clk 3));
          (ok, limiter) = TokenBucket_Allow (clk 4) limiter
      in (ok, pol\<lparr>op_limiters := AList.update ip (AList.update op limiter ipLimiters) (op_limiters pol)\<rparr>))"

section \<open>The limiter of the server\<close>

record RateLimiter =
  rl_config :: RateLimiterConfig
  globalLimiter :: TokenBucket
  perIPLimiter :: PerIPLimiter
  perConnectionLimiter :: "(string, TokenBucket) gomap"
  perOperationLimiter :: PerOperationLimiter
  fileHandlesPerIP :: "(string, int) gomap"
  fileHandlesGlobal :: int

definition NewRateLimiter :: "RateLimiterConfig \<Rightarrow> (nat \<Rightarrow> time) \<Rightarrow> RateLimiter" where
  "NewRateLimiter config clk =
     \<lparr>rl_config = config,
      globalLimiter = NewTokenBucket (of_int (GlobalRequestsPerSecond config)) (GlobalRequestsPerSecond config) (clk 0),
      perIPLimiter = NewPerIPLimiter (of_int (PerIPRequestsPerSecond config)) (PerIPBurstSize config)
        (CleanupInterval config) (clk 1),
      perConnectionLimiter = [],
      perOperationLimiter = NewPerOperationLimiter config (clk 2),
      fileHandlesPerIP = [], fileHandlesGlobal = 0\<rparr>"

definition AllowRequest ::
    "string \<Rightarrow> string \<Rightarrow> (nat \<Rightarrow> time) \<Rightarrow> RateLimiter \<Rightarrow> bool \<times> RateLimiter" where
  "AllowRequest ip connID clk rl =
     (case TokenBucket_Allow (clk 0) (globalLimiter rl) of
        (False, g) \<Rightarrow> (False, rl\<lparr>globalLimiter := g\<rparr>)
      | (True, g) \<Rightarrow>
          let rl = rl\<lparr>globalLimiter := g\<rparr>
          in case PerIPLimiter_Allow ip (\<lambda>i. clk (1 + i)) (perIPLimiter rl) of
               (False, p) \<Rightarrow> (False, rl\<lparr>perIPLimiter := p\<rparr>)
             | (True, p) \<Rightarrow>
                 let rl = rl\<lparr>perIPLimiter := p\<rparr>
                 in if PerConnectionRequestsPerSecond (rl_config rl) > 0 then
                      let limiter = (case map_of (perConnectionLimiter rl) connID of
                             Some l \<Rightarrow> l
                           | None \<Rightarrow> NewTokenBucket (of_int (PerConnectionRequestsPerSecond (rl_config rl)))
                                      (PerConnectionBurstSize (rl_config rl)) (clk 6));
                          (ok, limiter) = TokenBucket_Allow (clk 7) limiter
                      in (ok, rl\<lparr>perConnectionLimiter := AList.update connID limiter (perConnectionLimiter rl)\<rparr>)
                    else (True, rl))"

definition AllowOperation ::
    "string \<Rightarrow> OperationType \<Rightarrow> (nat \<Rightarrow> time) \<Rightarrow> RateLimiter \<Rightarrow> bool \<times> RateLimiter" where
  "AllowOperation ip op clk rl =
     (let (ok, p) = PerOperationLimiter_Allow ip op clk (perOperationLimiter rl)
      in (ok, rl\<lparr>perOperationLimiter := p\<rparr>))"

definition AllocateFileHandle :: "string \<Rightarrow> RateLimiter \<Rightarrow> bool \<times> RateLimiter" where
  "AllocateFileHandle ip rl =
     (if FileHandlesGlobal (rl_config rl) > 0 \<and> fileHandlesGlobal rl \<ge> FileHandlesGlobal (rl_config rl)
      then (False, rl)
      else if FileHandlesPerIP (rl_config rl) > 0 then
        let count = (case map_of (fileHandlesPerIP rl) ip of Some c \<Rightarrow> c | None \<Rightarrow> 0)
        in if count \<ge> FileHandlesPerIP (rl_config rl)
           then (False, rl\<lparr>fileHandlesPerIP := AList.update ip count (fileHandlesPerIP rl)\<rparr>)
           else (True, rl\<lparr>fileHandlesPerIP := AList.update ip (count + 1) (fileHandlesPerIP rl),
                          fileHandlesGlobal := fileHandlesGlobal rl + 1\<rparr>)
      else (True, rl\<lparr>fileHandlesGlobal := fileHandlesGlobal rl + 1\<rparr>))"

definition ReleaseFileHandle :: "string \<Rightarrow> RateLimiter \<Rightarrow> RateLimiter" where
  "ReleaseFileHandle ip rl =
     (let rl = (if fileHandlesGlobal rl > 0 then rl\<lparr>fileHandlesGlobal := fileHandlesGlobal rl - 1\<rparr> else rl)
      in case map_of (fileHandlesPerIP rl) ip of
           Some count \<Rightarrow>
             if count > 0 then rl\<lparr>fileHandlesPerIP := AList.update ip (count - 1) (fileHandlesPerIP rl)\<rparr> else rl
         | None \<Rightarrow> rl)"

definition CleanupConnection :: "string \<Rightarrow> RateLimiter \<Rightarrow> RateLimiter" where
  "CleanupConnection connID rl = rl\<lparr>perConnectionLimiter := AList.delete connID (perConnectionLimiter rl)\<rparr>"

record RateLimiterStats =
  global_tokens :: real
  per_ip_stats :: "(string, real) gomap"
  file_handles_global :: int

definition RateLimiter_GetStats :: "(nat \<Rightarrow> time) \<Rightarrow> RateLimiter \<Rightarrow> RateLimiterStats" where
  "RateLimiter_GetStats clk rl =
     \<lparr>global_tokens = TokenBucket_Tokens (clk 0) (globalLimiter rl),
      per_ip_stats = PerIPLimiter_GetStats (clk 1) (perIPLimiter rl),
      file_handles_global = fileHandlesGlobal rl\<rparr>"

section \<open>Bounds\<close>

definition tb_inv :: "TokenBucket \<Rightarrow> bool" where
  "tb_inv tb \<longleftrightarrow> 0 \<le> tokens tb \<and> tokens tb \<le> maxTokens tb \<and> 0 \<le> refillRate tb"

text \<open>A sequence of requests at the times \<open>ts\<close>: how many are allowed, and the bucket afterwards.\<close>

fun tb_run :: "time list \<Rightarrow> TokenBucket \<Rightarrow> nat \<times> TokenBucket" where
  "tb_run [] tb = (0, tb)"
| "tb_run (t # ts) tb =
     (let (ok, tb) = TokenBucket_Allow t tb; (n, tb) = tb_run ts tb
      in ((if ok then n + 1 else n), tb))"

lemma TokenBucket_Allow_step:
  assumes "tb_inv tb" and "lastRefill tb \<le> now" and "TokenBucket_Allow now tb = (ok, tb')"
  shows "tb_inv tb'" and "lastRefill tb' = now" and "refillRate tb' = refillRate tb"
    and "maxTokens tb' = maxTokens tb"
    and "(if ok then 1 else 0) + tokens tb' \<le> tokens tb + refillRate tb * seconds (now - lastRefill tb)"
proof -
  have e: "0 \<le> seconds (now - lastRefill tb) * refillRate tb"
    using assms(1,2) by (simp add: tb_inv_def seconds_def)
  show "tb_inv tb'" "lastRefill tb' = now" "refillRate tb' = refillRate tb" "maxTokens tb' = maxTokens tb"
    "(if ok then 1 else 0) + tokens tb' \<le> tokens tb + refillRate tb * seconds (now - lastRefill tb)"
    using assms(1,3) e
    by (auto simp: TokenBucket_Allow_def tb_inv_def Let_def mult.commute split: if_splits)
qed

lemma tb_run_bound:
  "tb_inv tb \<Longrightarrow> sorted (lastRefill tb # ts) \<Longrightarrow> tb_run ts tb = (n, tb') \<Longrightarrow>
    real n + tokens tb' \<le> tokens tb + refillRate tb * seconds (last (lastRefill tb # ts) - lastRefill tb) \<and>
    tb_inv tb'"
proof (induction ts arbitrary: tb n tb')
  case Nil
  then show ?case by (simp add: seconds_def)
next
  case (Cons t ts)
  obtain ok tb1 where a: "TokenBucket_Allow t tb = (ok, tb1)" by fastforce
  obtain m tb2 where r: "tb_run ts tb1 = (m, tb2)" by fastforce
  have le: "lastRefill tb \<le> t" using Cons.prems(2) by simp
  note st = TokenBucket_Allow_step [OF Cons.prems(1) le a]
  have "sorted (lastRefill tb1 # ts)" using Cons.prems(2) st(2) by simp
  note IH = Cons.IH [OF st(1) this r]
  have n: "n = (if ok then m + 1 else m)" and tb': "tb' = tb2"
    using Cons.prems(3) by (auto simp: a r Let_def)
  let ?l = "last (t # ts)"
  have "seconds (?l - lastRefill tb) = seconds (t - lastRefill tb) + seconds (?l - t)"
    by (simp add: seconds_def field_simps)
  then have "refillRate tb * seconds (?l - lastRefill tb) =
      refillRate tb * seconds (t - lastRefill tb) + refillRate tb * seconds (?l - t)"
    by (simp add: distrib_left)
  with IH st(2,3,5) show ?case by (auto simp: n tb' split: if_splits)
qed

fun sw_run :: "time list \<Rightarrow> SlidingWindow \<Rightarrow> time list \<times> SlidingWindow" where
  "sw_run [] sw = ([], sw)"
| "sw_run (t # ts) sw =
     (let (ok, sw) = SlidingWindow_Allow t sw; (as, sw) = sw_run ts sw
      in ((if ok then t # as else as), sw))"

text \<open>
  \<open>sw_good w c old\<close>: \<open>old\<close> are the times admitted so far, none later than \<open>c\<close>, no window of length
  \<open>w\<close> among them is over the limit, and the limiter remembers exactly those still in the window.
\<close>

definition in_window :: "duration \<Rightarrow> time \<Rightarrow> time \<Rightarrow> bool" where
  "in_window w a t \<longleftrightarrow> a - w < t \<and> t \<le> a"

definition sw_good :: "time \<Rightarrow> time list \<Rightarrow> SlidingWindow \<Rightarrow> bool" where
  "sw_good c old sw \<longleftrightarrow>
     0 \<le> sw_maxCount sw \<and> (\<forall>t \<in> set old. t \<le> c) \<and>
     filter (\<lambda>t. t > c - sw_window sw) (sw_requests sw) = filter (\<lambda>t. t > c - sw_window sw) old \<and>
     (\<forall>a. int (length (filter (in_window (sw_window sw) a) old)) \<le> sw_maxCount sw)"

lemma SlidingWindow_Allow_good:
  assumes g: "sw_good c old sw" and le: "c \<le> now" and a: "SlidingWindow_Allow now sw = (ok, sw')"
  shows "sw_good now (if ok then old @ [now] else old) sw'" and "sw_window sw' = sw_window sw"
    and "sw_maxCount sw' = sw_maxCount sw"
proof -
  let ?w = "sw_window sw"
  have sub: "filter (\<lambda>t. t > now - ?w) xs = filter (\<lambda>t. t > now - ?w) (filter (\<lambda>t. t > c - ?w) xs)" for xs :: "time list"
    using le by (auto intro: filter_cong)
  have eq: "filter (\<lambda>t. t > now - ?w) (sw_requests sw) = filter (\<lambda>t. t > now - ?w) old"
    using g sub [of "sw_requests sw"] sub [of old] by (simp add: sw_good_def)
  show w: "sw_window sw' = ?w" and m: "sw_maxCount sw' = sw_maxCount sw"
    using a by (auto simp: SlidingWindow_Allow_def Let_def split: if_splits)
  have old: "\<forall>t \<in> set old. t \<le> now" using g le by (fastforce simp: sw_good_def)
  show "sw_good now (if ok then old @ [now] else old) sw'"
  proof (cases ok)
    case True
    then have r: "sw_requests sw' = filter (\<lambda>t. t > now - ?w) old @ [now]"
      and len: "int (length (filter (\<lambda>t. t > now - ?w) old)) < sw_maxCount sw"
      using a eq by (auto simp: SlidingWindow_Allow_def Let_def split: if_splits)
    have "int (length (filter (in_window ?w b) (old @ [now]))) \<le> sw_maxCount sw" for b
    proof (cases "in_window ?w b now")
      case True
      have "length (filter (in_window ?w b) old) \<le> length (filter (\<lambda>t. t > now - ?w) old)"
        using True unfolding in_window_def by (induction old) auto
      with len True show ?thesis by simp
    next
      case False
      then show ?thesis using g by (simp add: sw_good_def)
    qed
    then show ?thesis
      using True g old r w m by (simp add: sw_good_def)
  next
    case False
    then have "sw_requests sw' = filter (\<lambda>t. t > now - ?w) old"
      using a eq by (auto simp: SlidingWindow_Allow_def Let_def split: if_splits)
    then show ?thesis using False g old w m by (simp add: sw_good_def)
  qed
qed

lemma sw_run_good:
  "sw_good c old sw \<Longrightarrow> sorted (c # ts) \<Longrightarrow> sw_run ts sw = (as, sw') \<Longrightarrow>
    sw_good (last (c # ts)) (old @ as) sw' \<and> sw_window sw' = sw_window sw \<and> sw_maxCount sw' = sw_maxCount sw"
proof (induction ts arbitrary: c old sw as sw')
  case (Cons t ts)
  obtain ok sw1 where a: "SlidingWindow_Allow t sw = (ok, sw1)" by fastforce
  obtain as1 sw2 where r: "sw_run ts sw1 = (as1, sw2)" by fastforce
  have le: "c \<le> t" and so: "sorted (t # ts)" using Cons.prems(2) by auto
  note st = SlidingWindow_Allow_good [OF Cons.prems(1) le a]
  note IH = Cons.IH [OF st(1) so r]
  have "as = (if ok then t # as1 else as1)" "sw' = sw2" using Cons.prems(3) by (auto simp: a r Let_def)
  with IH st(2,3) show ?case by (cases ok) auto
qed simp

section \<open>Properties\<close>

text \<open>
  C23: A token bucket enforces its rate: over any sequence of requests at non-decreasing times, the
  number of requests it lets through is at most the burst size plus the rate times the elapsed
  seconds, from any state in which the bucket is not over-full; the bucket never goes negative nor
  above its maximum.
\<close>

theorem token_bucket_rate_bound:
  assumes "tb_inv tb" and "sorted (lastRefill tb # ts)"
  shows "real (fst (tb_run ts tb)) \<le>
      maxTokens tb + refillRate tb * seconds (last (lastRefill tb # ts) - lastRefill tb) \<and>
    tb_inv (snd (tb_run ts tb))"
proof -
  obtain n tb' where r: "tb_run ts tb = (n, tb')" by fastforce
  from tb_run_bound [OF assms r] assms(1) show ?thesis by (auto simp: r tb_inv_def)
qed

theorem token_bucket_rate_bound_witness:
  "real (fst (tb_run [0, 0, 0, 1000000000] (NewTokenBucket 2 2 0))) \<le> 4"
  using token_bucket_rate_bound [of "NewTokenBucket 2 2 0" "[0, 0, 0, 1000000000]"]
  by (simp add: tb_inv_def NewTokenBucket_def seconds_def)

text \<open>
  C24: A sliding window is never exceeded: for requests at non-decreasing times, every window of the
  configured length ending at any instant contains at most \<open>maxCount\<close> admitted requests.
\<close>

theorem sliding_window_bound:
  assumes "0 \<le> maxc" and "sorted ts"
  shows "int (length (filter (in_window win a) (fst (sw_run ts (NewSlidingWindow win maxc))))) \<le> maxc"
proof (cases ts)
  case Nil
  with assms show ?thesis by simp
next
  case (Cons t us)
  obtain as sw where r: "sw_run ts (NewSlidingWindow win maxc) = (as, sw)" by fastforce
  have "sw_good t [] (NewSlidingWindow win maxc)"
    using assms(1) by (simp add: sw_good_def NewSlidingWindow_def)
  moreover have "sorted (t # ts)" using assms(2) Cons by auto
  ultimately have "sw_good (last (t # ts)) ([] @ as) sw \<and> sw_window sw = win \<and> sw_maxCount sw = maxc"
    using sw_run_good [of t "[]" _ ts as sw] r by (simp add: NewSlidingWindow_def)
  then show ?thesis by (auto simp: r sw_good_def)
qed

theorem sliding_window_bound_witness:
  "int (length (filter (in_window 10 3) (fst (sw_run [1, 2, 3] (NewSlidingWindow 10 2))))) \<le> 2"
  by (rule sliding_window_bound) simp_all

definition quota_ok :: "RateLimiter \<Rightarrow> bool" where
  "quota_ok rl \<longleftrightarrow>
     0 \<le> fileHandlesGlobal rl \<and>
     (FileHandlesGlobal (rl_config rl) > 0 \<longrightarrow> fileHandlesGlobal rl \<le> FileHandlesGlobal (rl_config rl)) \<and>
     (\<forall>ip c. map_of (fileHandlesPerIP rl) ip = Some c \<longrightarrow>
        0 \<le> c \<and> (FileHandlesPerIP (rl_config rl) > 0 \<longrightarrow> c \<le> FileHandlesPerIP (rl_config rl)))"

text \<open>
  File handle quotas hold: granting and returning handles keeps the global count within the
  global limit, every client's count within the per-client limit, and no count negative.
\<close>

theorem file_handle_quota:
  assumes "quota_ok rl"
  shows "quota_ok (snd (AllocateFileHandle ip rl)) \<and> quota_ok (ReleaseFileHandle ip rl)"
proof
  show "quota_ok (snd (AllocateFileHandle ip rl))"
    using assms by (auto simp: quota_ok_def AllocateFileHandle_def Let_def split: option.split intro!: antisym)
  have "c - 1 \<le> FileHandlesPerIP (rl_config rl)"
    if "map_of (fileHandlesPerIP rl) ip = Some c" "0 < FileHandlesPerIP (rl_config rl)" for c
    using assms that by (fastforce simp: quota_ok_def)
  with assms show "quota_ok (ReleaseFileHandle ip rl)"
    by (auto simp: quota_ok_def ReleaseFileHandle_def Let_def split: option.split)
qed

section \<open>Cleaning up\<close>

text \<open>
  Requests handled one after the other, each with its address and clock readings, and what a limiter
  promises for them: every address has a bucket of its own that was full when the limiter was created
  and is never dropped.
\<close>

fun PerIPLimiter_run :: "(string \<times> (nat \<Rightarrow> time)) list \<Rightarrow> PerIPLimiter \<Rightarrow> bool list" where
  "PerIPLimiter_run [] pl = []"
| "PerIPLimiter_run ((ip, clk) # reqs) pl =
     (let (ok, pl) = PerIPLimiter_Allow ip clk pl in ok # PerIPLimiter_run reqs pl)"

fun own_buckets_run :: "(string \<times> (nat \<Rightarrow> time)) list \<Rightarrow> (string \<Rightarrow> TokenBucket) \<Rightarrow> bool list" where
  "own_buckets_run [] bs = []"
| "own_buckets_run ((ip, clk) # reqs) bs =
     (let (ok, tb) = TokenBucket_Allow (clk 4) (bs ip) in ok # own_buckets_run reqs (bs(ip := tb)))"

fun readings_from :: "time \<Rightarrow> (string \<times> (nat \<Rightarrow> time)) list \<Rightarrow> bool" where
  "readings_from t [] \<longleftrightarrow> True"
| "readings_from t ((ip, clk) # reqs) \<longleftrightarrow>
     t \<le> clk 0 \<and> clk 0 \<le> clk 1 \<and> clk 1 \<le> clk 2 \<and> clk 2 \<le> clk 3 \<and> clk 3 \<le> clk 4 \<and> readings_from (clk 4) reqs"

definition bucket_of :: "real \<Rightarrow> int \<Rightarrow> TokenBucket \<Rightarrow> bool" where
  "bucket_of rate burst tb \<longleftrightarrow> maxTokens tb = of_int burst \<and> refillRate tb = rate"

text \<open>The map of the limiter against the buckets that are never dropped: what it lacks is full.\<close>

definition ip_sim :: "time \<Rightarrow> PerIPLimiter \<Rightarrow> (string \<Rightarrow> TokenBucket) \<Rightarrow> bool" where
  "ip_sim t pl bs \<longleftrightarrow> gm_ok (ip_limiters pl) \<and>
     (\<forall>ip. bucket_of (ip_rate pl) (ip_burst pl) (bs ip)) \<and>
     (\<forall>ip tb. map_of (ip_limiters pl) ip = Some tb \<longrightarrow> tb = bs ip) \<and>
     (\<forall>ip. map_of (ip_limiters pl) ip = None \<longrightarrow> TokenBucket_Tokens t (bs ip) \<ge> of_int (ip_burst pl))"

lemma tokens_full_mono:
  assumes "bucket_of rate burst tb" and "0 \<le> rate" and "t \<le> t'" and "TokenBucket_Tokens t tb \<ge> of_int burst"
  shows "TokenBucket_Tokens t' tb \<ge> of_int burst"
proof -
  have "seconds (t - lastRefill tb) * rate \<le> seconds (t' - lastRefill tb) * rate"
    using assms by (intro mult_right_mono) (auto simp: seconds_def divide_right_mono)
  then show ?thesis
    using assms by (auto simp: TokenBucket_Tokens_def bucket_of_def Let_def split: if_splits)
qed

lemma full_like_new:
  assumes "bucket_of rate burst tb" and "0 \<le> rate" and "t \<le> t'" and "TokenBucket_Tokens t' tb \<ge> of_int burst"
  shows "TokenBucket_Allow t' (NewTokenBucket rate burst t) = TokenBucket_Allow t' tb"
proof -
  have "0 \<le> seconds (t' - t) * rate"
    using assms by (simp add: seconds_def)
  then show ?thesis
    using assms
    by (cases tb) (auto simp: TokenBucket_Allow_def NewTokenBucket_def TokenBucket_Tokens_def bucket_of_def
        Let_def split: if_splits)
qed

lemma bucket_of_Allow: "bucket_of rate burst tb \<Longrightarrow> TokenBucket_Allow t tb = (ok, tb') \<Longrightarrow> bucket_of rate burst tb'"
  by (auto simp: bucket_of_def TokenBucket_Allow_def Let_def split: if_splits)

lemma map_of_fold_delete: "map_of (fold AList.delete ks m) k = (if k \<in> set ks then None else map_of m k)"
  by (induction ks arbitrary: m) (auto simp: AList.delete_conv)

lemma gm_ok_fold_delete: "gm_ok m \<Longrightarrow> gm_ok (fold AList.delete ks m)"
  by (induction ks arbitrary: m) auto

text \<open>A cleanup pass drops nothing but full buckets.\<close>

lemma ip_sim_cleanup:
  assumes "ip_sim t pl bs" and "0 \<le> ip_rate pl" and "t \<le> t'"
  shows "ip_sim t' (PerIPLimiter_cleanup t' pl) bs"
proof -
  let ?del = "take 100 (map fst (filter (\<lambda>(ip, lim). TokenBucket_Tokens t' lim \<ge> of_int (ip_burst pl)) (ip_limiters pl)))"
  have ok: "gm_ok (ip_limiters pl)" using assms(1) by (simp add: ip_sim_def)
  have dropped: "TokenBucket_Tokens t' (bs ip) \<ge> of_int (ip_burst pl)" if ip: "ip \<in> set ?del" for ip
  proof -
    from ip obtain tb where "(ip, tb) \<in> set (ip_limiters pl)" "TokenBucket_Tokens t' tb \<ge> of_int (ip_burst pl)"
      by (auto dest!: in_set_takeD)
    with ok have "map_of (ip_limiters pl) ip = Some tb" by (simp add: gm_ok_def)
    with assms(1) \<open>TokenBucket_Tokens t' tb \<ge> of_int (ip_burst pl)\<close> show ?thesis
      by (auto simp: ip_sim_def)
  qed
  have kept: "TokenBucket_Tokens t' (bs ip) \<ge> of_int (ip_burst pl)" if "map_of (ip_limiters pl) ip = None" for ip
    using assms that by (auto simp: ip_sim_def intro: tokens_full_mono)
  have "gm_ok (fold AList.delete ?del (ip_limiters pl))" by (rule gm_ok_fold_delete [OF ok])
  with assms(1) dropped kept show ?thesis
    by (auto simp: ip_sim_def PerIPLimiter_cleanup_def map_of_fold_delete Let_def split: if_splits)
qed

lemma ip_sim_later: "ip_sim t pl bs \<Longrightarrow> 0 \<le> ip_rate pl \<Longrightarrow> t \<le> t' \<Longrightarrow> ip_sim t' pl bs"
  by (auto simp: ip_sim_def intro: tokens_full_mono)

lemma ip_sim_lastCleanup [simp]: "ip_sim t (pl\<lparr>ip_lastCleanup := x\<rparr>) bs = ip_sim t pl bs"
  by (simp add: ip_sim_def)

lemma ip_sim_lookup:
  assumes "ip_sim t3 pl bs" and "0 \<le> ip_rate pl" and "t3 \<le> t4"
    and "TokenBucket_Allow t4 (case map_of (ip_limiters pl) ip of
           Some l \<Rightarrow> l | None \<Rightarrow> NewTokenBucket (ip_rate pl) (ip_burst pl) t3) = (ok, tb)"
  shows "TokenBucket_Allow t4 (bs ip) = (ok, tb)"
    and "ip_sim t4 (pl\<lparr>ip_limiters := AList.update ip tb (ip_limiters pl)\<rparr>) (bs(ip := tb))"
proof -
  have l: "ip_sim t4 pl bs" by (rule ip_sim_later [OF assms(1-3)])
  then have b: "bucket_of (ip_rate pl) (ip_burst pl) (bs ip)" by (simp add: ip_sim_def)
  show a: "TokenBucket_Allow t4 (bs ip) = (ok, tb)"
  proof (cases "map_of (ip_limiters pl) ip")
    case None
    with l have "TokenBucket_Tokens t4 (bs ip) \<ge> of_int (ip_burst pl)" by (simp add: ip_sim_def)
    with full_like_new [OF b assms(2,3)] assms(4) None show ?thesis by simp
  next
    case (Some tb')
    with l have "tb' = bs ip" by (simp add: ip_sim_def)
    with assms(4) Some show ?thesis by simp
  qed
  show "ip_sim t4 (pl\<lparr>ip_limiters := AList.update ip tb (ip_limiters pl)\<rparr>) (bs(ip := tb))"
    using l bucket_of_Allow [OF b a] by (auto simp: ip_sim_def AList.update_conv')
qed

lemma ip_sim_Allow:
  assumes "ip_sim t pl bs" and "0 \<le> ip_rate pl" and "readings_from t ((ip, clk) # reqs)"
    and "PerIPLimiter_Allow ip clk pl = (ok, pl')"
  shows "\<exists>tb. TokenBucket_Allow (clk 4) (bs ip) = (ok, tb) \<and> ip_sim (clk 4) pl' (bs(ip := tb)) \<and> ip_rate pl' = ip_rate pl"
proof -
  let ?pl = "if clk 0 - ip_lastCleanup pl > ip_cleanupInterval pl
    then (PerIPLimiter_cleanup (clk 1) pl)\<lparr>ip_lastCleanup := clk 2\<rparr> else pl"
  have rate: "ip_rate ?pl = ip_rate pl" by (simp add: PerIPLimiter_cleanup_def Let_def)
  have "ip_sim (clk 1) ?pl bs"
    using ip_sim_cleanup [OF assms(1,2), of "clk 1"] ip_sim_later [OF assms(1,2), of "clk 1"] assms(3)
    by auto
  then have s3: "ip_sim (clk 3) ?pl bs" by (rule ip_sim_later) (use assms(2,3) rate in auto)
  obtain ok' tb where a: "TokenBucket_Allow (clk 4) (case map_of (ip_limiters ?pl) ip of
      Some l \<Rightarrow> l | None \<Rightarrow> NewTokenBucket (ip_rate ?pl) (ip_burst ?pl) (clk 3)) = (ok', tb)" by fastforce
  then have "ok' = ok" and pl': "pl' = ?pl\<lparr>ip_limiters := AList.update ip tb (ip_limiters ?pl)\<rparr>"
    using assms(4) unfolding PerIPLimiter_Allow_def Let_def by simp_all
  with ip_sim_lookup [OF s3 _ _ a] assms(2,3) rate show ?thesis by auto
qed

lemma PerIPLimiter_run_own:
  "ip_sim t pl bs \<Longrightarrow> 0 \<le> ip_rate pl \<Longrightarrow> readings_from t reqs \<Longrightarrow> PerIPLimiter_run reqs pl = own_buckets_run reqs bs"
proof (induction reqs arbitrary: t pl bs)
  case (Cons req reqs)
  obtain ip clk where req: "req = (ip, clk)" by fastforce
  obtain ok pl' where a: "PerIPLimiter_Allow ip clk pl = (ok, pl')" by fastforce
  from ip_sim_Allow [OF Cons.prems(1,2) Cons.prems(3) [unfolded req] a]
  obtain tb where "TokenBucket_Allow (clk 4) (bs ip) = (ok, tb)"
    and sim: "ip_sim (clk 4) pl' (bs(ip := tb))" and rate: "ip_rate pl' = ip_rate pl"
    by blast
  moreover have "PerIPLimiter_run reqs pl' = own_buckets_run reqs (bs(ip := tb))"
    by (rule Cons.IH [OF sim]) (use Cons.prems(2,3) rate req in auto)
  ultimately show ?case by (simp add: req a del: fun_upd_apply)
qed simp

text \<open>
  C27: Cleaning up idle clients cannot be observed.  Whatever the interval of the cleanup and however
  many clients there are, the per-address limiter decides every request of a sequence of requests,
  handled one after the other, the way one bucket per address would that was full when the limiter
  was created and is never dropped: dropping up to a hundred buckets in a pass, and making a new
  bucket for an address that comes back, gives nobody a token more or less.
\<close>

theorem cleanup_unobservable:
  assumes "0 \<le> rate" and "readings_from now reqs"
  shows "PerIPLimiter_run reqs (NewPerIPLimiter rate burst interval now) =
    own_buckets_run reqs (\<lambda>_. NewTokenBucket rate burst now)"
proof (rule PerIPLimiter_run_own [OF _ _ assms(2)])
  show "ip_sim now (NewPerIPLimiter rate burst interval now) (\<lambda>_. NewTokenBucket rate burst now)"
    by (simp add: ip_sim_def NewPerIPLimiter_def bucket_of_def NewTokenBucket_def TokenBucket_Tokens_def
        seconds_def gm_ok_def)
qed (use assms(1) in \<open>simp add: NewPerIPLimiter_def\<close>)

text \<open>Two requests at once, a third that is refused, and one after a cleanup that dropped the full bucket.\<close>

theorem cleanup_unobservable_witness:
  "PerIPLimiter_run [(''a'', \<lambda>_. 1), (''a'', \<lambda>_. 1), (''a'', \<lambda>_. 1), (''b'', \<lambda>_. 5000000000), (''a'', \<lambda>_. 5000000000)]
     (NewPerIPLimiter 1 2 1000000000 0) = [True, True, False, True, True]"
  by (subst cleanup_unobservable)
    (simp_all add: TokenBucket_Allow_def NewTokenBucket_def seconds_def Let_def)

end
