(* ===== verification/Options.thy ===== *)
theory Options
  imports RateLimiter GoErrors
begin

text \<open>
  The configuration of \<open>options.go\<close> and the parts of \<open>tls_config.go\<close> that compute:
  \<open>ExportOptions\<close>, which a user fills in, and the two snapshots it is split into,
  \<open>TuningOptions\<close> and \<open>PolicyOptions\<close>, with the conversions both ways and the defaults
  that \<open>New\<close> of \<open>absnfs.go\<close> puts in.  The same field exists in up to three structs,
  hence the prefixes \<open>o_\<close>, \<open>t_\<close> and \<open>p_\<close>.  A pointer that may be nil is an option;
  a nil slice and an empty one are both the empty list.
\<close>

section \<open>TLS settings\<close>

datatype ClientAuthType = NoClientCert | RequestClientCert | RequireAnyClientCert
  | VerifyClientCertIfGiven | RequireAndVerifyClientCert | OtherClientAuth nat

fun client_auth_code :: "ClientAuthType \<Rightarrow> nat" where
  "client_auth_code NoClientCert = 0"
| "client_auth_code RequestClientCert = 1"
| "client_auth_code RequireAnyClientCert = 2"
| "client_auth_code VerifyClientCertIfGiven = 3"
| "client_auth_code RequireAndVerifyClientCert = 4"
| "client_auth_code (OtherClientAuth n) = 5 + n"


abbreviation (input) VersionTLS10 :: u16 where "VersionTLS10 \<equiv> 0x0301"
abbreviation (input) VersionTLS11 :: u16 where "VersionTLS11 \<equiv> 0x0302"
abbreviation (input) VersionTLS12 :: u16 where "VersionTLS12 \<equiv> 0x0303"
abbreviation (input) VersionTLS13 :: u16 where "VersionTLS13 \<equiv> 0x0304"

text \<open>\<open>built\<close> and \<open>currentCert\<close> stand for the pointers to the Go TLS state built from
  the settings.\<close>

record TLSConfig =
  Enabled :: bool
  CertFile :: string
  KeyFile :: string
  CAFile :: string
  ClientAuth :: ClientAuthType
  MinVersion :: u16
  MaxVersion :: u16
  CipherSuites :: "u16 list"
  PreferServerCipherSuites :: bool
  InsecureSkipVerify :: bool
  built :: "nat option"
  currentCert :: "nat option"

definition DefaultTLSConfig :: TLSConfig where
  "DefaultTLSConfig =
     \<lparr>Enabled = False, CertFile = [], KeyFile = [], CAFile = [], ClientAuth = NoClientCert,
      MinVersion = VersionTLS12, MaxVersion = VersionTLS13,
      CipherSuites = [0x1301, 0x1302, 0x1303, 0xC02F, 0xC030, 0xC02B, 0xC02C, 0xCCA8, 0xCCA9],
      PreferServerCipherSuites = True, InsecureSkipVerify = False, built = None, currentCert = None\<rparr>"

text \<open>\<open>stat\<close> is \<open>os.Stat\<close> of the host: the error it returns for a path, if any.\<close>

definition TLS_Validate :: "(string \<Rightarrow> goerr option) \<Rightarrow> TLSConfig \<Rightarrow> goerr option" where
  "TLS_Validate stat tc =
     (if \<not> Enabled tc then None
      else if CertFile tc = [] then Some (ErrText ''TLS certificate file is required when TLS is enabled'')
      else if KeyFile tc = [] then Some (ErrText ''TLS key file is required when TLS is enabled'')
      else case stat (CertFile tc) of
        Some e \<Rightarrow> Some (Wrap ''TLS certificate file not found: '' e)
      | None \<Rightarrow>
         (case stat (KeyFile tc) of
            Some e \<Rightarrow> Some (Wrap ''TLS key file not found: '' e)
          | None \<Rightarrow>
             (case (if client_auth_code (ClientAuth tc) \<ge> client_auth_code VerifyClientCertIfGiven \<and> CAFile tc \<noteq> []
                    then stat (CAFile tc) else None) of
                Some e \<Rightarrow> Some (Wrap ''TLS CA file not found: '' e)
              | None \<Rightarrow>
                 if MinVersion tc > MaxVersion tc
                 then Some (ErrText ''TLS min version cannot be greater than max version'')
                 else if MinVersion tc \<noteq> 0 \<and> MinVersion tc < VersionTLS12
                 then Some (ErrText ''TLS version below 1.2 is not supported'')
                 else None)))"

definition GetClientAuthString :: "TLSConfig \<Rightarrow> string" where
  "GetClientAuthString tc =
     (case ClientAuth tc of
        NoClientCert \<Rightarrow> ''NoClientCert''
      | RequestClientCert \<Rightarrow> ''RequestClientCert''
      | RequireAnyClientCert \<Rightarrow> ''RequireAnyClientCert''
      | VerifyClientCertIfGiven \<Rightarrow> ''VerifyClientCertIfGiven''
      | RequireAndVerifyClientCert \<Rightarrow> ''RequireAndVerifyClientCert''
      | OtherClientAuth n \<Rightarrow> ''Unknown'')"

definition ParseClientAuthType :: "string \<Rightarrow> ClientAuthType result" where
  "ParseClientAuthType s =
     (if s \<in> set [''NoClientCert'', ''none'', ''''] then Inr NoClientCert
      else if s \<in> set [''RequestClientCert'', ''request''] then Inr RequestClientCert
      else if s \<in> set [''RequireAnyClientCert'', ''require-any''] then Inr RequireAnyClientCert
      else if s \<in> set [''VerifyClientCertIfGiven'', ''verify-if-given''] then Inr VerifyClientCertIfGiven
      else if s \<in> set [''RequireAndVerifyClientCert'', ''require-and-verify'', ''require'']
      then Inr RequireAndVerifyClientCert
      else Inl (ErrText (''unknown client auth type: '' @ s)))"

definition ParseTLSVersion :: "string \<Rightarrow> u16 result" where
  "ParseTLSVersion s =
     (if s \<in> set [''1.0'', ''TLS1.0'', ''TLSv1.0''] then Inr VersionTLS10
      else if s \<in> set [''1.1'', ''TLS1.1'', ''TLSv1.1''] then Inr VersionTLS11
      else if s \<in> set [''1.2'', ''TLS1.2'', ''TLSv1.2'', ''''] then Inr VersionTLS12
      else if s \<in> set [''1.3'', ''TLS1.3'', ''TLSv1.3''] then Inr VersionTLS13
      else Inl (ErrText (''unknown TLS version: '' @ s)))"

definition TLS_Clone :: "TLSConfig \<Rightarrow> TLSConfig" where
  "TLS_Clone tc = tc\<lparr>built := None, currentCert := None\<rparr>"

section \<open>Export options and their snapshots\<close>

record TimeoutConfig =
  ReadTimeout :: duration
  WriteTimeout :: duration
  LookupTimeout :: duration
  ReaddirTimeout :: duration
  CreateTimeout :: duration
  RemoveTimeout :: duration
  RenameTimeout :: duration
  HandleTimeout :: duration
  DefaultTimeout :: duration

record LogConfig =
  Level :: string
  Format :: string
  Output :: string
  LogClientIPs :: bool
  LogOperations :: bool
  LogFileAccess :: bool
  MaxSize :: int
  MaxBackups :: int
  MaxAge :: int
  Compress :: bool

record TuningOptions =
  t_TransferSize :: int
  t_AttrCacheTimeout :: duration
  t_AttrCacheSize :: int
  t_CacheNegativeLookups :: bool
  t_NegativeCacheTimeout :: duration
  t_EnableDirCache :: bool
  t_DirCacheTimeout :: duration
  t_DirCacheMaxEntries :: int
  t_DirCacheMaxDirSize :: int
  t_MaxWorkers :: int
  t_MaxConnections :: int
  t_IdleTimeout :: duration
  t_TCPKeepAlive :: bool
  t_TCPNoDelay :: bool
  t_SendBufferSize :: int
  t_ReceiveBufferSize :: int
  t_Async :: bool
  t_Log :: "LogConfig option"
  t_Timeouts :: "TimeoutConfig option"

record PolicyOptions =
  p_ReadOnly :: bool
  p_Secure :: bool
  p_AllowedIPs :: "string list"
  p_Squash :: string
  p_MaxFileSize :: int
  p_EnableRateLimiting :: bool
  p_RateLimitConfig :: "RateLimiterConfig option"
  p_TLS :: "TLSConfig option"

record ExportOptions =
  o_ReadOnly :: bool
  o_Secure :: bool
  o_AllowedIPs :: "string list"
  o_Squash :: string
  o_Async :: bool
  o_MaxFileSize :: int
  o_TransferSize :: int
  o_AttrCacheTimeout :: duration
  o_AttrCacheSize :: int
  o_CacheNegativeLookups :: bool
  o_NegativeCacheTimeout :: duration
  o_EnableDirCache :: bool
  o_DirCacheTimeout :: duration
  o_DirCacheMaxEntries :: int
  o_DirCacheMaxDirSize :: int
  o_MaxWorkers :: int
  o_MaxConnections :: int
  o_IdleTimeout :: duration
  o_TCPKeepAlive :: bool
  o_TCPNoDelay :: bool
  hasExplicitTCPSettings :: bool
  o_SendBufferSize :: int
  o_ReceiveBufferSize :: int
  o_EnableRateLimiting :: bool
  o_RateLimitConfig :: "RateLimiterConfig option"
  o_TLS :: "TLSConfig option"
  o_Log :: "LogConfig option"
  o_Timeouts :: "TimeoutConfig option"

definition tuningFromExportOptions :: "ExportOptions \<Rightarrow> TuningOptions" where
  "tuningFromExportOptions opts =
     \<lparr>t_TransferSize = o_TransferSize opts,
      t_AttrCacheTimeout = o_AttrCacheTimeout opts,
      t_AttrCacheSize = o_AttrCacheSize opts,
      t_CacheNegativeLookups = o_CacheNegativeLookups opts,
      t_NegativeCacheTimeout = o_NegativeCacheTimeout opts,
      t_EnableDirCache = o_EnableDirCache opts,
      t_DirCacheTimeout = o_DirCacheTimeout opts,
      t_DirCacheMaxEntries = o_DirCacheMaxEntries opts,
      t_DirCacheMaxDirSize = o_DirCacheMaxDirSize opts,
      t_MaxWorkers = o_MaxWorkers opts,
      t_MaxConnections = o_MaxConnections opts,
      t_IdleTimeout = o_IdleTimeout opts,
      t_TCPKeepAlive = o_TCPKeepAlive opts,
      t_TCPNoDelay = o_TCPNoDelay opts,
      t_SendBufferSize = o_SendBufferSize opts,
      t_ReceiveBufferSize = o_ReceiveBufferSize opts,
      t_Async = o_Async opts,
      t_Log = o_Log opts,
      t_Timeouts = o_Timeouts opts\<rparr>"

definition policyFromExportOptions :: "ExportOptions \<Rightarrow> PolicyOptions" where
  "policyFromExportOptions opts =
     \<lparr>p_ReadOnly = o_ReadOnly opts,
      p_Secure = o_Secure opts,
      p_AllowedIPs = o_AllowedIPs opts,
      p_Squash = o_Squash opts,
      p_MaxFileSize = o_MaxFileSize opts,
      p_EnableRateLimiting = o_EnableRateLimiting opts,
      p_RateLimitConfig = o_RateLimitConfig opts,
      p_TLS = map_option TLS_Clone (o_TLS opts)\<rparr>"

definition exportOptionsFromSnapshots :: "TuningOptions \<Rightarrow> PolicyOptions \<Rightarrow> ExportOptions" where
  "exportOptionsFromSnapshots t p =
     \<lparr>o_ReadOnly = p_ReadOnly p,
      o_Secure = p_Secure p,
      o_AllowedIPs = p_AllowedIPs p,
      o_Squash = p_Squash p,
      o_Async = t_Async t,
      o_MaxFileSize = p_MaxFileSize p,
      o_TransferSize = t_TransferSize t,
      o_AttrCacheTimeout = t_AttrCacheTimeout t,
      o_AttrCacheSize = t_AttrCacheSize t,
      o_CacheNegativeLookups = t_CacheNegativeLookups t,
      o_NegativeCacheTimeout = t_NegativeCacheTimeout t,
      o_EnableDirCache = t_EnableDirCache t,
      o_DirCacheTimeout = t_DirCacheTimeout t,
      o_DirCacheMaxEntries = t_DirCacheMaxEntries t,
      o_DirCacheMaxDirSize = t_DirCacheMaxDirSize t,
      o_MaxWorkers = t_MaxWorkers t,
      o_MaxConnections = t_MaxConnections t,
      o_IdleTimeout = t_IdleTimeout t,
      o_TCPKeepAlive = t_TCPKeepAlive t,
      o_TCPNoDelay = t_TCPNoDelay t,
      hasExplicitTCPSettings = False,
      o_SendBufferSize = t_SendBufferSize t,
      o_ReceiveBufferSize = t_ReceiveBufferSize t,
      o_EnableRateLimiting = p_EnableRateLimiting p,
      o_RateLimitConfig = p_RateLimitConfig p,
      o_TLS = map_option TLS_Clone (p_TLS p),
      o_Log = t_Log t,
      o_Timeouts = t_Timeouts t\<rparr>"

section \<open>The defaults of New\<close>

definition default_to :: "int \<Rightarrow> int \<Rightarrow> int" where
  "default_to d v = (if v \<le> 0 then d else v)"

definition timeout_defaults :: "TimeoutConfig option \<Rightarrow> TimeoutConfig" where
  "timeout_defaults ot =
     (case ot of
        None \<Rightarrow>
          \<lparr>ReadTimeout = 30 * second, WriteTimeout = 60 * second, LookupTimeout = 10 * second,
           ReaddirTimeout = 30 * second, CreateTimeout = 15 * second, RemoveTimeout = 15 * second,
           RenameTimeout = 20 * second, HandleTimeout = 5 * second, DefaultTimeout = 30 * second\<rparr>
      | Some t \<Rightarrow>
          \<lparr>ReadTimeout = default_to (30 * second) (ReadTimeout t),
           WriteTimeout = default_to (60 * second) (WriteTimeout t),
           LookupTimeout = default_to (10 * second) (LookupTimeout t),
           ReaddirTimeout = default_to (30 * second) (ReaddirTimeout t),
           CreateTimeout = default_to (15 * second) (CreateTimeout t),
           RemoveTimeout = default_to (15 * second) (RemoveTimeout t),
           RenameTimeout = default_to (20 * second) (RenameTimeout t),
           HandleTimeout = default_to (5 * second) (HandleTimeout t),
           DefaultTimeout = default_to (30 * second) (DefaultTimeout t)\<rparr>)"

text \<open>\<open>ncpu\<close> is \<open>runtime.NumCPU()\<close>.\<close>

definition option_defaults :: "int \<Rightarrow> ExportOptions \<Rightarrow> ExportOptions" where
  "option_defaults ncpu options = options
     \<lparr>o_TransferSize := default_to 65536 (o_TransferSize options),
      o_AttrCacheTimeout := default_to (5 * second) (o_AttrCacheTimeout options),
      o_AttrCacheSize := default_to 10000 (o_AttrCacheSize options),
      o_NegativeCacheTimeout := default_to (5 * second) (o_NegativeCacheTimeout options),
      o_DirCacheTimeout := default_to (10 * second) (o_DirCacheTimeout options),
      o_DirCacheMaxEntries := default_to 1000 (o_DirCacheMaxEntries options),
      o_DirCacheMaxDirSize := default_to 10000 (o_DirCacheMaxDirSize options),
      o_MaxWorkers := default_to (ncpu * 4) (o_MaxWorkers options),
      o_MaxConnections := default_to 100 (o_MaxConnections options),
      o_IdleTimeout := default_to (300 * second) (o_IdleTimeout options),
      o_TCPKeepAlive := (if hasExplicitTCPSettings options then o_TCPKeepAlive options else True),
      o_TCPNoDelay := (if hasExplicitTCPSettings options then o_TCPNoDelay options else True),
      o_SendBufferSize := default_to 262144 (o_SendBufferSize options),
      o_ReceiveBufferSize := default_to 262144 (o_ReceiveBufferSize options),
      o_RateLimitConfig := (case o_RateLimitConfig options of
          None \<Rightarrow> Some DefaultRateLimiterConfig | Some c \<Rightarrow> Some c),
      o_Timeouts := Some (timeout_defaults (o_Timeouts options))\<rparr>"

text \<open>What the code after \<open>New\<close> relies on: every size and timeout is positive and the
  pointers it dereferences without a check are set.\<close>

definition tuning_ok :: "TuningOptions \<Rightarrow> bool" where
  "tuning_ok t \<longleftrightarrow>
     t_TransferSize t > 0 \<and> t_AttrCacheTimeout t > 0 \<and> t_AttrCacheSize t > 0 \<and>
     t_NegativeCacheTimeout t > 0 \<and> t_DirCacheTimeout t > 0 \<and> t_DirCacheMaxEntries t > 0 \<and>
     t_DirCacheMaxDirSize t > 0 \<and> t_MaxWorkers t > 0 \<and> t_MaxConnections t > 0 \<and>
     t_IdleTimeout t > 0 \<and> t_SendBufferSize t > 0 \<and> t_ReceiveBufferSize t > 0 \<and>
     (case t_Timeouts t of
        None \<Rightarrow> False
      | Some c \<Rightarrow> list_all (\<lambda>d. d > 0)
          [ReadTimeout c, WriteTimeout c, LookupTimeout c, ReaddirTimeout c, CreateTimeout c,
           RemoveTimeout c, RenameTimeout c, HandleTimeout c, DefaultTimeout c])"

lemma default_to_pos: "0 < d \<Longrightarrow> 0 < default_to d v"
  by (simp add: default_to_def)

lemma default_to_keep: "0 < v \<Longrightarrow> default_to d v = v"
  by (simp add: default_to_def)

lemma timeout_defaults_idem: "timeout_defaults (Some (timeout_defaults ot)) = timeout_defaults ot"
  by (cases ot) (simp_all add: timeout_defaults_def default_to_def)

lemma TLS_Clone_idem [simp]: "TLS_Clone (TLS_Clone tc) = TLS_Clone tc"
  by (simp add: TLS_Clone_def)

lemma TLS_Validate_Clone [simp]: "TLS_Validate stat (TLS_Clone tc) = TLS_Validate stat tc"
  by (cases tc) (simp only: TLS_Clone_def TLS_Validate_def TLSConfig.simps TLSConfig.update_convs TLSConfig.select_convs)

lemma TLS_Clone_comp [simp]: "TLS_Clone \<circ> TLS_Clone = TLS_Clone"
  by (simp add: fun_eq_iff)

section \<open>Properties\<close>

text \<open>
  The numeric settings and the timeouts in the order of their structs, and what the documentation
  gives as their defaults.
\<close>

definition size_settings :: "ExportOptions \<Rightarrow> int list" where
  "size_settings opts =
     [o_TransferSize opts, o_AttrCacheTimeout opts, o_AttrCacheSize opts, o_NegativeCacheTimeout opts,
      o_DirCacheTimeout opts, o_DirCacheMaxEntries opts, o_DirCacheMaxDirSize opts, o_MaxWorkers opts,
      o_MaxConnections opts, o_IdleTimeout opts, o_SendBufferSize opts, o_ReceiveBufferSize opts]"

definition default_sizes :: "int \<Rightarrow> int list" where
  "default_sizes ncpu =
     [65536, 5 * second, 10000, 5 * second, 10 * second, 1000, 10000, 4 * ncpu, 100, 300 * second, 262144, 262144]"

definition timeout_settings :: "TimeoutConfig option \<Rightarrow> duration list" where
  "timeout_settings ot =
     (case ot of
        None \<Rightarrow> replicate 9 0
      | Some c \<Rightarrow> [ReadTimeout c, WriteTimeout c, LookupTimeout c, ReaddirTimeout c, CreateTimeout c,
                  RemoveTimeout c, RenameTimeout c, HandleTimeout c, DefaultTimeout c])"

definition default_timeouts :: "duration list" where
  "default_timeouts = map (\<lambda>n. n * second) [30, 60, 10, 30, 15, 15, 20, 5, 30]"

text \<open>
  C28: The split of the export options loses nothing and \<open>New\<close> leaves no unusable setting.
  Putting the two snapshots of any options together gives the options back, up to the cached
  Go TLS state and the marker for explicit TCP settings, and splitting again gives the same
  snapshots.  The defaults of \<open>New\<close>, on any machine with at least one CPU, make every size and timeout
  positive: each of the twelve sizes and nine timeouts keeps the value the user gave it if that is
  positive and is the default of the documentation otherwise.  A rate limiter configuration that is
  given, explicit TCP settings and every other setting stay as they are, and applying the defaults
  twice is applying them once.
\<close>

theorem options_split_and_defaults:
  assumes "0 < ncpu"
  shows "exportOptionsFromSnapshots (tuningFromExportOptions opts) (policyFromExportOptions opts) =
      opts\<lparr>hasExplicitTCPSettings := False, o_TLS := map_option TLS_Clone (o_TLS opts)\<rparr> \<and>
    tuningFromExportOptions (exportOptionsFromSnapshots t (policyFromExportOptions opts)) = t \<and>
    policyFromExportOptions (exportOptionsFromSnapshots t (policyFromExportOptions opts)) =
      policyFromExportOptions opts \<and>
    tuning_ok (tuningFromExportOptions (option_defaults ncpu opts)) \<and>
    option_defaults ncpu (option_defaults ncpu opts) = option_defaults ncpu opts \<and>
    size_settings (option_defaults ncpu opts) =
      map2 (\<lambda>d v. if 0 < v then v else d) (default_sizes ncpu) (size_settings opts) \<and>
    timeout_settings (o_Timeouts (option_defaults ncpu opts)) =
      map2 (\<lambda>d v. if 0 < v then v else d) default_timeouts (timeout_settings (o_Timeouts opts)) \<and>
    o_RateLimitConfig (option_defaults ncpu opts) =
      Some (case o_RateLimitConfig opts of Some c \<Rightarrow> c | None \<Rightarrow> DefaultRateLimiterConfig) \<and>
    (o_TCPKeepAlive (option_defaults ncpu opts), o_TCPNoDelay (option_defaults ncpu opts)) =
      (if hasExplicitTCPSettings opts then (o_TCPKeepAlive opts, o_TCPNoDelay opts) else (True, True)) \<and>
    (policyFromExportOptions (option_defaults ncpu opts))\<lparr>p_RateLimitConfig := o_RateLimitConfig opts\<rparr> =
      policyFromExportOptions opts \<and>
    o_CacheNegativeLookups (option_defaults ncpu opts) = o_CacheNegativeLookups opts \<and>
    o_EnableDirCache (option_defaults ncpu opts) = o_EnableDirCache opts \<and>
    o_Async (option_defaults ncpu opts) = o_Async opts \<and> o_Log (option_defaults ncpu opts) = o_Log opts"
proof (intro conjI)
  show "tuning_ok (tuningFromExportOptions (option_defaults ncpu opts))"
    using assms
    by (auto simp: tuning_ok_def tuningFromExportOptions_def option_defaults_def timeout_defaults_def
        default_to_def split: option.splits)
  show "option_defaults ncpu (option_defaults ncpu opts) = option_defaults ncpu opts"
    using assms
    by (simp add: option_defaults_def timeout_defaults_idem default_to_def split: option.splits)
  show "size_settings (option_defaults ncpu opts) =
      map2 (\<lambda>d v. if 0 < v then v else d) (default_sizes ncpu) (size_settings opts)"
    by (simp add: size_settings_def default_sizes_def option_defaults_def default_to_def)
  show "timeout_settings (o_Timeouts (option_defaults ncpu opts)) =
      map2 (\<lambda>d v. if 0 < v then v else d) default_timeouts (timeout_settings (o_Timeouts opts))"
    by (simp add: timeout_settings_def default_timeouts_def option_defaults_def timeout_defaults_def default_to_def
        eval_nat_numeral split: option.splits)
qed (cases t; simp add: exportOptionsFromSnapshots_def tuningFromExportOptions_def policyFromExportOptions_def
      option_defaults_def option.map_comp split: option.splits)+

definition sample_options :: ExportOptions where
  "sample_options =
     \<lparr>o_ReadOnly = False, o_Secure = False, o_AllowedIPs = [], o_Squash = ''none'', o_Async = False,
      o_MaxFileSize = 0, o_TransferSize = 0, o_AttrCacheTimeout = 0, o_AttrCacheSize = 16,
      o_CacheNegativeLookups = True, o_NegativeCacheTimeout = 0, o_EnableDirCache = True,
      o_DirCacheTimeout = 0, o_DirCacheMaxEntries = 0, o_DirCacheMaxDirSize = 0, o_MaxWorkers = 0,
      o_MaxConnections = 0, o_IdleTimeout = 0, o_TCPKeepAlive = False, o_TCPNoDelay = False,
      hasExplicitTCPSettings = False, o_SendBufferSize = 0, o_ReceiveBufferSize = 0,
      o_EnableRateLimiting = False, o_RateLimitConfig = None, o_TLS = None, o_Log = None,
      o_Timeouts = None\<rparr>"

theorem options_split_and_defaults_witness:
  "o_AttrCacheSize (option_defaults 4 sample_options) = 16 \<and>
   o_TransferSize (option_defaults 4 sample_options) = 65536 \<and>
   tuning_ok (tuningFromExportOptions (option_defaults 4 sample_options))"
  using options_split_and_defaults [of 4 sample_options "tuningFromExportOptions sample_options"]
  by (simp add: option_defaults_def sample_options_def default_to_def)

text \<open>
  TLS settings that pass validation are safe to serve with: certificate and key are named and
  present on disk, the version range is not empty, and a stated minimum is never below TLS 1.2.
  The default settings pass as they are, and every client authentication policy that the
  settings can print is read back to the same policy.
\<close>

theorem tls_settings_validated:
  assumes "Enabled tc" "TLS_Validate stat tc = None"
  shows "CertFile tc \<noteq> [] \<and> KeyFile tc \<noteq> [] \<and> stat (CertFile tc) = None \<and> stat (KeyFile tc) = None \<and>
    MinVersion tc \<le> MaxVersion tc \<and> (MinVersion tc = 0 \<or> VersionTLS12 \<le> MinVersion tc) \<and>
    TLS_Validate stat DefaultTLSConfig = None \<and> TLS_Validate stat (TLS_Clone tc) = None \<and>
    (client_auth_code (ClientAuth tc) < 5 \<longrightarrow>
      ParseClientAuthType (GetClientAuthString tc) = Inr (ClientAuth tc))"
proof (intro conjI impI)
  show "TLS_Validate stat DefaultTLSConfig = None"
    by (simp add: TLS_Validate_def DefaultTLSConfig_def)
  show "TLS_Validate stat (TLS_Clone tc) = None"
    using assms(2) by simp
  assume "client_auth_code (ClientAuth tc) < 5"
  then show "ParseClientAuthType (GetClientAuthString tc) = Inr (ClientAuth tc)"
    by (cases "ClientAuth tc") (simp_all add: ParseClientAuthType_def GetClientAuthString_def)
qed (use assms in \<open>auto simp: TLS_Validate_def not_less split: if_splits option.splits\<close>)

end
