(* ===== verification/Paths.thy ===== *)
theory Paths
  imports GoErrors
begin

text \<open>
  Names and paths: Go's \<open>path\<close> package (which \<open>path/filepath\<close> equals on Unix), the traversal guard
  \<open>sanitizePath\<close> of \<open>operations.go\<close> and the name and mode checks of \<open>nfs_operations.go\<close>.
  The canonical absolute paths are \<open>abs_path cs\<close> for lists \<open>cs\<close> of proper components.
\<close>

section \<open>Strings\<close>

fun strings_Contains :: "string \<Rightarrow> string \<Rightarrow> bool" where
  "strings_Contains [] sub = (sub = [])"
| "strings_Contains (c # s) sub = (take (length sub) (c # s) = sub \<or> strings_Contains s sub)"

definition strings_HasPrefix :: "string \<Rightarrow> string \<Rightarrow> bool" where
  "strings_HasPrefix s pre \<longleftrightarrow> take (length pre) s = pre"

definition strings_ContainsAny :: "string \<Rightarrow> string \<Rightarrow> bool" where
  "strings_ContainsAny s chars \<longleftrightarrow> (\<exists>c \<in> set s. c \<in> set chars)"

fun split_slash :: "string \<Rightarrow> string list" where
  "split_slash [] = [[]]"
| "split_slash (c # s) =
     (if c = CHR ''/'' then [] # split_slash s
      else case split_slash s of [] \<Rightarrow> [[c]] | w # ws \<Rightarrow> (c # w) # ws)"

fun join_slash :: "string list \<Rightarrow> string" where
  "join_slash [] = []"
| "join_slash [c] = c"
| "join_slash (c # d # cs) = c @ ''/'' @ join_slash (d # cs)"

section \<open>The path package\<close>

definition clean_step :: "bool \<Rightarrow> string \<Rightarrow> string list \<Rightarrow> string list" where
  "clean_step rooted c acc =
     (if c = '''' \<or> c = ''.'' then acc
      else if c = ''..'' then
        if acc \<noteq> [] \<and> last acc \<noteq> ''..'' then butlast acc
        else if rooted then acc
        else acc @ [''..'']
      else acc @ [c])"

definition path_Clean :: "string \<Rightarrow> string" where
  "path_Clean p =
     (if p = '''' then ''.''
      else
        let rooted = (hd p = CHR ''/'');
            comps = fold (clean_step rooted) (split_slash p) []
        in if rooted then ''/'' @ join_slash comps
           else if comps = [] then ''.'' else join_slash comps)"

text \<open>\<open>path.Join\<close> of two elements.\<close>

definition path_Join :: "string \<Rightarrow> string \<Rightarrow> string" where
  "path_Join a b =
     (let es = filter (\<lambda>e. e \<noteq> '''') [a, b]
      in if es = [] then '''' else path_Clean (join_slash es))"

definition path_Base :: "string \<Rightarrow> string" where
  "path_Base p =
     (if p = '''' then ''.''
      else
        let p = rev (dropWhile (\<lambda>c. c = CHR ''/'') (rev p));
            base = rev (takeWhile (\<lambda>c. c \<noteq> CHR ''/'') (rev p))
        in if base = '''' then ''/'' else base)"

section \<open>Checks of the server\<close>

definition sanitizePath :: "string \<Rightarrow> string \<Rightarrow> string result" where
  "sanitizePath basePath name =
     (if name = '''' then Inl (ErrText ''empty name'')
      else if strings_Contains name ''/'' \<or> strings_Contains name [CHR 0x5C]
      then Inl (ErrText ''invalid name: contains path separator'')
      else if name = ''..'' \<or> name = ''.''
      then Inl (ErrText ''invalid name: parent or current directory reference'')
      else
        let path = path_Join basePath name;
            cleanPath = path_Clean path;
            cleanBase = path_Clean basePath
        in if \<not> strings_HasPrefix cleanPath cleanBase
           then Inl (ErrText ''invalid path: traversal attempt detected'')
           else if strings_Contains cleanPath ''..''
           then Inl (ErrText ''invalid path: contains parent directory reference'')
           else Inr cleanPath)"

definition to_upper :: "string \<Rightarrow> string" where
  "to_upper s = map (\<lambda>c. let n = of_char c :: nat in if 97 \<le> n \<and> n \<le> 122 then char_of (n - 32) else c) s"

definition reservedNames :: "string list" where
  "reservedNames =
     [''CON'', ''PRN'', ''AUX'', ''NUL'',
      ''COM1'', ''COM2'', ''COM3'', ''COM4'', ''COM5'', ''COM6'', ''COM7'', ''COM8'', ''COM9'',
      ''LPT1'', ''LPT2'', ''LPT3'', ''LPT4'', ''LPT5'', ''LPT6'', ''LPT7'', ''LPT8'', ''LPT9'']"

text \<open>\<open>goos\<close> is \<open>runtime.GOOS\<close>; the rest of the development is the Linux build.\<close>

definition validateFilename_on :: "string \<Rightarrow> string \<Rightarrow> u32" where
  "validateFilename_on goos name =
     (if name = '''' then NFSERR_INVAL
      else if length name > 255 then NFSERR_NAMETOOLONG
      else if strings_Contains name [CHR 0x00] then NFSERR_INVAL
      else if strings_ContainsAny name [CHR ''/'', CHR 0x5C] then NFSERR_INVAL
      else if name = ''.'' \<or> name = ''..'' then NFSERR_INVAL
      else if goos = ''windows'' \<and>
          takeWhile (\<lambda>c. c \<noteq> CHR ''.'') (to_upper name) \<in> set reservedNames then NFSERR_INVAL
      else NFS_OK)"

definition validateFilename :: "string \<Rightarrow> u32" where
  "validateFilename name = validateFilename_on ''linux'' name"

definition validateMode :: "u32 \<Rightarrow> bool \<Rightarrow> u32" where
  "validateMode mode isDir =
     (if mode AND 0xF000 \<noteq> 0 then NFSERR_INVAL
      else if mode AND NOT 0xFFF \<noteq> 0 then NFSERR_INVAL
      else NFS_OK)"

section \<open>Canonical paths\<close>

definition good_comp :: "string \<Rightarrow> bool" where
  "good_comp c \<longleftrightarrow> c \<noteq> '''' \<and> c \<noteq> ''.'' \<and> c \<noteq> ''..'' \<and> CHR ''/'' \<notin> set c"

definition abs_path :: "string list \<Rightarrow> string" where
  "abs_path cs = ''/'' @ join_slash cs"

definition canonical :: "string \<Rightarrow> bool" where
  "canonical p \<longleftrightarrow> (\<exists>cs. list_all good_comp cs \<and> p = abs_path cs)"

lemma strings_Contains_single [simp]: "strings_Contains s [c] \<longleftrightarrow> c \<in> set s"
  by (induction s) auto

lemma split_slash_ne [simp]: "split_slash s \<noteq> []"
  by (cases s) (auto split: list.split)

lemma split_slash_comps: "c \<in> set (split_slash s) \<Longrightarrow> CHR ''/'' \<notin> set c"
  by (induction s arbitrary: c) (auto split: if_splits list.splits)

lemma split_slash_app: "CHR ''/'' \<notin> set c \<Longrightarrow> split_slash (c @ ''/'' @ s) = c # split_slash s"
  by (induction c) auto

lemma split_slash_single: "CHR ''/'' \<notin> set c \<Longrightarrow> split_slash c = [c]"
  by (induction c) auto

lemma split_join:
  "cs \<noteq> [] \<Longrightarrow> list_all (\<lambda>c. CHR ''/'' \<notin> set c) cs \<Longrightarrow> split_slash (join_slash cs) = cs"
  by (induction cs rule: join_slash.induct) (auto simp: split_slash_single split_slash_app [simplified])

lemma clean_step_good: "good_comp c \<Longrightarrow> clean_step r c acc = acc @ [c]"
  by (simp add: clean_step_def good_comp_def)

lemma fold_clean_good: "list_all good_comp cs \<Longrightarrow> fold (clean_step r) cs acc = acc @ cs"
  by (induction cs arbitrary: acc) (auto simp: clean_step_good)

lemma good_no_slash: "list_all good_comp cs \<Longrightarrow> list_all (\<lambda>c. CHR ''/'' \<notin> set c) cs"
  by (auto simp: list_all_iff good_comp_def)

lemma path_Clean_abs_path:
  assumes "list_all good_comp cs"
  shows "path_Clean (abs_path cs) = abs_path cs"
proof (cases "cs = []")
  case True
  then show ?thesis by (simp add: path_Clean_def abs_path_def clean_step_def)
next
  case False
  with assms show ?thesis
    by (simp add: path_Clean_def abs_path_def split_join good_no_slash fold_clean_good clean_step_def)
qed

text \<open>Cleaning a rooted path always gives a canonical one: no \<open>..\<close> component survives.\<close>

lemma clean_step_rooted:
  assumes "list_all good_comp acc" and "CHR ''/'' \<notin> set c"
  shows "list_all good_comp (clean_step True c acc)"
proof -
  have "list_all good_comp (butlast acc)"
    using assms(1) by (auto simp: list_all_iff dest: in_set_butlastD)
  with assms show ?thesis by (auto simp: clean_step_def good_comp_def)
qed

lemma fold_clean_rooted:
  "list_all good_comp acc \<Longrightarrow> list_all (\<lambda>c. CHR ''/'' \<notin> set c) cs \<Longrightarrow>
    list_all good_comp (fold (clean_step True) cs acc)"
  by (induction cs arbitrary: acc) (auto simp: clean_step_rooted)

lemma path_Clean_canonical:
  assumes "p \<noteq> []" and "hd p = CHR ''/''"
  shows "canonical (path_Clean p)"
proof -
  have "list_all good_comp (fold (clean_step True) (split_slash p) [])"
    using split_slash_comps by (intro fold_clean_rooted) (auto simp: list_all_iff)
  with assms show ?thesis
    by (auto simp: canonical_def path_Clean_def abs_path_def Let_def)
qed

lemma canonical_ne: "canonical p \<Longrightarrow> p \<noteq> [] \<and> hd p = CHR ''/''"
  by (auto simp: canonical_def abs_path_def)

lemma canonical_root [simp, intro]: "canonical ''/''"
  unfolding canonical_def by (rule exI [of _ "[]"]) (simp add: abs_path_def)

lemma path_Clean_canonical_id: "canonical p \<Longrightarrow> path_Clean p = p"
  by (auto simp: canonical_def path_Clean_abs_path)

lemma join_slash_snoc: "cs \<noteq> [] \<Longrightarrow> join_slash (cs @ [c]) = join_slash cs @ ''/'' @ c"
  by (induction cs rule: join_slash.induct) auto

lemma abs_path_snoc: "abs_path (cs @ [c]) = (if cs = [] then ''/'' @ c else abs_path cs @ ''/'' @ c)"
  by (simp add: abs_path_def join_slash_snoc)

lemma path_Join_eq: "a \<noteq> '''' \<Longrightarrow> b \<noteq> '''' \<Longrightarrow> path_Join a b = path_Clean (a @ ''/'' @ b)"
  by (simp add: path_Join_def)

lemma path_Join_canonical: "canonical p \<Longrightarrow> canonical (path_Join p name)"
  using canonical_ne [of p]
  by (auto simp: path_Join_def intro!: path_Clean_canonical)

lemma split_slash_append_slash: "split_slash (a @ ''/'' @ b) = split_slash a @ split_slash b"
  by (induction a) (auto split: list.split)

lemma path_Join_good:
  assumes "list_all good_comp cs" and "good_comp c"
  shows "path_Join (abs_path cs) c = abs_path (cs @ [c])"
proof -
  have ne: "abs_path cs \<noteq> []" "c \<noteq> []" and ns: "CHR ''/'' \<notin> set c"
    using assms(2) by (auto simp: abs_path_def good_comp_def)
  have sp: "split_slash (abs_path cs @ ''/'' @ c) = split_slash (abs_path cs) @ [c]"
    using split_slash_append_slash [of "abs_path cs" c] ns by (simp add: split_slash_single)
  have "fold (clean_step True) (split_slash (abs_path cs)) [] = cs"
  proof (cases "cs = []")
    case False
    with assms(1) show ?thesis
      by (simp add: abs_path_def split_join good_no_slash fold_clean_good clean_step_def)
  qed (simp add: abs_path_def clean_step_def)
  with sp assms(2) have "fold (clean_step True) (split_slash (abs_path cs @ ''/'' @ c)) [] = cs @ [c]"
    by (simp add: clean_step_good)
  then show ?thesis
    using ne by (simp add: path_Join_eq path_Clean_def abs_path_def)
qed

lemma abs_path_prefix: "strings_HasPrefix (abs_path (cs @ [c])) (abs_path cs)"
  by (cases "cs = []") (simp_all add: strings_HasPrefix_def abs_path_def join_slash_snoc)

lemma good_comp_sanitize:
  "good_comp name \<and> CHR 0x5C \<notin> set name \<longleftrightarrow>
    \<not> (name = '''' \<or> (strings_Contains name ''/'' \<or> strings_Contains name [CHR 0x5C]) \<or>
       (name = ''..'' \<or> name = ''.''))"
  by (auto simp: good_comp_def)

lemma sanitizePath_abs_path:
  assumes "list_all good_comp cs"
  shows "sanitizePath (abs_path cs) name = Inr p \<longleftrightarrow>
    good_comp name \<and> CHR 0x5C \<notin> set name \<and> p = abs_path (cs @ [name]) \<and> \<not> strings_Contains p ''..''"
proof (cases "good_comp name \<and> CHR 0x5C \<notin> set name")
  case True
  then have good: "list_all good_comp (cs @ [name])" using assms by simp
  have "sanitizePath (abs_path cs) name =
      (if strings_Contains (abs_path (cs @ [name])) ''..''
       then Inl (ErrText ''invalid path: contains parent directory reference'')
       else Inr (abs_path (cs @ [name])))"
    using True [unfolded good_comp_sanitize] True assms
    by (simp add: sanitizePath_def path_Join_good path_Clean_abs_path good abs_path_prefix del: strings_Contains_single)
  with True show ?thesis by auto
next
  case False
  then have "\<nexists>q. sanitizePath (abs_path cs) name = Inr q"
    unfolding good_comp_sanitize by (auto simp: sanitizePath_def)
  with False show ?thesis by blast
qed

lemma validateFilename_OK:
  "validateFilename name = NFS_OK \<longleftrightarrow>
    good_comp name \<and> length name \<le> 255 \<and> CHR 0x00 \<notin> set name \<and> CHR 0x5C \<notin> set name"
  by (auto simp: validateFilename_def validateFilename_on_def strings_ContainsAny_def good_comp_def)

section \<open>Properties\<close>

text \<open>
  C22: The traversal guard confines names to their directory: below a canonical directory,
  \<open>sanitizePath\<close> accepts exactly the names that are one proper path component without a backslash and
  whose path contains no two dots in a row, and the path it returns is the directory's own path
  extended by that component.
\<close>

theorem sanitizePath_confines:
  assumes "list_all good_comp cs"
  shows "sanitizePath (abs_path cs) name = Inr p \<longleftrightarrow>
    good_comp name \<and> CHR 0x5C \<notin> set name \<and> p = abs_path (cs @ [name]) \<and> \<not> strings_Contains p ''..''"
  using assms by (rule sanitizePath_abs_path)

theorem sanitizePath_confines_witness:
  "sanitizePath ''/etc'' ''passwd'' = Inr ''/etc/passwd'' \<and> sanitizePath ''/etc'' ''..'' \<noteq> Inr ''/''"
proof -
  have c: "list_all good_comp [''etc'']" "abs_path [''etc''] = ''/etc''"
    "abs_path ([''etc''] @ [''passwd'']) = ''/etc/passwd''" "good_comp ''passwd''" "\<not> good_comp ''..''"
    "\<not> strings_Contains ''/etc/passwd'' ''..''" "CHR 0x5C \<notin> set ''passwd''"
    by code_simp+
  show ?thesis
    using sanitizePath_confines [OF c(1), of "''passwd''" "''/etc/passwd''"]
      sanitizePath_confines [OF c(1), of "''..''" "''/''"] c by simp
qed

text \<open>
  \<open>validateFilename\<close> accepts exactly the names that are one proper path component of at most 255
  bytes without NUL and backslash.
\<close>

theorem validateFilename_exact:
  "validateFilename name = NFS_OK \<longleftrightarrow>
    good_comp name \<and> length name \<le> 255 \<and> CHR 0x00 \<notin> set name \<and> CHR 0x5C \<notin> set name"
  by (rule validateFilename_OK)

text \<open>
  The guard compares substrings where its comment speaks of components: a file name such as
  \<open>a..b\<close> passes \<open>validateFilename\<close> and is no parent reference, yet \<open>sanitizePath\<close> rejects it.
\<close>

theorem sanitizePath_rejects_inner_dots:
  "validateFilename ''a..b'' = NFS_OK \<and> good_comp ''a..b'' \<and>
   sanitizePath ''/'' ''a..b'' = Inl (ErrText ''invalid path: contains parent directory reference'')"
  by code_simp

end
