(* ===== verification/Auth.thy ===== *)
theory Auth
  imports RPC IPAddr Options Paths
begin

text \<open>
  Access control of \<open>auth.go\<close>: the check of a client against the policy, its address against
  the allowed addresses and networks, its port, its credential flavor, and the mapping of user
  and group ids (squashing).  \<open>ValidateAuthentication\<close> also changes the context it is given,
  so it returns both the result and the context.
\<close>

section \<open>Contexts and results\<close>

record Certificate =
  CommonName :: string
  DNSNames :: "string list"
  EmailAddresses :: "string list"

record AuthContext =
  ClientIP :: string
  ClientPort :: int
  ctx_Credential :: RPCCredential
  AuthSys :: "AuthSysCredential option"
  ClientCert :: "Certificate option"
  TLSEnabled :: bool
  EffectiveUID :: u32
  EffectiveGID :: u32

record AuthResult =
  Allowed :: bool
  ar_UID :: u32
  ar_GID :: u32
  Reason :: string

abbreviation (input) nobody :: u32 where "nobody \<equiv> 65534"

text \<open>\<open>strings.ToLower\<close> on ASCII letters, the only ones that can turn into a letter of a
  squash mode.\<close>

definition lower_char :: "char \<Rightarrow> char" where
  "lower_char c = (if 65 \<le> (of_char c :: nat) \<and> (of_char c :: nat) \<le> 90 then char_of ((of_char c :: nat) + 32) else c)"

definition to_lower :: "string \<Rightarrow> string" where
  "to_lower s = map lower_char s"

section \<open>Allowed addresses\<close>

definition normalizeIP :: "bytes \<Rightarrow> bytes" where
  "normalizeIP ip = (case To4 ip of Some v4 \<Rightarrow> v4 | None \<Rightarrow> ip)"

definition ip_matches :: "bytes \<Rightarrow> string \<Rightarrow> bool" where
  "ip_matches ip allowed =
     (if strings_Contains allowed ''/''
      then (case ParseCIDR allowed of None \<Rightarrow> False | Some subnet \<Rightarrow> IPNet_Contains subnet ip)
      else (case ParseIP allowed of None \<Rightarrow> False | Some a \<Rightarrow> IP_Equal (normalizeIP a) ip))"

definition isIPAllowed :: "string \<Rightarrow> string list \<Rightarrow> bool" where
  "isIPAllowed clientIP allowedIPs =
     (case ParseIP clientIP of
        None \<Rightarrow> False
      | Some ip \<Rightarrow> list_ex (ip_matches (normalizeIP ip)) allowedIPs)"

section \<open>Squashing and validation\<close>

definition applySquashing ::
    "AuthResult \<Rightarrow> AuthSysCredential \<Rightarrow> string \<Rightarrow> AuthResult \<times> AuthSysCredential" where
  "applySquashing result authSys squash =
     (let mode = to_lower squash
      in if mode = ''root'' then
           ((if as_UID authSys = 0 then result\<lparr>ar_UID := nobody, ar_GID := nobody\<rparr>
             else if ar_GID result = 0 then result\<lparr>ar_GID := nobody\<rparr>
             else result),
            authSys\<lparr>AuxGIDs := map (\<lambda>gid. if gid = 0 then nobody else gid) (AuxGIDs authSys)\<rparr>)
         else if mode = ''all'' then
           (result\<lparr>ar_UID := nobody, ar_GID := nobody\<rparr>,
            authSys\<lparr>AuxGIDs := map (\<lambda>_. nobody) (AuxGIDs authSys)\<rparr>)
         else if mode = ''none'' \<or> mode = [] then (result, authSys)
         else (result\<lparr>ar_UID := nobody, ar_GID := nobody\<rparr>, authSys))"

definition ValidateAuthentication ::
    "AuthContext \<Rightarrow> PolicyOptions \<Rightarrow> AuthResult \<times> AuthContext" where
  "ValidateAuthentication ctx policy =
     (let result = \<lparr>Allowed = False, ar_UID = nobody, ar_GID = nobody, Reason = []\<rparr>
      in if length (p_AllowedIPs policy) > 0 \<and> \<not> isIPAllowed (ClientIP ctx) (p_AllowedIPs policy)
         then (result\<lparr>Reason := ''client IP '' @ ClientIP ctx @ '' not in allowed list''\<rparr>, ctx)
         else if p_Secure policy \<and> ClientPort ctx \<ge> 1024
         then (result\<lparr>Reason := ''client port is not a privileged port (required when Secure=true)''\<rparr>, ctx)
         else if cred_Flavor (ctx_Credential ctx) = AUTH_NONE
         then (result\<lparr>Allowed := True, ar_UID := nobody, ar_GID := nobody\<rparr>, ctx)
         else if cred_Flavor (ctx_Credential ctx) = AUTH_SYS
         then
           (case (case AuthSys ctx of
                    Some a \<Rightarrow> Inr a
                  | None \<Rightarrow> ParseAuthSysCredential (cred_Body (ctx_Credential ctx))) of
              Inl e \<Rightarrow> (result\<lparr>Reason := ''invalid AUTH_SYS credentials''\<rparr>, ctx)
            | Inr authSys \<Rightarrow>
                let result = result\<lparr>Allowed := True, ar_UID := as_UID authSys, ar_GID := as_GID authSys\<rparr>;
                    (result, authSys) = applySquashing result authSys (p_Squash policy)
                in (result, ctx\<lparr>AuthSys := Some authSys\<rparr>))
         else (result\<lparr>Reason := ''unsupported authentication flavor''\<rparr>, ctx))"

definition ExtractCertificateIdentity :: "Certificate option \<Rightarrow> string" where
  "ExtractCertificateIdentity cert =
     (case cert of
        None \<Rightarrow> []
      | Some c \<Rightarrow>
          if CommonName c \<noteq> [] then CommonName c
          else if length (DNSNames c) > 0 then DNSNames c ! 0
          else if length (EmailAddresses c) > 0 then EmailAddresses c ! 0
          else ''unknown'')"

section \<open>What the address list means\<close>

lemma ParseIP_dotted: "ParseIP (dotted [a, b, c, d]) = Some (v4InV6Prefix @ [a, b, c, d])"
  by (simp add: ParseIP_def ParseAddr_dotted As16_def)

lemma ParseIP_mapped: "ParseIP (''::ffff:'' @ dotted [a, b, c, d]) = Some (v4InV6Prefix @ [a, b, c, d])"
  by (simp only: ParseIP_def ParseAddr_mapped option.map) (simp add: v4InV6Prefix_def As16_def)

lemma length_v4InV6Prefix [simp]: "length v4InV6Prefix = 12"
  by (simp add: v4InV6Prefix_def)

lemma normalizeIP_v4: "normalizeIP (v4InV6Prefix @ [a, b, c, d]) = [a, b, c, d]"
  by (simp add: normalizeIP_def To4_def)

lemma dotted_no_slash: "CHR ''/'' \<notin> set (dotted [a, b, c, d])"
  using dotted_chars [of "CHR ''/''" a b c d] by (auto simp: is_digit_def)

lemma takeWhile_slash:
  assumes "CHR ''/'' \<notin> set s"
  shows "takeWhile (\<lambda>c. c \<noteq> CHR ''/'') (s @ CHR ''/'' # t) = s"
    and "dropWhile (\<lambda>c. c \<noteq> CHR ''/'') (s @ CHR ''/'' # t) = CHR ''/'' # t"
proof -
  have "\<And>x. x \<in> set s \<Longrightarrow> x \<noteq> CHR ''/''" using assms by auto
  then show "takeWhile (\<lambda>c. c \<noteq> CHR ''/'') (s @ CHR ''/'' # t) = s"
    and "dropWhile (\<lambda>c. c \<noteq> CHR ''/'') (s @ CHR ''/'' # t) = CHR ''/'' # t"
    by (simp_all add: takeWhile_append2 dropWhile_append2)
qed

definition net4 :: "bytes \<Rightarrow> nat \<Rightarrow> IPNet" where
  "net4 net n = \<lparr>net_IP = map2 (AND) net (CIDRMask_bytes n 4), net_Mask = CIDRMask_bytes n 4\<rparr>"

lemma ParseCIDR_dotted:
  assumes "n \<le> 32"
  shows "ParseCIDR (dotted [a, b, c, d] @ ''/'' @ dec n) = Some (net4 [a, b, c, d] n)"
proof -
  have "ParseAddr (dotted [a, b, c, d]) = Some [a, b, c, d]" by (rule ParseAddr_dotted)
  moreover have "dtoi_all (dec n) = Some n" using assms by (simp add: dtoi_dec)
  moreover have "IP_Mask (As16 [a, b, c, d]) (CIDRMask_bytes n 4) =
      Some (map2 (AND) [a, b, c, d] (CIDRMask_bytes n 4))"
    by (simp add: IP_Mask_def As16_def)
  ultimately show ?thesis
    using assms by (simp add: ParseCIDR_def takeWhile_slash dotted_no_slash CIDRMask_def net4_def Let_def)
qed

lemma net4_Contains:
  assumes "n \<le> 32" "length net = 4" "length ip = 4"
  shows "IPNet_Contains (net4 net n) ip \<longleftrightarrow> same_prefix n net ip"
proof -
  have "IPNet_Contains (net4 net n) ip \<longleftrightarrow>
      (\<forall>i < 4. (net ! i) AND (CIDRMask_bytes n 4 ! i) = (ip ! i) AND (CIDRMask_bytes n 4 ! i))"
    using assms by (simp add: IPNet_Contains_def net4_def networkNumberAndMask_def To4_def and.assoc Let_def)
  also have "\<dots> \<longleftrightarrow> same_prefix n net ip"
    using masked_eq_iff [of n 4 net ip] assms(1) by simp
  finally show ?thesis .
qed

lemma ip_matches_dotted:
  "ip_matches [w, x, y, z] (dotted [a, b, c, d]) \<longleftrightarrow> [a, b, c, d] = [w, x, y, z]"
  by (simp add: ip_matches_def strings_Contains_single dotted_no_slash ParseIP_dotted normalizeIP_v4 IP_Equal_def)

lemma ip_matches_net:
  assumes "n \<le> 32"
  shows "ip_matches [w, x, y, z] (dotted [a, b, c, d] @ ''/'' @ dec n) \<longleftrightarrow>
    same_prefix n [a, b, c, d] [w, x, y, z]"
proof -
  have "strings_Contains (dotted [a, b, c, d] @ ''/'' @ dec n) ''/''"
    by (simp add: strings_Contains_single)
  then show ?thesis
    unfolding ip_matches_def ParseCIDR_dotted [OF assms] using assms by (simp add: net4_Contains)
qed

section \<open>Properties\<close>

text \<open>
  C21: The address list means what it says.  An IPv4 client is let in by a list of networks and
  single addresses, written in decimal, exactly when it shares the stated number of leading bits
  with one of the networks or is one of the addresses, and a client that presents the same
  address in IPv4-mapped IPv6 form gets the same answer for every list, so the mapped form neither
  bypasses the check nor locks a client out.
\<close>

theorem allowed_addresses:
  assumes "\<forall>(net, n) \<in> set nets. length net = 4 \<and> n \<le> 32" "\<forall>a \<in> set addrs. length a = 4"
  shows "(isIPAllowed (dotted [w, x, y, z]) (map (\<lambda>(net, n). dotted net @ ''/'' @ dec n) nets @ map dotted addrs) \<longleftrightarrow>
      (\<exists>(net, n) \<in> set nets. same_prefix n net [w, x, y, z]) \<or> [w, x, y, z] \<in> set addrs) \<and>
    isIPAllowed (''::ffff:'' @ dotted [w, x, y, z]) l = isIPAllowed (dotted [w, x, y, z]) l"
proof
  have four: "\<exists>a b c d. v = [a, b, c, d]" if "length v = 4" for v :: bytes
    using that by (simp add: eval_nat_numeral length_Suc_conv) blast
  have net: "ip_matches [w, x, y, z] (dotted v @ ''/'' @ dec n) \<longleftrightarrow> same_prefix n v [w, x, y, z]"
    if "(v, n) \<in> set nets" for v n
    using assms(1) that four [of v] ip_matches_net by fastforce
  have addr: "ip_matches [w, x, y, z] (dotted v) \<longleftrightarrow> v = [w, x, y, z]" if "v \<in> set addrs" for v
    using assms(2) that four [of v] ip_matches_dotted by fastforce
  have nets: "list_ex (ip_matches [w, x, y, z]) (map (\<lambda>(net, n). dotted net @ ''/'' @ dec n) nets) \<longleftrightarrow>
      (\<exists>(v, n) \<in> set nets. same_prefix n v [w, x, y, z])"
    unfolding list_ex_iff set_map bex_simps(7) using net by (auto intro!: bex_cong)
  have addrs: "list_ex (ip_matches [w, x, y, z]) (map dotted addrs) \<longleftrightarrow> [w, x, y, z] \<in> set addrs"
    unfolding list_ex_iff set_map bex_simps(7) using addr by auto
  show "isIPAllowed (dotted [w, x, y, z]) (map (\<lambda>(net, n). dotted net @ ''/'' @ dec n) nets @ map dotted addrs) \<longleftrightarrow>
      (\<exists>(net, n) \<in> set nets. same_prefix n net [w, x, y, z]) \<or> [w, x, y, z] \<in> set addrs"
    unfolding isIPAllowed_def ParseIP_dotted option.case normalizeIP_v4 list_ex_append nets addrs ..
  show "isIPAllowed (''::ffff:'' @ dotted [w, x, y, z]) l = isIPAllowed (dotted [w, x, y, z]) l"
    by (simp only: isIPAllowed_def ParseIP_dotted ParseIP_mapped)
qed

theorem allowed_addresses_witness:
  "isIPAllowed (dotted [10, 1, 200, 7]) (map (\<lambda>(net, n). dotted net @ ''/'' @ dec n) [([10, 1, 0, 0], 16)] @ map dotted []) \<and>
   \<not> isIPAllowed (''::ffff:'' @ dotted [10, 2, 200, 7])
       (map (\<lambda>(net, n). dotted net @ ''/'' @ dec n) [([10, 1, 0, 0], 16)] @ map dotted [])"
proof -
  have y: "same_prefix 16 [10, 1, 0, 0] [10, 1, 200, 7]" by code_simp
  have n: "\<not> same_prefix 16 [10, 1, 0, 0] [10, 2, 200, 7]" by code_simp
  show ?thesis
    using allowed_addresses [of "[([10, 1, 0, 0], 16)]" "[]" 10 1 200 7]
      allowed_addresses [of "[([10, 1, 0, 0], 16)]" "[]" 10 2 200 7] y n by simp
qed

text \<open>
  C20: Authentication decides exactly by address, port and flavor, and squashing leaves no root.
  A request is allowed if and only if the address list is empty or contains the client, the port is
  privileged when the policy asks for it, and the credential is \<open>AUTH_NONE\<close> or a readable
  \<open>AUTH_SYS\<close> one.  A denied or anonymous client is nobody; unless the mode is \<open>none\<close> or
  empty, neither the effective user nor the effective group is ever root, whatever the case of the
  mode's letters; the modes \<open>root\<close> and \<open>all\<close> also clear root from the auxiliary groups; mode
  \<open>none\<close> passes on the ids of the credential that was received and leaves that credential as it is.
\<close>

theorem authentication_decision:
  "(case ValidateAuthentication ctx policy of (r, ctx') \<Rightarrow>
     (Allowed r \<longleftrightarrow>
        (p_AllowedIPs policy = [] \<or> isIPAllowed (ClientIP ctx) (p_AllowedIPs policy)) \<and>
        (p_Secure policy \<longrightarrow> ClientPort ctx < 1024) \<and>
        (cred_Flavor (ctx_Credential ctx) = AUTH_NONE \<or>
         cred_Flavor (ctx_Credential ctx) = AUTH_SYS \<and>
           (AuthSys ctx \<noteq> None \<or> (\<exists>a. ParseAuthSysCredential (cred_Body (ctx_Credential ctx)) = Inr a)))) \<and>
     (\<not> Allowed r \<or> cred_Flavor (ctx_Credential ctx) = AUTH_NONE \<longrightarrow>
        ar_UID r = nobody \<and> ar_GID r = nobody \<and> ctx' = ctx) \<and>
     (to_lower (p_Squash policy) \<notin> {''none'', []} \<longrightarrow> ar_UID r \<noteq> 0 \<and> ar_GID r \<noteq> 0) \<and>
     (Allowed r \<and> cred_Flavor (ctx_Credential ctx) = AUTH_SYS \<longrightarrow>
        (\<exists>received a.
           (case AuthSys ctx of Some a \<Rightarrow> Inr a | None \<Rightarrow> ParseAuthSysCredential (cred_Body (ctx_Credential ctx))) = Inr received \<and>
           AuthSys ctx' = Some a \<and>
           (to_lower (p_Squash policy) \<in> {''root'', ''all''} \<longrightarrow> 0 \<notin> set (AuxGIDs a)) \<and>
           (to_lower (p_Squash policy) \<in> {''none'', []} \<longrightarrow>
              a = received \<and> ar_UID r = as_UID received \<and> ar_GID r = as_GID received))))"
proof -
  define a where "a = (case AuthSys ctx of Some a \<Rightarrow> Inr a
                  | None \<Rightarrow> ParseAuthSysCredential (cred_Body (ctx_Credential ctx)))"
  have ex: "(\<exists>x. a = Inr x) \<longleftrightarrow> AuthSys ctx \<noteq> None \<or>
      (\<exists>a. ParseAuthSysCredential (cred_Body (ctx_Credential ctx)) = Inr a)"
    by (cases "AuthSys ctx") (simp_all add: a_def)
  show ?thesis
    unfolding ValidateAuthentication_def a_def [symmetric] ex [symmetric]
    by (cases a) (auto simp: applySquashing_def Let_def)
qed

text \<open>
  Root squashing touches root only: with mode \<open>root\<close>, a user that is not root keeps its user
  id and every group other than group 0, so that squashing denies no access it should not.
\<close>

theorem root_squash_keeps_others:
  assumes "cred_Flavor (ctx_Credential ctx) = AUTH_SYS" "AuthSys ctx = Some a"
    "to_lower (p_Squash policy) = ''root''" "as_UID a \<noteq> 0"
    "Allowed (fst (ValidateAuthentication ctx policy))"
  shows "ar_UID (fst (ValidateAuthentication ctx policy)) = as_UID a \<and>
    (as_GID a \<noteq> 0 \<longrightarrow> ar_GID (fst (ValidateAuthentication ctx policy)) = as_GID a) \<and>
    (\<exists>a'. AuthSys (snd (ValidateAuthentication ctx policy)) = Some a' \<and>
       (\<forall>g. g \<noteq> 0 \<and> g \<noteq> nobody \<longrightarrow> (g \<in> set (AuxGIDs a') \<longleftrightarrow> g \<in> set (AuxGIDs a))))"
  using assms by (auto simp: ValidateAuthentication_def applySquashing_def Let_def split: if_splits)

definition sample_policy :: PolicyOptions where
  "sample_policy = (policyFromExportOptions sample_options)\<lparr>p_Squash := ''Root''\<rparr>"

definition sample_ctx :: AuthContext where
  "sample_ctx = \<lparr>ClientIP = ''10.1.2.3'', ClientPort = 700,
     ctx_Credential = \<lparr>cred_Flavor = AUTH_SYS, cred_Body = []\<rparr>,
     AuthSys = Some \<lparr>Stamp = 0, MachineName = ''box'', as_UID = 1000, as_GID = 100, AuxGIDs = [0, 27]\<rparr>,
     ClientCert = None, TLSEnabled = False, EffectiveUID = 0, EffectiveGID = 0\<rparr>"

lemma to_lower_Root: "to_lower ''Root'' = ''root''"
  by code_simp

theorem authentication_decision_witness:
  "Allowed (fst (ValidateAuthentication sample_ctx sample_policy)) \<and>
   ar_UID (fst (ValidateAuthentication sample_ctx sample_policy)) \<noteq> 0 \<and>
   (\<exists>a. AuthSys (snd (ValidateAuthentication sample_ctx sample_policy)) = Some a \<and> 0 \<notin> set (AuxGIDs a))"
proof -
  obtain r ctx' where v: "ValidateAuthentication sample_ctx sample_policy = (r, ctx')" by fastforce
  have "p_AllowedIPs sample_policy = []" "\<not> p_Secure sample_policy" "p_Squash sample_policy = ''Root''"
    "cred_Flavor (ctx_Credential sample_ctx) = AUTH_SYS" "AuthSys sample_ctx \<noteq> None"
    by (simp_all add: sample_policy_def sample_ctx_def policyFromExportOptions_def sample_options_def)
  then show ?thesis
    using authentication_decision [where ctx = sample_ctx and policy = sample_policy] unfolding v by (auto simp: to_lower_Root)
qed

end
