(* ===== verification/World.thy ===== *)
theory World
  imports GoMonad FileHandle Cache Auth
begin

text \<open>
  The state of the server object \<open>AbsfsNFS\<close> (\<open>types.go\<close>) and the basic steps on it.

  The exported file system is third-party code behind the interface
  \<open>absfs.SymlinkFileSystem\<close>: it is a parameter, a record of its methods over an arbitrary type
  \<open>'fs\<close> of file system states and \<open>'f\<close> of open files.  Methods that only look are functions
  of the state, methods that change it return the new state.  Nothing is assumed of them here;
  what a theorem relies on it states as a hypothesis.

  The attributes of a node are mutable and shared by everyone who holds the node, so they live
  in a store of cells.  The clock is a sequence of readings, one per call of \<open>time.Now\<close>.
\<close>

section \<open>The exported file system\<close>

datatype open_flag = O_RDONLY | O_WRONLY

datatype fs_call =
    Remove_call string
  | Rename_call string string
  | Mkdir_call string u32
  | Symlink_call string string
  | Chmod_call string u32
  | Chown_call string int int
  | Lchown_call string int int
  | Chtimes_call string time time
  | Truncate_call string int

text \<open>The paths a call acts on; the target of a new symbolic link is data.\<close>

fun call_paths :: "fs_call \<Rightarrow> string list" where
  "call_paths (Remove_call p) = [p]"
| "call_paths (Rename_call p q) = [p, q]"
| "call_paths (Mkdir_call p m) = [p]"
| "call_paths (Symlink_call t p) = [p]"
| "call_paths (Chmod_call p m) = [p]"
| "call_paths (Chown_call p u g) = [p]"
| "call_paths (Lchown_call p u g) = [p]"
| "call_paths (Chtimes_call p a m) = [p]"
| "call_paths (Truncate_call p n) = [p]"

record ('fs, 'f) FileSystem =
  fs_Lstat :: "'fs \<Rightarrow> string \<Rightarrow> FileInfo result"
  fs_Stat :: "'fs \<Rightarrow> string \<Rightarrow> FileInfo result"
  fs_Readlink :: "'fs \<Rightarrow> string \<Rightarrow> string result"
  fs_OpenFile :: "'fs \<Rightarrow> string \<Rightarrow> open_flag \<Rightarrow> 'f result"
  f_Stat :: "'fs \<Rightarrow> 'f \<Rightarrow> FileInfo result"
  f_ReadAt :: "'fs \<Rightarrow> 'f \<Rightarrow> nat \<Rightarrow> int \<Rightarrow> bytes \<times> goerr option"
  f_Readdir :: "'fs \<Rightarrow> 'f \<Rightarrow> FileInfo list result"
  f_WriteAt :: "'fs \<Rightarrow> 'f \<Rightarrow> bytes \<Rightarrow> int \<Rightarrow> (int \<times> goerr option) \<times> 'fs"
  f_Close :: "'fs \<Rightarrow> 'f \<Rightarrow> goerr option \<times> 'fs"
  fs_Create :: "'fs \<Rightarrow> string \<Rightarrow> 'f result \<times> 'fs"
  fs_Do :: "'fs \<Rightarrow> fs_call \<Rightarrow> goerr option \<times> 'fs"

section \<open>The server object\<close>

record ('fs, 'f) AbsfsNFS =
  ops :: "('fs, 'f) FileSystem"
  fs :: 'fs
  root :: NFSNode
  fileMap :: FileHandleMap
  mountPath :: string
  attrCache :: AttrCache
  dirCache :: "DirCache option"
  rateLimiter :: "RateLimiter option"
  tuning :: TuningOptions
  policy :: PolicyOptions
  writeVerf :: bytes
  cells :: "nat \<Rightarrow> NFSAttrs"
  next_cell :: nat
  clock :: "nat \<Rightarrow> time"
  tick :: nat

type_synonym ('fs, 'f, 'a) op = "(('fs, 'f) AbsfsNFS, 'a) state"

section \<open>Time\<close>

definition time_Now :: "('fs, 'f, time) op" where
  "time_Now = State (\<lambda>w. (clock w (tick w), w\<lparr>tick := tick w + 1\<rparr>))"

text \<open>The next \<open>n\<close> readings, for a component that takes several.\<close>

definition readings :: "nat \<Rightarrow> ('fs, 'f, nat \<Rightarrow> time) op" where
  "readings n = State (\<lambda>w. (\<lambda>i. clock w (tick w + i), w\<lparr>tick := tick w + n\<rparr>))"

text \<open>\<open>context.WithTimeout\<close> on the background context is a deadline; \<open>ctx.Done()\<close> is ready
  from the deadline on.\<close>

definition WithTimeout :: "duration \<Rightarrow> ('fs, 'f, time) op" where
  "WithTimeout d = do { now \<leftarrow> time_Now; State_Monad.return (now + d) }"

definition ctx_Done :: "time \<Rightarrow> ('fs, 'f, bool) op" where
  "ctx_Done deadline = do { now \<leftarrow> time_Now; State_Monad.return (now \<ge> deadline) }"

text \<open>
  \<open>tuning.Timeouts\<close>, a pointer that the operations dereference without a check.  \<open>New\<close> sets it and
  \<open>UpdateExportOptions\<close> keeps it set; a function passed to \<open>UpdateTuningOptions\<close> can make it nil,
  and then the dereference panics: the model gives no particular timeouts for that case.
\<close>

definition Timeouts :: "('fs, 'f, TimeoutConfig) op" where
  "Timeouts = asks (\<lambda>w. the (t_Timeouts (tuning w)))"

section \<open>Nodes and their attributes\<close>

definition new_node :: "string \<Rightarrow> NFSAttrs \<Rightarrow> ('fs, 'f, NFSNode) op" where
  "new_node p attrs = State (\<lambda>w.
     (\<lparr>n_path = p, n_cell = next_cell w\<rparr>,
      w\<lparr>cells := (cells w)(next_cell w := attrs), next_cell := next_cell w + 1\<rparr>))"

definition node_attrs :: "NFSNode \<Rightarrow> ('fs, 'f, NFSAttrs) op" where
  "node_attrs node = asks (\<lambda>w. cells w (n_cell node))"

definition update_attrs :: "NFSNode \<Rightarrow> (NFSAttrs \<Rightarrow> NFSAttrs) \<Rightarrow> ('fs, 'f, unit) op" where
  "update_attrs node f = modify (\<lambda>w. w\<lparr>cells := (cells w)(n_cell node := f (cells w (n_cell node)))\<rparr>)"

definition allocate_handle :: "NFSNode \<Rightarrow> ('fs, 'f, u64) op" where
  "allocate_handle node = State (\<lambda>w.
     (case Allocate (fileMap w) (NodeFile node) of (h, fm) \<Rightarrow> (h, w\<lparr>fileMap := fm\<rparr>)))"

section \<open>Cache calls\<close>

definition cache_Get :: "string \<Rightarrow> ('fs, 'f, NFSAttrs option \<times> bool) op" where
  "cache_Get p = do {
     now1 \<leftarrow> time_Now; now2 \<leftarrow> time_Now;
     State (\<lambda>w. case AttrCache_Get p now1 now2 (attrCache w) of (r, c) \<Rightarrow> (r, w\<lparr>attrCache := c\<rparr>)) }"

definition cache_Put :: "string \<Rightarrow> NFSAttrs \<Rightarrow> ('fs, 'f, unit) op" where
  "cache_Put p attrs = do {
     now \<leftarrow> time_Now; modify (\<lambda>w. w\<lparr>attrCache := AttrCache_Put p attrs now (attrCache w)\<rparr>) }"

definition cache_PutNegative :: "string \<Rightarrow> ('fs, 'f, unit) op" where
  "cache_PutNegative p = do {
     now \<leftarrow> time_Now; modify (\<lambda>w. w\<lparr>attrCache := PutNegative p now (attrCache w)\<rparr>) }"

definition cache_Invalidate :: "string \<Rightarrow> ('fs, 'f, unit) op" where
  "cache_Invalidate p = modify (\<lambda>w. w\<lparr>attrCache := AttrCache_Invalidate p (attrCache w)\<rparr>)"

definition cache_InvalidateNegativeInDir :: "string \<Rightarrow> ('fs, 'f, unit) op" where
  "cache_InvalidateNegativeInDir p = modify (\<lambda>w. w\<lparr>attrCache := InvalidateNegativeInDir p (attrCache w)\<rparr>)"

text \<open>Calls on the directory cache are made only when there is one.\<close>

definition dircache_Get :: "string \<Rightarrow> ('fs, 'f, FileInfo list option) op" where
  "dircache_Get p = do {
     now1 \<leftarrow> time_Now; now2 \<leftarrow> time_Now;
     State (\<lambda>w. case dirCache w of
         None \<Rightarrow> (None, w)
       | Some c \<Rightarrow> (case DirCache_Get p now1 now2 c of (r, c) \<Rightarrow> (r, w\<lparr>dirCache := Some c\<rparr>))) }"

definition dircache_Put :: "string \<Rightarrow> FileInfo list \<Rightarrow> ('fs, 'f, unit) op" where
  "dircache_Put p entries = do {
     now \<leftarrow> time_Now;
     modify (\<lambda>w. w\<lparr>dirCache := map_option (DirCache_Put p entries now) (dirCache w)\<rparr>) }"

definition dircache_Invalidate :: "string \<Rightarrow> ('fs, 'f, unit) op" where
  "dircache_Invalidate p = modify (\<lambda>w. w\<lparr>dirCache := map_option (DirCache_Invalidate p) (dirCache w)\<rparr>)"

section \<open>File system calls\<close>

definition Lstat :: "string \<Rightarrow> ('fs, 'f, FileInfo result) op" where
  "Lstat p = asks (\<lambda>w. fs_Lstat (ops w) (fs w) p)"

definition Stat :: "string \<Rightarrow> ('fs, 'f, FileInfo result) op" where
  "Stat p = asks (\<lambda>w. fs_Stat (ops w) (fs w) p)"

definition OpenFile :: "string \<Rightarrow> open_flag \<Rightarrow> ('fs, 'f, 'f result) op" where
  "OpenFile p flag = asks (\<lambda>w. fs_OpenFile (ops w) (fs w) p flag)"

definition file_Stat :: "'f \<Rightarrow> ('fs, 'f, FileInfo result) op" where
  "file_Stat f = asks (\<lambda>w. f_Stat (ops w) (fs w) f)"

definition file_ReadAt :: "'f \<Rightarrow> nat \<Rightarrow> int \<Rightarrow> ('fs, 'f, bytes \<times> goerr option) op" where
  "file_ReadAt f n off = asks (\<lambda>w. f_ReadAt (ops w) (fs w) f n off)"

definition file_Readdir :: "'f \<Rightarrow> ('fs, 'f, FileInfo list result) op" where
  "file_Readdir f = asks (\<lambda>w. f_Readdir (ops w) (fs w) f)"

definition file_WriteAt :: "'f \<Rightarrow> bytes \<Rightarrow> int \<Rightarrow> ('fs, 'f, int \<times> goerr option) op" where
  "file_WriteAt f data off = State (\<lambda>w. case f_WriteAt (ops w) (fs w) f data off of (r, s) \<Rightarrow> (r, w\<lparr>fs := s\<rparr>))"

definition file_Close :: "'f \<Rightarrow> ('fs, 'f, goerr option) op" where
  "file_Close f = State (\<lambda>w. case f_Close (ops w) (fs w) f of (r, s) \<Rightarrow> (r, w\<lparr>fs := s\<rparr>))"

definition create_file :: "string \<Rightarrow> ('fs, 'f, 'f result) op" where
  "create_file p = State (\<lambda>w. case fs_Create (ops w) (fs w) p of (r, s) \<Rightarrow> (r, w\<lparr>fs := s\<rparr>))"

definition call_fs :: "fs_call \<Rightarrow> ('fs, 'f, goerr option) op" where
  "call_fs c = State (\<lambda>w. case fs_Do (ops w) (fs w) c of (r, s) \<Rightarrow> (r, w\<lparr>fs := s\<rparr>))"

section \<open>How the basic steps run\<close>

lemma run_time [run_simps]:
  "run_state time_Now w = (clock w (tick w), w\<lparr>tick := tick w + 1\<rparr>)"
  "run_state (readings n) w = (\<lambda>i. clock w (tick w + i), w\<lparr>tick := tick w + n\<rparr>)"
  "run_state (WithTimeout d) w = (clock w (tick w) + d, w\<lparr>tick := tick w + 1\<rparr>)"
  "run_state (ctx_Done t) w = (clock w (tick w) \<ge> t, w\<lparr>tick := tick w + 1\<rparr>)"
  "run_state Timeouts w = (the (t_Timeouts (tuning w)), w)"
  by (simp_all add: time_Now_def readings_def WithTimeout_def ctx_Done_def Timeouts_def run_asks)

lemma run_nodes [run_simps]:
  "run_state (new_node p attrs) w =
     (\<lparr>n_path = p, n_cell = next_cell w\<rparr>,
      w\<lparr>cells := (cells w)(next_cell w := attrs), next_cell := next_cell w + 1\<rparr>)"
  "run_state (node_attrs node) w = (cells w (n_cell node), w)"
  "run_state (update_attrs node f) w = ((), w\<lparr>cells := (cells w)(n_cell node := f (cells w (n_cell node)))\<rparr>)"
  "run_state (allocate_handle node) w =
     (fst (Allocate (fileMap w) (NodeFile node)), w\<lparr>fileMap := snd (Allocate (fileMap w) (NodeFile node))\<rparr>)"
  by (simp_all add: new_node_def node_attrs_def update_attrs_def allocate_handle_def run_asks run_modify
      split: prod.split)

lemma run_cache [run_simps]:
  "run_state (cache_Get p) w =
     (let r = AttrCache_Get p (clock w (tick w)) (clock w (tick w + 1)) (attrCache w)
      in (fst r, w\<lparr>tick := tick w + 2, attrCache := snd r\<rparr>))"
  "run_state (cache_Put p attrs) w =
     ((), w\<lparr>tick := tick w + 1, attrCache := AttrCache_Put p attrs (clock w (tick w)) (attrCache w)\<rparr>)"
  "run_state (cache_PutNegative p) w =
     ((), w\<lparr>tick := tick w + 1, attrCache := PutNegative p (clock w (tick w)) (attrCache w)\<rparr>)"
  "run_state (cache_Invalidate p) w = ((), w\<lparr>attrCache := AttrCache_Invalidate p (attrCache w)\<rparr>)"
  "run_state (cache_InvalidateNegativeInDir p) w = ((), w\<lparr>attrCache := InvalidateNegativeInDir p (attrCache w)\<rparr>)"
  by (simp_all add: cache_Get_def cache_Put_def cache_PutNegative_def cache_Invalidate_def
      cache_InvalidateNegativeInDir_def run_time run_modify Let_def split: prod.split)

lemma run_dircache [run_simps]:
  "run_state (dircache_Get p) w =
     (case dirCache w of
        None \<Rightarrow> (None, w\<lparr>tick := tick w + 2\<rparr>)
      | Some c \<Rightarrow>
          let r = DirCache_Get p (clock w (tick w)) (clock w (tick w + 1)) c
          in (fst r, w\<lparr>tick := tick w + 2, dirCache := Some (snd r)\<rparr>))"
  "run_state (dircache_Put p entries) w =
     ((), w\<lparr>tick := tick w + 1, dirCache := map_option (DirCache_Put p entries (clock w (tick w))) (dirCache w)\<rparr>)"
  "run_state (dircache_Invalidate p) w =
     ((), w\<lparr>dirCache := map_option (DirCache_Invalidate p) (dirCache w)\<rparr>)"
  by (simp_all add: dircache_Get_def dircache_Put_def dircache_Invalidate_def run_time run_modify Let_def
      split: prod.split option.split)

lemma run_fs [run_simps]:
  "run_state (Lstat p) w = (fs_Lstat (ops w) (fs w) p, w)"
  "run_state (Stat p) w = (fs_Stat (ops w) (fs w) p, w)"
  "run_state (OpenFile p flag) w = (fs_OpenFile (ops w) (fs w) p flag, w)"
  "run_state (file_Stat f) w = (f_Stat (ops w) (fs w) f, w)"
  "run_state (file_ReadAt f n off) w = (f_ReadAt (ops w) (fs w) f n off, w)"
  "run_state (file_Readdir f) w = (f_Readdir (ops w) (fs w) f, w)"
  "run_state (file_WriteAt f data off) w =
     (fst (f_WriteAt (ops w) (fs w) f data off), w\<lparr>fs := snd (f_WriteAt (ops w) (fs w) f data off)\<rparr>)"
  "run_state (file_Close f) w = (fst (f_Close (ops w) (fs w) f), w\<lparr>fs := snd (f_Close (ops w) (fs w) f)\<rparr>)"
  "run_state (create_file p) w = (fst (fs_Create (ops w) (fs w) p), w\<lparr>fs := snd (fs_Create (ops w) (fs w) p)\<rparr>)"
  "run_state (call_fs c) w = (fst (fs_Do (ops w) (fs w) c), w\<lparr>fs := snd (fs_Do (ops w) (fs w) c)\<rparr>)"
  by (simp_all add: Lstat_def Stat_def OpenFile_def file_Stat_def file_ReadAt_def file_Readdir_def
      file_WriteAt_def file_Close_def create_file_def call_fs_def run_asks split: prod.split)

end
