(* ===== verification/Operations.thy ===== *)
theory Operations
  imports World
begin

text \<open>
  The operations of \<open>operations.go\<close> on the server object, and \<open>NFSNode.Truncate\<close> of
  \<open>nfs_node.go\<close>.  Each \<open>...WithContext\<close> function is modelled with the background context, the
  only one the sources pass.  Arguments that are never nil in the model (nodes, attributes, data)
  have no nil check.  Logging and metrics have no counterpart.
\<close>

section \<open>Lookup and attributes\<close>

text \<open>\<open>hash/fnv\<close>: the 64-bit FNV-1a hash, from which file ids are made.\<close>

definition fnv64a :: "string \<Rightarrow> u64" where
  "fnv64a s = fold (\<lambda>c h. (h XOR of_nat (of_char c)) * 1099511628211) s 14695981039346656037"

definition attrs_from_info :: "FileInfo \<Rightarrow> u64 \<Rightarrow> u32 \<Rightarrow> u32 \<Rightarrow> time \<Rightarrow> NFSAttrs" where
  "attrs_from_info info fileId uid gid now =
     Refresh now
       \<lparr>Mode = fi_Mode info, Size = fi_Size info, FileId = fileId, mtime = fi_ModTime info,
        atime = fi_ModTime info, Uid = uid, Gid = gid, validUntil = 0\<rparr>"

definition Lookup :: "string \<Rightarrow> ('fs, 'f, NFSNode result) op" where
  "Lookup path =
     (if path = [] then State_Monad.return (Inl (ErrText ''empty path''))
      else do {
        t \<leftarrow> Timeouts;
        ctx \<leftarrow> WithTimeout (LookupTimeout t);
        expired \<leftarrow> ctx_Done ctx;
        if expired then State_Monad.return (Inl ErrTimeout)
        else do {
          (attrs, found) \<leftarrow> cache_Get path;
          if found then
            (case attrs of
               None \<Rightarrow> State_Monad.return (Inl (Wrap (''lookup: failed to stat '' @ path) ErrNotExist))
             | Some attrs \<Rightarrow> do { node \<leftarrow> new_node path attrs; State_Monad.return (Inr node) })
          else
            attempt (Lstat path)
              (\<lambda>err. do {
                 (if os_IsNotExist err then cache_PutNegative path else skip);
                 State_Monad.return (Inl (Wrap (''lookup: failed to stat '' @ path) err)) })
              (\<lambda>info. do {
                 now \<leftarrow> time_Now;
                 let attrs = attrs_from_info info (fnv64a path) 0 0 now;
                 node \<leftarrow> new_node path attrs;
                 cache_Put path attrs;
                 State_Monad.return (Inr node) }) } })"

definition GetAttr :: "NFSNode \<Rightarrow> ('fs, 'f, NFSAttrs result) op" where
  "GetAttr node = do {
     (cached, found) \<leftarrow> cache_Get (n_path node);
     now \<leftarrow> time_Now;
     if found \<and> (case cached of Some attrs \<Rightarrow> IsValid attrs now | None \<Rightarrow> False)
     then State_Monad.return (Inr (the cached))
     else
       attempt (Lstat (n_path node))
         (\<lambda>err. State_Monad.return (Inl (Wrap (''getattr: failed to stat '' @ n_path node) err)))
         (\<lambda>info. do {
            old \<leftarrow> node_attrs node;
            now \<leftarrow> time_Now;
            let attrs = attrs_from_info info (fnv64a (n_path node)) (Uid old) (Gid old) now;
            cache_Put (n_path node) attrs;
            State_Monad.return (Inr attrs) }) }"

definition when_err :: "bool \<Rightarrow> string \<Rightarrow> ('fs, 'f, goerr option) op \<Rightarrow> ('fs, 'f, goerr option) op \<Rightarrow> ('fs, 'f, goerr option) op" where
  "when_err cond msg m k =
     (if cond then check m (\<lambda>err. State_Monad.return (Some (Wrap msg err))) k else k)"

definition SetAttr :: "NFSNode \<Rightarrow> NFSAttrs \<Rightarrow> ('fs, 'f, goerr option) op" where
  "SetAttr node attrs =
     attempt (Stat (n_path node))
       (\<lambda>err. State_Monad.return (Some (Wrap ''setattr: '' err)))
       (\<lambda>_. do {
          current \<leftarrow> node_attrs node;
          when_err (Mode attrs AND os_ModePerm \<noteq> Mode current AND os_ModePerm) ''setattr: chmod failed: ''
            (call_fs (Chmod_call (n_path node) (Mode attrs AND os_ModePerm)))
          (when_err (Uid attrs \<noteq> Uid current \<or> Gid attrs \<noteq> Gid current) ''setattr: chown failed: ''
            (call_fs (Chown_call (n_path node) (uint (Uid attrs)) (uint (Gid attrs))))
          (when_err ((atime attrs \<noteq> 0 \<or> mtime attrs \<noteq> 0) \<and> (mtime attrs \<noteq> mtime current \<or> atime attrs \<noteq> atime current))
            ''setattr: chtimes failed: ''
            (call_fs (Chtimes_call (n_path node) (atime attrs) (mtime attrs)))
          (do {
            now \<leftarrow> time_Now;
            update_attrs node (\<lambda>_. Refresh now attrs);
            cache_Invalidate (n_path node);
            State_Monad.return None }))) })"

text \<open>\<open>NFSNode.Truncate\<close>\<close>

definition node_Truncate :: "NFSNode \<Rightarrow> int \<Rightarrow> ('fs, 'f, goerr option) op" where
  "node_Truncate node sz = do {
     update_attrs node Invalidate;
     call_fs (Truncate_call (n_path node) sz) }"

section \<open>Data\<close>

text \<open>
  The result is \<open>buf[:n]\<close>; the deferred \<open>Close\<close> runs last and its error is dropped.  The transfer size
  is taken to be at least 0: \<open>make\<close> panics for a negative one, which \<open>New\<close> replaces but
  \<open>UpdateTuningOptions\<close> and \<open>UpdateExportOptions\<close> accept.
\<close>

definition Read :: "NFSNode \<Rightarrow> int \<Rightarrow> int \<Rightarrow> ('fs, 'f, bytes result) op" where
  "Read node offset cnt =
     (if offset < 0 then State_Monad.return (Inl (ErrText ''negative offset''))
      else if cnt < 0 then State_Monad.return (Inl (ErrText ''negative count''))
      else do {
        t \<leftarrow> Timeouts;
        transferSize \<leftarrow> asks (t_TransferSize \<circ> tuning);
        ctx \<leftarrow> WithTimeout (ReadTimeout t);
        expired \<leftarrow> ctx_Done ctx;
        if expired then State_Monad.return (Inl ErrTimeout)
        else do {
          let cnt = (if cnt > transferSize then transferSize else cnt);
          attempt (OpenFile (n_path node) O_RDONLY)
            (\<lambda>err. State_Monad.return (Inl (Wrap (''read: failed to open '' @ n_path node) err)))
            (\<lambda>f. do {
               result \<leftarrow> attempt (file_Stat f)
                 (\<lambda>err. State_Monad.return (Inl (Wrap (''read: failed to stat '' @ n_path node) err)))
                 (\<lambda>info. do {
                    let remaining = fi_Size info - offset;
                    if remaining \<le> 0 then State_Monad.return (Inr [])
                    else do {
                      let cnt = (if cnt > remaining then remaining else cnt);
                      (data, err) \<leftarrow> file_ReadAt f (nat cnt) offset;
                      (case err of
                         Some e \<Rightarrow>
                           if e \<noteq> EOF
                           then State_Monad.return (Inl (Wrap (''read: failed to read from '' @ n_path node) e))
                           else State_Monad.return (Inr data)
                       | None \<Rightarrow> State_Monad.return (Inr data)) } });
               _ \<leftarrow> file_Close f;
               State_Monad.return result }) } })"

text \<open>
  The result pairs the count with the error.  The deferred closure assigns the error of
  \<open>Close\<close> to a local variable after the result has been evaluated, so that error is dropped as well.
\<close>

definition Write :: "NFSNode \<Rightarrow> int \<Rightarrow> bytes \<Rightarrow> ('fs, 'f, int \<times> goerr option) op" where
  "Write node offset data =
     (if offset < 0 then State_Monad.return (0, Some (ErrText ''negative offset''))
      else do {
        t \<leftarrow> Timeouts;
        transferSize \<leftarrow> asks (t_TransferSize \<circ> tuning);
        readOnly \<leftarrow> asks (p_ReadOnly \<circ> policy);
        if readOnly then State_Monad.return (0, Some ErrPermission)
        else do {
          ctx \<leftarrow> WithTimeout (WriteTimeout t);
          expired \<leftarrow> ctx_Done ctx;
          if expired then State_Monad.return (0, Some ErrTimeout)
          else do {
            let data = (if int (length data) > transferSize then take (nat transferSize) data else data);
            attempt (OpenFile (n_path node) O_WRONLY)
              (\<lambda>err. State_Monad.return (0, Some (Wrap (''write: failed to open '' @ n_path node) err)))
              (\<lambda>f. do {
                 (n, err) \<leftarrow> file_WriteAt f data offset;
                 (if err = None then do {
                    cache_Invalidate (n_path node);
                    now \<leftarrow> time_Now;
                    _ \<leftarrow> call_fs (Chtimes_call (n_path node) now now);
                    info \<leftarrow> Stat (n_path node);
                    (case info of
                       Inr info \<Rightarrow> do {
                         now \<leftarrow> time_Now;
                         update_attrs node (\<lambda>a. Refresh now (a\<lparr>Size := fi_Size info, mtime := fi_ModTime info\<rparr>)) }
                     | Inl _ \<Rightarrow> skip) }
                  else skip);
                 _ \<leftarrow> file_Close f;
                 State_Monad.return (n, err) }) } } })"

section \<open>Creating, removing and renaming\<close>

text \<open>The invalidations after a name has appeared in a directory.\<close>

definition invalidate_new_entry :: "string \<Rightarrow> string \<Rightarrow> ('fs, 'f, unit) op" where
  "invalidate_new_entry dir path = do {
     cache_Invalidate dir;
     cache_InvalidateNegativeInDir dir;
     cache_Invalidate path;
     dircache_Invalidate dir }"

definition Create :: "NFSNode \<Rightarrow> string \<Rightarrow> NFSAttrs \<Rightarrow> ('fs, 'f, NFSNode result) op" where
  "Create dir name attrs =
     (if name = [] then State_Monad.return (Inl (ErrText ''empty name''))
      else do {
        t \<leftarrow> Timeouts;
        readOnly \<leftarrow> asks (p_ReadOnly \<circ> policy);
        if readOnly then State_Monad.return (Inl ErrPermission)
        else do {
          ctx \<leftarrow> WithTimeout (CreateTimeout t);
          expired \<leftarrow> ctx_Done ctx;
          if expired then State_Monad.return (Inl ErrTimeout)
          else
            (case sanitizePath (n_path dir) name of
               Inl err \<Rightarrow> State_Monad.return (Inl (Wrap ''create: failed to sanitize path: '' err))
             | Inr path \<Rightarrow>
                 attempt (create_file path)
                   (\<lambda>err. State_Monad.return (Inl (Wrap (''create: failed to create '' @ path) err)))
                   (\<lambda>f.
                      check (file_Close f)
                        (\<lambda>err. do {
                           _ \<leftarrow> call_fs (Remove_call path);
                           State_Monad.return (Inl (Wrap (''create: failed to close '' @ path) err)) })
                     (check (call_fs (Chmod_call path (Mode attrs AND os_ModePerm)))
                        (\<lambda>err. do {
                           _ \<leftarrow> call_fs (Remove_call path);
                           State_Monad.return (Inl (Wrap (''create: failed to chmod '' @ path) err)) })
                     (do {
                        invalidate_new_entry (n_path dir) path;
                        Lookup path })))) } })"

definition Remove :: "NFSNode \<Rightarrow> string \<Rightarrow> ('fs, 'f, goerr option) op" where
  "Remove dir name =
     (if name = [] then State_Monad.return (Some (ErrText ''empty name''))
      else do {
        t \<leftarrow> Timeouts;
        readOnly \<leftarrow> asks (p_ReadOnly \<circ> policy);
        if readOnly then State_Monad.return (Some ErrPermission)
        else do {
          ctx \<leftarrow> WithTimeout (RemoveTimeout t);
          expired \<leftarrow> ctx_Done ctx;
          if expired then State_Monad.return (Some ErrTimeout)
          else
            (case sanitizePath (n_path dir) name of
               Inl err \<Rightarrow> State_Monad.return (Some (Wrap ''remove: failed to sanitize path: '' err))
             | Inr path \<Rightarrow>
                 check (call_fs (Remove_call path))
                   (\<lambda>err. State_Monad.return (Some (Wrap (''remove: failed to remove '' @ path) err)))
                   (do {
                      cache_Invalidate path;
                      cache_Invalidate (n_path dir);
                      dircache_Invalidate (n_path dir);
                      State_Monad.return None })) } })"

definition Rename :: "NFSNode \<Rightarrow> string \<Rightarrow> NFSNode \<Rightarrow> string \<Rightarrow> ('fs, 'f, goerr option) op" where
  "Rename oldDir oldName newDir newName =
     (if oldName = [] \<or> newName = [] then State_Monad.return (Some (ErrText ''empty name''))
      else do {
        t \<leftarrow> Timeouts;
        readOnly \<leftarrow> asks (p_ReadOnly \<circ> policy);
        if readOnly then State_Monad.return (Some ErrPermission)
        else do {
          ctx \<leftarrow> WithTimeout (RenameTimeout t);
          expired \<leftarrow> ctx_Done ctx;
          if expired then State_Monad.return (Some ErrTimeout)
          else
            (case sanitizePath (n_path oldDir) oldName of
               Inl err \<Rightarrow> State_Monad.return (Some (Wrap ''rename: failed to sanitize old path: '' err))
             | Inr oldPath \<Rightarrow>
            (case sanitizePath (n_path newDir) newName of
               Inl err \<Rightarrow> State_Monad.return (Some (Wrap ''rename: failed to sanitize new path: '' err))
             | Inr newPath \<Rightarrow>
                 check (call_fs (Rename_call oldPath newPath))
                   (\<lambda>err. State_Monad.return (Some (Wrap (''rename: failed to rename '' @ oldPath @ '' to '' @ newPath) err)))
                   (do {
                      cache_Invalidate oldPath;
                      cache_Invalidate newPath;
                      cache_Invalidate (n_path oldDir);
                      cache_Invalidate (n_path newDir);
                      cache_InvalidateNegativeInDir (n_path oldDir);
                      cache_InvalidateNegativeInDir (n_path newDir);
                      dircache_Invalidate (n_path oldDir);
                      dircache_Invalidate (n_path newDir);
                      State_Monad.return None }))) } })"

section \<open>Directories\<close>

text \<open>The loop over directory entries, which skips the names it cannot use.\<close>

primrec nodes_of_entries :: "string \<Rightarrow> FileInfo list \<Rightarrow> ('fs, 'f, NFSNode list) op" where
  "nodes_of_entries dir [] = State_Monad.return []"
| "nodes_of_entries dir (entry # entries) =
     (if fi_Name entry = ''.'' \<or> fi_Name entry = ''..'' then nodes_of_entries dir entries
      else
        (case sanitizePath dir (fi_Name entry) of
           Inl _ \<Rightarrow> nodes_of_entries dir entries
         | Inr entryPath \<Rightarrow>
             attempt (Lookup entryPath)
               (\<lambda>_. nodes_of_entries dir entries)
               (\<lambda>node. do {
                  nodes \<leftarrow> nodes_of_entries dir entries;
                  State_Monad.return (node # nodes) })))"

definition ReadDir :: "NFSNode \<Rightarrow> ('fs, 'f, NFSNode list result) op" where
  "ReadDir dir = do {
     t \<leftarrow> Timeouts;
     ctx \<leftarrow> WithTimeout (ReaddirTimeout t);
     expired \<leftarrow> ctx_Done ctx;
     if expired then State_Monad.return (Inl ErrTimeout)
     else do {
       enabled \<leftarrow> asks (\<lambda>w. dirCache w \<noteq> None);
       cached \<leftarrow> (if enabled then dircache_Get (n_path dir) else State_Monad.return None);
       (case cached of
          Some entries \<Rightarrow> do {
            nodes \<leftarrow> nodes_of_entries (n_path dir) entries;
            State_Monad.return (Inr nodes) }
        | None \<Rightarrow>
            attempt (OpenFile (n_path dir) O_RDONLY)
              (\<lambda>err. State_Monad.return (Inl (Wrap (''readdir: failed to open directory '' @ n_path dir) err)))
              (\<lambda>f. do {
                 result \<leftarrow> attempt (file_Readdir f)
                   (\<lambda>err. State_Monad.return (Inl (Wrap (''readdir: failed to read entries from '' @ n_path dir) err)))
                   (\<lambda>entries. do {
                      (if enabled then dircache_Put (n_path dir) entries else skip);
                      nodes \<leftarrow> nodes_of_entries (n_path dir) entries;
                      State_Monad.return (Inr nodes) });
                 _ \<leftarrow> file_Close f;
                 State_Monad.return result })) } }"

primrec precache_attrs :: "NFSNode list \<Rightarrow> ('fs, 'f, unit) op" where
  "precache_attrs [] = skip"
| "precache_attrs (node # nodes) = do {
     (cached, found) \<leftarrow> cache_Get (n_path node);
     now \<leftarrow> time_Now;
     if found \<and> (case cached of Some attrs \<Rightarrow> IsValid attrs now | None \<Rightarrow> False)
     then precache_attrs nodes
     else
       attempt (Stat (n_path node))
         (\<lambda>_. precache_attrs nodes)
         (\<lambda>info. do {
            old \<leftarrow> node_attrs node;
            now \<leftarrow> time_Now;
            let attrs = attrs_from_info info 0 (Uid old) (Gid old) now;
            cache_Put (n_path node) attrs;
            update_attrs node (\<lambda>_. attrs);
            precache_attrs nodes }) }"

definition ReadDirPlus :: "NFSNode \<Rightarrow> ('fs, 'f, NFSNode list result) op" where
  "ReadDirPlus dir =
     attempt (ReadDir dir)
       (\<lambda>err. State_Monad.return (Inl err))
       (\<lambda>nodes. do { precache_attrs nodes; State_Monad.return (Inr nodes) })"

section \<open>Symbolic links\<close>

definition has_dotdot :: "string \<Rightarrow> bool" where
  "has_dotdot target \<longleftrightarrow> ''..'' \<in> set (split_slash target)"

definition Symlink :: "NFSNode \<Rightarrow> string \<Rightarrow> string \<Rightarrow> NFSAttrs \<Rightarrow> ('fs, 'f, NFSNode result) op" where
  "Symlink dir name target attrs =
     (if name = [] then State_Monad.return (Inl (ErrText ''empty name''))
      else if target = [] then State_Monad.return (Inl (ErrText ''empty target''))
      else do {
        readOnly \<leftarrow> asks (p_ReadOnly \<circ> policy);
        if readOnly then State_Monad.return (Inl ErrPermission)
        else
          (case sanitizePath (n_path dir) name of
             Inl err \<Rightarrow> State_Monad.return (Inl (Wrap ''symlink: failed to sanitize path: '' err))
           | Inr path \<Rightarrow>
               check (call_fs (Symlink_call target path))
                 (\<lambda>err. State_Monad.return
                    (Inl (Wrap (''symlink: failed to create symlink at '' @ path @ '' pointing to '' @ target) err)))
                 (do {
                    invalidate_new_entry (n_path dir) path;
                    Lookup path })) })"

definition Readlink :: "NFSNode \<Rightarrow> ('fs, 'f, string result) op" where
  "Readlink node =
     attempt (asks (\<lambda>w. fs_Readlink (ops w) (fs w) (n_path node)))
       (\<lambda>err. State_Monad.return (Inl (Wrap (''readlink: failed to read symlink '' @ n_path node) err)))
       (\<lambda>target.
          if \<not> strings_HasPrefix target ''/'' \<and> has_dotdot target
          then State_Monad.return (Inl (ErrText (''readlink: symlink target with '' @ ''.. not allowed'')))
          else State_Monad.return (Inr target))"

section \<open>Ending the export\<close>

definition Unexport :: "('fs, 'f, unit) op" where
  "Unexport = modify (\<lambda>w. w\<lparr>fileMap := ReleaseAll (fileMap w), attrCache := AttrCache_Clear (attrCache w),
     dirCache := map_option DirCache_Clear (dirCache w)\<rparr>)"

end
