(* ===== verification/ProcCommon.thy ===== *)
theory ProcCommon
  imports Operations
begin

text \<open>
  What the NFSv3 procedures share (\<open>nfs_handlers.go\<close>, \<open>nfs_proc_handlers.go\<close>): the error
  replies, the handle lookup, the attribute encodings, the \<open>sattr3\<close> decoder, and the procedures
  NULL, FSSTAT, FSINFO and PATHCONF.  A handler takes the argument bytes, the prepared reply and
  the authentication context and returns the reply; none of them returns a Go error.  Encoding
  into a \<open>bytes.Buffer\<close> cannot fail, so the branches for a failed encoding are not taken.
\<close>

section \<open>Replies\<close>

definition set_data :: "RPCReply \<Rightarrow> bytes \<Rightarrow> RPCReply" where
  "set_data reply buf = reply\<lparr>Data := DataBytes buf\<rparr>"

definition nfsErrorReply :: "RPCReply \<Rightarrow> u32 \<Rightarrow> RPCReply" where
  "nfsErrorReply reply status = set_data reply (xdrEncodeUint32 status)"

definition nfsErrorWithPostOp :: "RPCReply \<Rightarrow> u32 \<Rightarrow> RPCReply" where
  "nfsErrorWithPostOp reply status = set_data reply (xdrEncodeUint32 status @ xdrEncodeUint32 0)"

definition nfsErrorWithWcc :: "RPCReply \<Rightarrow> u32 \<Rightarrow> RPCReply" where
  "nfsErrorWithWcc reply status =
     set_data reply (xdrEncodeUint32 status @ xdrEncodeUint32 0 @ xdrEncodeUint32 0)"

definition nfsErrorWithPostOpAndWcc :: "RPCReply \<Rightarrow> u32 \<Rightarrow> RPCReply" where
  "nfsErrorWithPostOpAndWcc reply status =
     set_data reply (xdrEncodeUint32 status @ xdrEncodeUint32 0 @ xdrEncodeUint32 0 @ xdrEncodeUint32 0)"

definition nfsErrorWithDoubleWcc :: "RPCReply \<Rightarrow> u32 \<Rightarrow> RPCReply" where
  "nfsErrorWithDoubleWcc reply status =
     set_data reply (xdrEncodeUint32 status @ xdrEncodeUint32 0 @ xdrEncodeUint32 0 @
       xdrEncodeUint32 0 @ xdrEncodeUint32 0)"

definition encodeWccData :: "NFSAttrs \<Rightarrow> NFSAttrs \<Rightarrow> bytes" where
  "encodeWccData preAttrs postAttrs =
     xdrEncodeUint32 1 @ encodeWccAttr preAttrs @ xdrEncodeUint32 1 @ encodeFileAttributes postAttrs"

definition encodePostOpAttr :: "NFSAttrs \<Rightarrow> bytes" where
  "encodePostOpAttr attrs = xdrEncodeUint32 1 @ encodeFileAttributes attrs"

definition encodeNoPostOpAttr :: bytes where
  "encodeNoPostOpAttr = xdrEncodeUint32 0"

section \<open>Handles and state\<close>

definition lookupNode :: "u64 \<Rightarrow> ('fs, 'f, NFSNode option) op" where
  "lookupNode handle = asks (\<lambda>w. case Get (fileMap w) handle of
      Some (NodeFile node) \<Rightarrow> Some node
    | _ \<Rightarrow> None)"

text \<open>\<open>node, ok := h.lookupNode(handle); if !ok { return ... }\<close>\<close>

definition with_node ::
    "u64 \<Rightarrow> ('fs, 'f, 'r) op \<Rightarrow> (NFSNode \<Rightarrow> ('fs, 'f, 'r) op) \<Rightarrow> ('fs, 'f, 'r) op" where
  "with_node handle stale k = do {
     node \<leftarrow> lookupNode handle;
     case node of None \<Rightarrow> stale | Some node \<Rightarrow> k node }"

definition decodeAndLookupHandle ::
    "bytes \<Rightarrow> RPCReply \<Rightarrow> ('fs, 'f, (NFSNode \<times> u64) option \<times> RPCReply) op" where
  "decodeAndLookupHandle body reply =
     decode (xdrDecodeFileHandle body)
       (State_Monad.return (None, nfsErrorReply reply GARBAGE_ARGS))
       (\<lambda>handleVal body.
          with_node handleVal
            (State_Monad.return (None, nfsErrorReply reply NFSERR_STALE))
            (\<lambda>node. State_Monad.return (Some (node, handleVal), reply)))"

definition readOnly :: "('fs, 'f, bool) op" where
  "readOnly = asks (p_ReadOnly \<circ> policy)"

text \<open>\<open>postAttrs, _ := GetAttr(node); if postAttrs == nil { postAttrs = preAttrs }\<close>\<close>

definition post_attrs :: "NFSNode \<Rightarrow> NFSAttrs \<Rightarrow> ('fs, 'f, NFSAttrs) op" where
  "post_attrs node preAttrs = do {
     r \<leftarrow> GetAttr node;
     State_Monad.return (case r of Inr attrs \<Rightarrow> attrs | Inl _ \<Rightarrow> preAttrs) }"

text \<open>The test in front of a limited operation; true when the limiter turns the request away.\<close>

definition rate_limited :: "bool \<Rightarrow> string \<Rightarrow> OperationType \<Rightarrow> ('fs, 'f, bool) op" where
  "rate_limited applies ip op = do {
     limiter \<leftarrow> asks rateLimiter;
     enabled \<leftarrow> asks (p_EnableRateLimiting \<circ> policy);
     (case limiter of
        Some rl \<Rightarrow>
          if applies \<and> enabled then do {
            clk \<leftarrow> readings 5;
            let (ok, rl) = AllowOperation ip op clk rl;
            modify (\<lambda>w. w\<lparr>rateLimiter := Some rl\<rparr>);
            State_Monad.return (\<not> ok) }
          else State_Monad.return False
      | None \<Rightarrow> State_Monad.return False) }"

section \<open>Settable attributes\<close>

record sattr3 =
  SetMode :: bool
  sa_Mode :: u32
  SetUID :: bool
  sa_UID :: u32
  SetGID :: bool
  sa_GID :: u32
  SetSize :: bool
  sa_Size :: u64
  SetAtime :: u32
  AtimeSec :: u32
  AtimeNsec :: u32
  SetMtime :: u32
  MtimeSec :: u32
  MtimeNsec :: u32

text \<open>A flag and, when it is set, a value; the zero value otherwise.\<close>

definition optional :: "'a::zero reader \<Rightarrow> (bool \<times> 'a) reader" where
  "optional rd = rbind xdrDecodeUint32 (\<lambda>flag.
     if flag \<noteq> 0 then rbind rd (\<lambda>v. rreturn (True, v)) else rreturn (False, 0))"

definition client_time :: "(u32 \<times> u32 \<times> u32) reader" where
  "client_time = rbind xdrDecodeUint32 (\<lambda>how.
     if how = 2
     then rbind xdrDecodeUint32 (\<lambda>sec. rbind xdrDecodeUint32 (\<lambda>nsec. rreturn (how, sec, nsec)))
     else rreturn (how, 0, 0))"

definition decodeSattr3 :: "sattr3 reader" where
  "decodeSattr3 =
     rbind (optional xdrDecodeUint32) (\<lambda>(setMode, mode).
     rbind (optional xdrDecodeUint32) (\<lambda>(setUID, uid).
     rbind (optional xdrDecodeUint32) (\<lambda>(setGID, gid).
     rbind (optional rd_u64) (\<lambda>(setSize, sz).
     rbind client_time (\<lambda>(setAtime, asec, ansec).
     rbind client_time (\<lambda>(setMtime, msec, mnsec).
     rreturn \<lparr>SetMode = setMode, sa_Mode = mode, SetUID = setUID, sa_UID = uid, SetGID = setGID,
       sa_GID = gid, SetSize = setSize, sa_Size = sz, SetAtime = setAtime, AtimeSec = asec,
       AtimeNsec = ansec, SetMtime = setMtime, MtimeSec = msec, MtimeNsec = mnsec\<rparr>))))))"

section \<open>NULL, FSSTAT, FSINFO and PATHCONF\<close>

type_synonym ('fs, 'f) handler = "bytes \<Rightarrow> RPCReply \<Rightarrow> AuthContext \<Rightarrow> ('fs, 'f, RPCReply) op"

definition handleNull :: "('fs, 'f) handler" where
  "handleNull body reply authCtx = State_Monad.return reply"

text \<open>The three procedures below differ only in the words that follow the attributes.\<close>

definition attrs_and_constants :: "bytes \<Rightarrow> ('fs, 'f) handler" where
  "attrs_and_constants tail body reply authCtx =
     decode (xdrDecodeFileHandle body)
       (State_Monad.return (nfsErrorWithPostOp reply GARBAGE_ARGS))
       (\<lambda>handleVal body.
          with_node handleVal (State_Monad.return (nfsErrorWithPostOp reply NFSERR_STALE))
          (\<lambda>node.
          attempt (GetAttr node)
            (\<lambda>err. State_Monad.return (nfsErrorWithPostOp reply (mapError (Some err))))
            (\<lambda>attrs. State_Monad.return (set_data reply
               (xdrEncodeUint32 NFS_OK @ xdrEncodeUint32 1 @ encodeFileAttributes attrs @ tail)))))"

definition handleFsstat :: "('fs, 'f) handler" where
  "handleFsstat = attrs_and_constants
     (xdrEncodeUint64 (1024 * 1024 * 1024 * 10) @ xdrEncodeUint64 (1024 * 1024 * 1024 * 5) @
      xdrEncodeUint64 (1024 * 1024 * 1024 * 5) @ xdrEncodeUint64 1000000 @ xdrEncodeUint64 900000 @
      xdrEncodeUint64 900000 @ xdrEncodeUint32 1)"

definition handleFsinfo :: "('fs, 'f) handler" where
  "handleFsinfo = attrs_and_constants
     (xdrEncodeUint32 1048576 @ xdrEncodeUint32 65536 @ xdrEncodeUint32 4096 @
      xdrEncodeUint32 1048576 @ xdrEncodeUint32 65536 @ xdrEncodeUint32 4096 @
      xdrEncodeUint32 8192 @ xdrEncodeUint64 1099511627776 @ xdrEncodeUint32 0 @
      xdrEncodeUint32 1000000 @ xdrEncodeUint32 (0x0002 OR 0x0008 OR 0x0010))"

definition handlePathconf :: "('fs, 'f) handler" where
  "handlePathconf = attrs_and_constants
     (xdrEncodeUint32 1024 @ xdrEncodeUint32 255 @ xdrEncodeUint32 1 @ xdrEncodeUint32 1 @
      xdrEncodeUint32 0 @ xdrEncodeUint32 1)"

section \<open>How the shared steps run\<close>

lemma run_common [run_simps]:
  "run_state (lookupNode h) w =
     ((case Get (fileMap w) h of Some (NodeFile node) \<Rightarrow> Some node | _ \<Rightarrow> None), w)"
  "run_state readOnly w = (p_ReadOnly (policy w), w)"
  by (simp_all add: lookupNode_def readOnly_def run_asks)

end
