(* ===== verification/ProcAttr.thy ===== *)
theory ProcAttr
  imports ProcCommon
begin

text \<open>
  The attribute, access and name procedures: GETATTR, SETATTR and ACCESS
  (\<open>nfs_proc_attr.go\<close>), LOOKUP and READLINK (\<open>nfs_proc_lookup.go\<close>).
\<close>

section \<open>GETATTR\<close>

definition handleGetattr :: "('fs, 'f) handler" where
  "handleGetattr body reply authCtx =
     decode (xdrDecodeFileHandle body) (State_Monad.return (nfsErrorReply reply GARBAGE_ARGS)) (\<lambda>handleVal body.
     with_node handleVal (State_Monad.return (nfsErrorReply reply NFSERR_STALE)) (\<lambda>node.
     attempt (GetAttr node) (\<lambda>err. State_Monad.return (nfsErrorReply reply (mapError (Some err)))) (\<lambda>attrs.
     State_Monad.return (set_data reply (xdrEncodeUint32 NFS_OK @ encodeFileAttributes attrs)))))"

section \<open>SETATTR\<close>

text \<open>\<open>sattrguard3\<close>: a flag and, when it is set, the time to compare with.\<close>

definition decode_guard :: "(u32 \<times> u32 \<times> u32) reader" where
  "decode_guard = rbind xdrDecodeUint32 (\<lambda>guardCheck.
     if guardCheck \<noteq> 0
     then rbind xdrDecodeUint32 (\<lambda>sec. rbind xdrDecodeUint32 (\<lambda>nsec. rreturn (guardCheck, sec, nsec)))
     else rreturn (guardCheck, 0, 0))"

definition guard_fails :: "u32 \<Rightarrow> u32 \<Rightarrow> u32 \<Rightarrow> NFSAttrs \<Rightarrow> bool" where
  "guard_fails guardCheck sec nsec preAttrs \<longleftrightarrow>
     guardCheck \<noteq> 0 \<and>
     (sec \<noteq> word_of_int (time_Unix_sec (mtime preAttrs)) \<or> nsec \<noteq> word_of_int (time_Nanosecond (mtime preAttrs)))"

text \<open>The attributes handed to \<open>SetAttr\<close>: mode, owner and group of the node, changed as asked;
  \<open>now1\<close> and \<open>now2\<close> are the server's times for \<open>SET_TO_SERVER_TIME\<close>.\<close>

definition setattr_request :: "NFSAttrs \<Rightarrow> sattr3 \<Rightarrow> AuthContext \<Rightarrow> time \<Rightarrow> time \<Rightarrow> NFSAttrs" where
  "setattr_request current sattr authCtx now1 now2 =
     \<lparr>Mode = (if SetMode sattr then sa_Mode sattr else Mode current),
      Size = 0, FileId = 0,
      mtime = (if SetMtime sattr = 1 then now2
               else if SetMtime sattr = 2 then time_Unix (uint (MtimeSec sattr)) (uint (MtimeNsec sattr))
               else 0),
      atime = (if SetAtime sattr = 1 then now1
               else if SetAtime sattr = 2 then time_Unix (uint (AtimeSec sattr)) (uint (AtimeNsec sattr))
               else 0),
      Uid = (if SetUID sattr \<and> EffectiveUID authCtx = 0 then sa_UID sattr else Uid current),
      Gid = (if SetGID sattr \<and> EffectiveUID authCtx = 0 then sa_GID sattr else Gid current),
      validUntil = 0\<rparr>"

text \<open>The truncation step; the outcome is a status to return, if any.\<close>

definition setattr_size :: "NFSNode \<Rightarrow> sattr3 \<Rightarrow> ('fs, 'f, u32 option) op" where
  "setattr_size node sattr =
     (if \<not> SetSize sattr then State_Monad.return None
      else if sa_Size sattr > 0x7FFFFFFFFFFFFFFF then State_Monad.return (Some NFSERR_INVAL)
      else
        check (node_Truncate node (sint (sa_Size sattr)))
          (\<lambda>err. State_Monad.return (Some (mapError (Some err))))
          (do {
             cache_Invalidate (n_path node);
             info \<leftarrow> Stat (n_path node);
             (case info of
                Inr info \<Rightarrow> do {
                  now \<leftarrow> time_Now;
                  update_attrs node (\<lambda>a. Refresh now (a\<lparr>Size := fi_Size info, mtime := fi_ModTime info\<rparr>)) }
              | Inl _ \<Rightarrow> skip);
             State_Monad.return None }))"

definition handleSetattr :: "('fs, 'f) handler" where
  "handleSetattr body reply authCtx = do {
     ro \<leftarrow> readOnly;
     if ro then State_Monad.return (nfsErrorWithWcc reply NFSERR_ROFS)
     else
       decode (xdrDecodeFileHandle body) (State_Monad.return (nfsErrorWithWcc reply GARBAGE_ARGS)) (\<lambda>handleVal body.
       decode (decodeSattr3 body) (State_Monad.return (nfsErrorWithWcc reply GARBAGE_ARGS)) (\<lambda>sattr body.
       decode (decode_guard body) (State_Monad.return (nfsErrorWithWcc reply GARBAGE_ARGS)) (\<lambda>(guardCheck, sec, nsec) body.
       if SetMode sattr \<and> sa_Mode sattr AND 0x8000 \<noteq> 0
       then State_Monad.return (nfsErrorWithWcc reply NFSERR_INVAL)
       else
       with_node handleVal (State_Monad.return (nfsErrorWithWcc reply NFSERR_STALE)) (\<lambda>node.
       attempt (GetAttr node) (\<lambda>err. State_Monad.return (nfsErrorWithWcc reply (mapError (Some err)))) (\<lambda>preAttrs.
       if guard_fails guardCheck sec nsec preAttrs
       then State_Monad.return (nfsErrorWithWcc reply NFSERR_NOT_SYNC)
       else do {
         stop \<leftarrow> setattr_size node sattr;
         (case stop of
            Some status \<Rightarrow> State_Monad.return (nfsErrorWithWcc reply status)
          | None \<Rightarrow> do {
              current \<leftarrow> node_attrs node;
              now1 \<leftarrow> time_Now; now2 \<leftarrow> time_Now;
              check (SetAttr node (setattr_request current sattr authCtx now1 now2))
                (\<lambda>err. State_Monad.return (nfsErrorWithWcc reply (mapError (Some err))))
                (attempt (GetAttr node)
                  (\<lambda>err. State_Monad.return (nfsErrorWithWcc reply (mapError (Some err))))
                  (\<lambda>postAttrs. State_Monad.return (set_data reply
                     (xdrEncodeUint32 NFS_OK @ encodeWccData preAttrs postAttrs)))) }) }))))) }"

section \<open>ACCESS\<close>

abbreviation (input) ACCESS3_READ :: u32 where "ACCESS3_READ \<equiv> 0x0001"
abbreviation (input) ACCESS3_LOOKUP :: u32 where "ACCESS3_LOOKUP \<equiv> 0x0002"
abbreviation (input) ACCESS3_MODIFY :: u32 where "ACCESS3_MODIFY \<equiv> 0x0004"
abbreviation (input) ACCESS3_EXTEND :: u32 where "ACCESS3_EXTEND \<equiv> 0x0008"
abbreviation (input) ACCESS3_DELETE :: u32 where "ACCESS3_DELETE \<equiv> 0x0010"
abbreviation (input) ACCESS3_EXECUTE :: u32 where "ACCESS3_EXECUTE \<equiv> 0x0020"

definition perm_bits :: "NFSAttrs \<Rightarrow> AuthContext \<Rightarrow> u32" where
  "perm_bits attrs authCtx =
     (let permBits =
        (if EffectiveUID authCtx = Uid attrs then drop_bit 6 (Mode attrs) AND 7
         else if EffectiveGID authCtx = Gid attrs then drop_bit 3 (Mode attrs) AND 7
         else if (case AuthSys authCtx of Some a \<Rightarrow> Gid attrs \<in> set (AuxGIDs a) | None \<Rightarrow> False)
         then drop_bit 3 (Mode attrs) AND 7
         else Mode attrs AND 7)
      in if EffectiveUID authCtx = 0 then 7 else permBits)"

definition access_allowed :: "u32 \<Rightarrow> u32 \<Rightarrow> bool \<Rightarrow> bool \<Rightarrow> u32" where
  "access_allowed access permBits isDir ro =
     (let grant = (\<lambda>bit ok. if access AND bit \<noteq> 0 \<and> ok then bit else 0)
      in grant ACCESS3_READ (permBits AND 4 \<noteq> 0) OR
         grant ACCESS3_LOOKUP (isDir \<and> permBits AND 1 \<noteq> 0) OR
         grant ACCESS3_EXECUTE (permBits AND 1 \<noteq> 0) OR
         (if \<not> ro then
            grant ACCESS3_MODIFY (permBits AND 2 \<noteq> 0) OR
            grant ACCESS3_EXTEND (permBits AND 2 \<noteq> 0) OR
            grant ACCESS3_DELETE (isDir \<and> permBits AND 2 \<noteq> 0)
          else 0))"

definition handleAccess :: "('fs, 'f) handler" where
  "handleAccess body reply authCtx =
     decode (xdrDecodeFileHandle body) (State_Monad.return (nfsErrorWithPostOp reply GARBAGE_ARGS)) (\<lambda>handleVal body.
     decode (xdrDecodeUint32 body) (State_Monad.return (nfsErrorWithPostOp reply GARBAGE_ARGS)) (\<lambda>access body.
     with_node handleVal (State_Monad.return (nfsErrorWithPostOp reply NFSERR_STALE)) (\<lambda>node.
     attempt (GetAttr node) (\<lambda>err. State_Monad.return (nfsErrorWithPostOp reply (mapError (Some err)))) (\<lambda>attrs. do {
       ro \<leftarrow> readOnly;
       State_Monad.return (set_data reply
         (xdrEncodeUint32 NFS_OK @ xdrEncodeUint32 1 @ encodeFileAttributes attrs @
          xdrEncodeUint32 (access_allowed access (perm_bits attrs authCtx) (mode_is_dir (Mode attrs)) ro))) }))))"

section \<open>LOOKUP and READLINK\<close>

definition handleLookup :: "('fs, 'f) handler" where
  "handleLookup body reply authCtx =
     decode (xdrDecodeFileHandle body) (State_Monad.return (nfsErrorWithPostOp reply GARBAGE_ARGS)) (\<lambda>handleVal body.
     decode (xdrDecodeString body) (State_Monad.return (nfsErrorWithPostOp reply GARBAGE_ARGS)) (\<lambda>name body.
     if validateFilename name \<noteq> NFS_OK then State_Monad.return (nfsErrorWithPostOp reply NFSERR_ACCES)
     else
     with_node handleVal (State_Monad.return (nfsErrorWithPostOp reply NFSERR_STALE)) (\<lambda>node. do {
       dirAttrs \<leftarrow> node_attrs node;
       if \<not> mode_is_dir (Mode dirAttrs)
       then State_Monad.return (set_data reply
              (xdrEncodeUint32 NFSERR_NOTDIR @ xdrEncodeUint32 1 @ encodeFileAttributes dirAttrs))
       else
         attempt (Lookup (path_Join (n_path node) name))
           (\<lambda>err. do {
              dirAttrs \<leftarrow> node_attrs node;
              State_Monad.return (set_data reply
                (xdrEncodeUint32 (mapError (Some err)) @ xdrEncodeUint32 1 @ encodeFileAttributes dirAttrs)) })
           (\<lambda>found. do {
              handle \<leftarrow> allocate_handle found;
              foundAttrs \<leftarrow> node_attrs found;
              dirAttrs \<leftarrow> node_attrs node;
              State_Monad.return (set_data reply
                (xdrEncodeUint32 NFS_OK @ xdrEncodeFileHandle handle @
                 xdrEncodeUint32 1 @ encodeFileAttributes foundAttrs @
                 xdrEncodeUint32 1 @ encodeFileAttributes dirAttrs)) }) })))"

definition handleReadlink :: "('fs, 'f) handler" where
  "handleReadlink body reply authCtx =
     decode (xdrDecodeFileHandle body) (State_Monad.return (nfsErrorWithPostOp reply GARBAGE_ARGS)) (\<lambda>handleVal body.
     with_node handleVal (State_Monad.return (nfsErrorWithPostOp reply NFSERR_STALE)) (\<lambda>node. do {
       nodeAttrs \<leftarrow> node_attrs node;
       if Mode nodeAttrs AND os_ModeSymlink = 0
       then State_Monad.return (nfsErrorWithPostOp reply NFSERR_INVAL)
       else
         attempt (Readlink node) (\<lambda>err. State_Monad.return (nfsErrorWithPostOp reply (mapError (Some err)))) (\<lambda>target.
         attempt (GetAttr node) (\<lambda>err. State_Monad.return (nfsErrorWithPostOp reply (mapError (Some err)))) (\<lambda>attrs.
         State_Monad.return (set_data reply
           (xdrEncodeUint32 NFS_OK @ xdrEncodeUint32 1 @ encodeFileAttributes attrs @ xdrEncodeString target)))) }))"

end
