(* ===== verification/ProcData.thy ===== *)
theory ProcData
  imports ProcCommon
begin

text \<open>The data procedures READ, WRITE and COMMIT (\<open>nfs_proc_readwrite.go\<close>).\<close>

definition range_overflows :: "u64 \<Rightarrow> u32 \<Rightarrow> bool" where
  "range_overflows offset cnt \<longleftrightarrow> offset > 0xFFFFFFFFFFFFFFFF - ucast cnt"

definition read_reply :: "NFSAttrs \<Rightarrow> u64 \<Rightarrow> bytes \<Rightarrow> bytes" where
  "read_reply attrs offset data =
     xdrEncodeUint32 NFS_OK @ xdrEncodeUint32 1 @ encodeFileAttributes attrs @
     xdrEncodeUint32 (of_nat (length data)) @
     xdrEncodeUint32 (if wrap64 (sint offset + int (length data)) \<ge> Size attrs then 1 else 0) @
     xdrEncodeUint32 (of_nat (length data)) @ data @ replicate (pad_len (length data)) 0"

definition handleRead :: "('fs, 'f) handler" where
  "handleRead body reply authCtx =
     decode (xdrDecodeFileHandle body) (State_Monad.return (nfsErrorWithPostOp reply GARBAGE_ARGS)) (\<lambda>handleVal body.
     decode (rd_u64 body) (State_Monad.return (nfsErrorWithPostOp reply GARBAGE_ARGS)) (\<lambda>offset body.
     decode (xdrDecodeUint32 body) (State_Monad.return (nfsErrorWithPostOp reply GARBAGE_ARGS)) (\<lambda>cnt body.
     if range_overflows offset cnt then State_Monad.return (nfsErrorWithPostOp reply NFSERR_INVAL)
     else do {
       limited \<leftarrow> rate_limited (cnt > 65536) (ClientIP authCtx) OpTypeReadLarge;
       if limited then State_Monad.return (nfsErrorWithPostOp reply NFSERR_DELAY)
       else
         with_node handleVal (State_Monad.return (nfsErrorWithPostOp reply NFSERR_STALE)) (\<lambda>node.
         attempt (Read node (sint offset) (uint cnt))
           (\<lambda>err. State_Monad.return (nfsErrorWithPostOp reply (mapError (Some err)))) (\<lambda>data.
         attempt (GetAttr node)
           (\<lambda>err. State_Monad.return (nfsErrorWithPostOp reply (mapError (Some err)))) (\<lambda>attrs.
         State_Monad.return (set_data reply (read_reply attrs offset data))))) })))"

definition max_write_size :: "TuningOptions \<Rightarrow> u32" where
  "max_write_size t = (let m = word_of_int (t_TransferSize t) in if m = 0 then 1048576 else m)"

definition handleWrite :: "('fs, 'f) handler" where
  "handleWrite body reply authCtx = do {
     ro \<leftarrow> readOnly;
     if ro then State_Monad.return (nfsErrorWithWcc reply NFSERR_ROFS)
     else
       decode (xdrDecodeFileHandle body) (State_Monad.return (nfsErrorWithWcc reply GARBAGE_ARGS)) (\<lambda>handleVal body.
       decode (rd_u64 body) (State_Monad.return (nfsErrorWithWcc reply GARBAGE_ARGS)) (\<lambda>offset body.
       decode (xdrDecodeUint32 body) (State_Monad.return (nfsErrorWithWcc reply GARBAGE_ARGS)) (\<lambda>cnt body.
       decode (xdrDecodeUint32 body) (State_Monad.return (nfsErrorWithWcc reply GARBAGE_ARGS)) (\<lambda>stable body.
       if range_overflows offset cnt then State_Monad.return (nfsErrorWithWcc reply NFSERR_INVAL)
       else do {
         limited \<leftarrow> rate_limited (cnt > 65536) (ClientIP authCtx) OpTypeWriteLarge;
         if limited then State_Monad.return (nfsErrorWithWcc reply NFSERR_DELAY)
         else
           decode (xdrDecodeUint32 body) (State_Monad.return (nfsErrorWithWcc reply GARBAGE_ARGS)) (\<lambda>dataLen body.
           if dataLen \<noteq> cnt then State_Monad.return (nfsErrorWithWcc reply GARBAGE_ARGS)
           else do {
             maxWriteSize \<leftarrow> asks (max_write_size \<circ> tuning);
             if cnt > maxWriteSize then State_Monad.return (nfsErrorWithWcc reply NFSERR_INVAL)
             else
               decode (rd_full (unat cnt) body) (State_Monad.return (nfsErrorWithWcc reply GARBAGE_ARGS)) (\<lambda>data body.
               with_node handleVal (State_Monad.return (nfsErrorWithWcc reply NFSERR_STALE)) (\<lambda>node.
               attempt (GetAttr node)
                 (\<lambda>err. State_Monad.return (nfsErrorWithWcc reply (mapError (Some err)))) (\<lambda>preAttrs. do {
                 (n, err) \<leftarrow> Write node (sint offset) data;
                 (case err of
                    Some e \<Rightarrow> do {
                      postAttrs \<leftarrow> post_attrs node preAttrs;
                      State_Monad.return (set_data reply
                        (xdrEncodeUint32 (mapError (Some e)) @ encodeWccData preAttrs postAttrs)) }
                  | None \<Rightarrow>
                      attempt (GetAttr node)
                        (\<lambda>err. State_Monad.return (nfsErrorWithWcc reply (mapError (Some err)))) (\<lambda>attrs. do {
                        verf \<leftarrow> asks writeVerf;
                        State_Monad.return (set_data reply
                          (xdrEncodeUint32 NFS_OK @ encodeWccData preAttrs attrs @
                           xdrEncodeUint32 (word_of_int n) @ xdrEncodeUint32 2 @ verf)) })) }))) }) })))) }"

definition handleCommit :: "('fs, 'f) handler" where
  "handleCommit body reply authCtx = do {
     ro \<leftarrow> readOnly;
     if ro then State_Monad.return (nfsErrorWithWcc reply NFSERR_ROFS)
     else
       decode (xdrDecodeFileHandle body) (State_Monad.return (nfsErrorWithWcc reply GARBAGE_ARGS)) (\<lambda>handleVal body.
       decode (rd_u64 body) (State_Monad.return (nfsErrorWithWcc reply GARBAGE_ARGS)) (\<lambda>offset body.
       decode (xdrDecodeUint32 body) (State_Monad.return (nfsErrorWithWcc reply GARBAGE_ARGS)) (\<lambda>cnt body.
       with_node handleVal (State_Monad.return (nfsErrorWithWcc reply NFSERR_STALE)) (\<lambda>node.
       attempt (GetAttr node) (\<lambda>err. State_Monad.return (nfsErrorWithWcc reply (mapError (Some err)))) (\<lambda>attrs. do {
         verf \<leftarrow> asks writeVerf;
         State_Monad.return (set_data reply
           (xdrEncodeUint32 NFS_OK @ encodeWccData attrs attrs @ verf)) }))))) }"

end
