(* ===== verification/ProcName.thy ===== *)
theory ProcName
  imports ProcCommon
begin

text \<open>
  The procedures that change names: CREATE, MKDIR, SYMLINK and MKNOD (\<open>nfs_proc_create.go\<close>),
  REMOVE, RMDIR, RENAME and LINK (\<open>nfs_proc_remove.go\<close>).
\<close>

section \<open>Creating\<close>

definition owner_for :: "sattr3 \<Rightarrow> AuthContext \<Rightarrow> u32 \<times> u32" where
  "owner_for sattr authCtx =
     ((if SetUID sattr \<and> EffectiveUID authCtx = 0 then sa_UID sattr else EffectiveUID authCtx),
      (if SetGID sattr \<and> EffectiveUID authCtx = 0 then sa_GID sattr else EffectiveGID authCtx))"

definition new_object_reply :: "RPCReply \<Rightarrow> u64 \<Rightarrow> NFSAttrs \<Rightarrow> NFSAttrs \<Rightarrow> NFSAttrs \<Rightarrow> RPCReply" where
  "new_object_reply reply handle attrs dirPre dirPost = set_data reply
     (xdrEncodeUint32 NFS_OK @ xdrEncodeUint32 1 @ xdrEncodeFileHandle handle @
      xdrEncodeUint32 1 @ encodeFileAttributes attrs @ encodeWccData dirPre dirPost)"

text \<open>The failure reply with the directory's attributes before and after.\<close>

definition dir_failure :: "RPCReply \<Rightarrow> NFSNode \<Rightarrow> NFSAttrs \<Rightarrow> u32 \<Rightarrow> ('fs, 'f, RPCReply) op" where
  "dir_failure reply node dirPre status = do {
     dirPost \<leftarrow> post_attrs node dirPre;
     State_Monad.return (set_data reply (xdrEncodeUint32 status @ encodeWccData dirPre dirPost)) }"

text \<open>The end of a successful creation: fresh directory attributes, a handle, the reply.\<close>

definition created :: "RPCReply \<Rightarrow> NFSNode \<Rightarrow> NFSAttrs \<Rightarrow> NFSNode \<Rightarrow> ('fs, 'f, RPCReply) op" where
  "created reply node dirPre newNode =
     attempt (GetAttr node) (\<lambda>err. State_Monad.return (nfsErrorWithWcc reply (mapError (Some err)))) (\<lambda>dirPost. do {
       handle \<leftarrow> allocate_handle newNode;
       newAttrs \<leftarrow> node_attrs newNode;
       State_Monad.return (new_object_reply reply handle newAttrs dirPre dirPost) })"

text \<open>How a CREATE names mode and owner: by \<open>sattr3\<close> for UNCHECKED and GUARDED, not at all with
  the verifier of EXCLUSIVE, and not at all for an unknown way.\<close>

definition decode_create_how :: "AuthContext \<Rightarrow> u32 \<Rightarrow> (u32 \<times> (u32 \<times> u32) \<times> bool) reader" where
  "decode_create_how authCtx createHow =
     (let dflt = (420, (EffectiveUID authCtx, EffectiveGID authCtx))
      in if createHow = 0 \<or> createHow = 1 then
           rbind decodeSattr3 (\<lambda>sattr.
             rreturn ((if SetMode sattr then sa_Mode sattr else 420), owner_for sattr authCtx, False))
         else if createHow = 2 then
           rbind (rd_full 8) (\<lambda>verf. rreturn (fst dflt, snd dflt, True))
         else rreturn (fst dflt, snd dflt, False))"

definition handleCreate :: "('fs, 'f) handler" where
  "handleCreate body reply authCtx = do {
     ro \<leftarrow> readOnly;
     if ro then State_Monad.return (nfsErrorWithWcc reply NFSERR_ROFS)
     else
       decode (xdrDecodeFileHandle body) (State_Monad.return (nfsErrorWithWcc reply GARBAGE_ARGS)) (\<lambda>handleVal body.
       decode (xdrDecodeString body) (State_Monad.return (nfsErrorWithWcc reply GARBAGE_ARGS)) (\<lambda>name body.
       if validateFilename name \<noteq> NFS_OK
       then State_Monad.return (nfsErrorWithWcc reply (validateFilename name))
       else
       decode (xdrDecodeUint32 body) (State_Monad.return (nfsErrorWithWcc reply GARBAGE_ARGS)) (\<lambda>createHow body.
       decode (decode_create_how authCtx createHow body)
         (State_Monad.return (nfsErrorWithWcc reply GARBAGE_ARGS)) (\<lambda>(mode, (uid, gid), isExclusive) body.
       if validateMode mode False \<noteq> NFS_OK
       then State_Monad.return (nfsErrorWithWcc reply (validateMode mode False))
       else
       with_node handleVal (State_Monad.return (nfsErrorWithWcc reply NFSERR_STALE)) (\<lambda>node.
       attempt (GetAttr node) (\<lambda>err. State_Monad.return (nfsErrorWithWcc reply (mapError (Some err)))) (\<lambda>dirPre.
       attempt (Create node name ((NewNFSAttrs mode 0 0 0 uid gid)))
         (\<lambda>err.
            if isExclusive \<and> os_IsExist err then do {
              existing \<leftarrow> Lookup (path_Join (n_path node) name);
              (case existing of
                 Inr existingNode \<Rightarrow> do {
                   dirPost \<leftarrow> post_attrs node dirPre;
                   handle \<leftarrow> allocate_handle existingNode;
                   existingAttrs \<leftarrow> node_attrs existingNode;
                   State_Monad.return (new_object_reply reply handle existingAttrs dirPre dirPost) }
               | Inl _ \<Rightarrow> dir_failure reply node dirPre (mapError (Some err))) }
            else dir_failure reply node dirPre (mapError (Some err)))
         (\<lambda>newNode. created reply node dirPre newNode))))))) }"

definition handleMkdir :: "('fs, 'f) handler" where
  "handleMkdir body reply authCtx = do {
     ro \<leftarrow> readOnly;
     if ro then State_Monad.return (nfsErrorWithWcc reply NFSERR_ROFS)
     else
       decode (xdrDecodeFileHandle body) (State_Monad.return (nfsErrorWithWcc reply GARBAGE_ARGS)) (\<lambda>handleVal body.
       decode (xdrDecodeString body) (State_Monad.return (nfsErrorWithWcc reply GARBAGE_ARGS)) (\<lambda>name body.
       if validateFilename name \<noteq> NFS_OK
       then State_Monad.return (nfsErrorWithWcc reply (validateFilename name))
       else
       decode (decodeSattr3 body) (State_Monad.return (nfsErrorWithWcc reply GARBAGE_ARGS)) (\<lambda>sattr body.
       let mode = (if SetMode sattr then sa_Mode sattr else 493)
       in if validateMode mode True \<noteq> NFS_OK
       then State_Monad.return (nfsErrorWithWcc reply (validateMode mode True))
       else
       with_node handleVal (State_Monad.return (nfsErrorWithWcc reply NFSERR_STALE)) (\<lambda>node.
       attempt (GetAttr node) (\<lambda>err. State_Monad.return (nfsErrorWithWcc reply (mapError (Some err)))) (\<lambda>dirPre.
       let dirPath = path_Join (n_path node) name
       in check (call_fs (Mkdir_call dirPath mode))
         (\<lambda>err. dir_failure reply node dirPre (mapError (Some err)))
         (do {
            _ \<leftarrow> call_fs (Chown_call dirPath (uint (fst (owner_for sattr authCtx))) (uint (snd (owner_for sattr authCtx))));
            attempt (Lookup dirPath) (\<lambda>err. State_Monad.return (nfsErrorWithWcc reply (mapError (Some err))))
              (\<lambda>newNode. created reply node dirPre newNode) })))))) }"

definition handleSymlink :: "('fs, 'f) handler" where
  "handleSymlink body reply authCtx = do {
     ro \<leftarrow> readOnly;
     if ro then State_Monad.return (nfsErrorWithWcc reply NFSERR_ROFS)
     else
       decode (xdrDecodeFileHandle body) (State_Monad.return (nfsErrorWithWcc reply GARBAGE_ARGS)) (\<lambda>handleVal body.
       decode (xdrDecodeString body) (State_Monad.return (nfsErrorWithWcc reply GARBAGE_ARGS)) (\<lambda>name body.
       if validateFilename name \<noteq> NFS_OK
       then State_Monad.return (nfsErrorWithWcc reply (validateFilename name))
       else
       decode (decodeSattr3 body) (State_Monad.return (nfsErrorWithWcc reply GARBAGE_ARGS)) (\<lambda>sattr body.
       decode (xdrDecodeString body) (State_Monad.return (nfsErrorWithWcc reply GARBAGE_ARGS)) (\<lambda>target body.
       if target = [] then State_Monad.return (nfsErrorWithWcc reply NFSERR_INVAL)
       else if strings_HasPrefix target ''/'' then State_Monad.return (nfsErrorWithWcc reply NFSERR_ACCES)
       else if has_dotdot target then State_Monad.return (nfsErrorWithWcc reply NFSERR_ACCES)
       else
       with_node handleVal (State_Monad.return (nfsErrorWithWcc reply NFSERR_STALE)) (\<lambda>node.
       attempt (GetAttr node) (\<lambda>err. State_Monad.return (nfsErrorWithWcc reply (mapError (Some err)))) (\<lambda>dirPre.
       let mode = (if SetMode sattr then sa_Mode sattr AND 0xFFF else 511);
           (uid, gid) = owner_for sattr authCtx
       in attempt (Symlink node name target ((NewNFSAttrs (mode OR os_ModeSymlink) 0 0 0 uid gid)))
         (\<lambda>err. dir_failure reply node dirPre (mapError (Some err)))
         (\<lambda>newNode. do {
            _ \<leftarrow> call_fs (Lchown_call (path_Join (n_path node) name) (uint uid) (uint gid));
            created reply node dirPre newNode }))))))) }"

text \<open>The arguments are read and thrown away.\<close>

definition handleMknod :: "('fs, 'f) handler" where
  "handleMknod body reply authCtx = State_Monad.return (nfsErrorWithWcc reply NFSERR_NOTSUPP)"

section \<open>Removing and renaming\<close>

definition handleRemove :: "('fs, 'f) handler" where
  "handleRemove body reply authCtx = do {
     ro \<leftarrow> readOnly;
     if ro then State_Monad.return (nfsErrorWithWcc reply NFSERR_ROFS)
     else
       decode (xdrDecodeFileHandle body) (State_Monad.return (nfsErrorWithWcc reply GARBAGE_ARGS)) (\<lambda>handleVal body.
       decode (xdrDecodeString body) (State_Monad.return (nfsErrorWithWcc reply GARBAGE_ARGS)) (\<lambda>name body.
       if validateFilename name \<noteq> NFS_OK
       then State_Monad.return (nfsErrorWithWcc reply (validateFilename name))
       else
       with_node handleVal (State_Monad.return (nfsErrorWithWcc reply NFSERR_STALE)) (\<lambda>node. do {
         dirAttrs \<leftarrow> node_attrs node;
         if \<not> mode_is_dir (Mode dirAttrs) then State_Monad.return (nfsErrorWithWcc reply NFSERR_NOTDIR)
         else
           attempt (GetAttr node) (\<lambda>err. State_Monad.return (nfsErrorWithWcc reply (mapError (Some err)))) (\<lambda>dirPre.
           check (Remove node name)
             (\<lambda>err. dir_failure reply node dirPre (mapError (Some err)))
             (attempt (GetAttr node) (\<lambda>err. State_Monad.return (nfsErrorWithWcc reply (mapError (Some err)))) (\<lambda>dirPost.
              State_Monad.return (set_data reply (xdrEncodeUint32 NFS_OK @ encodeWccData dirPre dirPost))))) }))) }"

definition rmdir_status :: "goerr \<Rightarrow> u32" where
  "rmdir_status err =
     (if os_IsPermission err then NFSERR_ACCES
      else if os_IsNotExist err then NFSERR_NOENT
      else let errCode = mapError (Some err)
           in if errCode = NFSERR_EXIST \<or> errCode = NFSERR_IO then NFSERR_NOTEMPTY else errCode)"

definition handleRmdir :: "('fs, 'f) handler" where
  "handleRmdir body reply authCtx = do {
     ro \<leftarrow> readOnly;
     if ro then State_Monad.return (nfsErrorWithWcc reply NFSERR_ROFS)
     else
       decode (xdrDecodeFileHandle body) (State_Monad.return (nfsErrorWithWcc reply GARBAGE_ARGS)) (\<lambda>handleVal body.
       decode (xdrDecodeString body) (State_Monad.return (nfsErrorWithWcc reply GARBAGE_ARGS)) (\<lambda>name body.
       if validateFilename name \<noteq> NFS_OK then State_Monad.return (nfsErrorWithWcc reply NFSERR_ACCES)
       else
       with_node handleVal (State_Monad.return (nfsErrorWithWcc reply NFSERR_STALE)) (\<lambda>node. do {
         dirAttrs \<leftarrow> node_attrs node;
         if \<not> mode_is_dir (Mode dirAttrs) then State_Monad.return (nfsErrorWithWcc reply NFSERR_NOTDIR)
         else
           attempt (GetAttr node) (\<lambda>err. State_Monad.return (nfsErrorWithWcc reply (mapError (Some err)))) (\<lambda>dirPre.
           let targetPath = path_Join (n_path node) name
           in attempt (Stat targetPath)
             (\<lambda>_. State_Monad.return (set_data reply (xdrEncodeUint32 NFSERR_NOENT @ encodeWccData dirPre dirPre)))
             (\<lambda>targetInfo.
                if \<not> mode_is_dir (fi_Mode targetInfo)
                then State_Monad.return (set_data reply (xdrEncodeUint32 NFSERR_NOTDIR @ encodeWccData dirPre dirPre))
                else
                  check (call_fs (Remove_call targetPath))
                    (\<lambda>err. dir_failure reply node dirPre (rmdir_status err))
                    (do {
                       cache_Invalidate targetPath;
                       cache_Invalidate (n_path node);
                       dircache_Invalidate (n_path node);
                       dircache_Invalidate targetPath;
                       attempt (GetAttr node)
                         (\<lambda>err. State_Monad.return (nfsErrorWithWcc reply (mapError (Some err)))) (\<lambda>dirPost.
                       State_Monad.return (set_data reply (xdrEncodeUint32 NFS_OK @ encodeWccData dirPre dirPost))) }))) }))) }"

definition handleRename :: "('fs, 'f) handler" where
  "handleRename body reply authCtx = do {
     ro \<leftarrow> readOnly;
     if ro then State_Monad.return (nfsErrorWithDoubleWcc reply NFSERR_ROFS)
     else
       decode (xdrDecodeFileHandle body) (State_Monad.return (nfsErrorWithDoubleWcc reply GARBAGE_ARGS)) (\<lambda>srcHandleVal body.
       decode (xdrDecodeString body) (State_Monad.return (nfsErrorWithDoubleWcc reply GARBAGE_ARGS)) (\<lambda>srcName body.
       if validateFilename srcName \<noteq> NFS_OK
       then State_Monad.return (nfsErrorWithDoubleWcc reply (validateFilename srcName))
       else
       decode (xdrDecodeFileHandle body) (State_Monad.return (nfsErrorWithDoubleWcc reply GARBAGE_ARGS)) (\<lambda>dstHandleVal body.
       decode (xdrDecodeString body) (State_Monad.return (nfsErrorWithDoubleWcc reply GARBAGE_ARGS)) (\<lambda>dstName body.
       if validateFilename dstName \<noteq> NFS_OK
       then State_Monad.return (nfsErrorWithDoubleWcc reply (validateFilename dstName))
       else
       with_node srcHandleVal (State_Monad.return (nfsErrorWithDoubleWcc reply NFSERR_STALE)) (\<lambda>srcDir.
       with_node dstHandleVal (State_Monad.return (nfsErrorWithDoubleWcc reply NFSERR_STALE)) (\<lambda>dstDir.
       attempt (GetAttr srcDir)
         (\<lambda>err. State_Monad.return (nfsErrorWithDoubleWcc reply (mapError (Some err)))) (\<lambda>srcPre.
       attempt (GetAttr dstDir)
         (\<lambda>err. State_Monad.return (nfsErrorWithDoubleWcc reply (mapError (Some err)))) (\<lambda>dstPre.
       check (Rename srcDir srcName dstDir dstName)
         (\<lambda>err. do {
            srcPost \<leftarrow> post_attrs srcDir srcPre;
            dstPost \<leftarrow> post_attrs dstDir dstPre;
            State_Monad.return (set_data reply
              (xdrEncodeUint32 (mapError (Some err)) @ encodeWccData srcPre srcPost @ encodeWccData dstPre dstPost)) })
         (attempt (GetAttr srcDir)
            (\<lambda>err. State_Monad.return (nfsErrorWithDoubleWcc reply (mapError (Some err)))) (\<lambda>srcPost.
          attempt (GetAttr dstDir)
            (\<lambda>err. State_Monad.return (nfsErrorWithDoubleWcc reply (mapError (Some err)))) (\<lambda>dstPost.
          State_Monad.return (set_data reply
            (xdrEncodeUint32 NFS_OK @ encodeWccData srcPre srcPost @ encodeWccData dstPre dstPost))))))))))))) }"

definition handleLink :: "('fs, 'f) handler" where
  "handleLink body reply authCtx = State_Monad.return (nfsErrorWithPostOpAndWcc reply
     (mapError (Some (NotSupportedError ''LINK'' ''hard links are not supported by this NFS implementation''))))"

end
