(* ===== verification/ProcDir.thy ===== *)
theory ProcDir
  imports ProcCommon
begin

text \<open>
  The directory listings READDIR and READDIRPLUS (\<open>nfs_proc_dir.go\<close>).  An entry of a listing is
  given with its path and the attributes of its node; a node always has attributes, so no entry is
  skipped for want of them.
\<close>

section \<open>READDIR\<close>

definition entry_name :: "string \<Rightarrow> string" where
  "entry_name p = (if p = ''/'' then ''/'' else path_Base p)"

definition readdir_entry :: "nat \<Rightarrow> string \<times> NFSAttrs \<Rightarrow> bytes" where
  "readdir_entry i e =
     xdrEncodeUint32 1 @ xdrEncodeUint64 (FileId (snd e)) @ xdrEncodeString (entry_name (fst e)) @
     xdrEncodeUint64 (of_nat (i + 1))"

text \<open>The loop over the entries from position \<open>i\<close>: the buffer and whether the limit was reached.\<close>

fun readdir_loop :: "u64 \<Rightarrow> int \<Rightarrow> nat \<Rightarrow> (string \<times> NFSAttrs) list \<Rightarrow> bytes \<Rightarrow> bytes \<times> bool" where
  "readdir_loop cookie maxReplySize i [] buf = (buf, False)"
| "readdir_loop cookie maxReplySize i (e # es) buf =
     (if of_nat i < cookie then readdir_loop cookie maxReplySize (i + 1) es buf
      else if int (length buf) \<ge> maxReplySize then (buf, True)
      else readdir_loop cookie maxReplySize (i + 1) es (buf @ readdir_entry i e))"

definition readdir_header :: "NFSAttrs \<Rightarrow> bytes \<Rightarrow> bytes" where
  "readdir_header attrs cookieVerf =
     xdrEncodeUint32 NFS_OK @ xdrEncodeUint32 1 @ encodeFileAttributes attrs @ cookieVerf"

definition readdir_max :: "u32 \<Rightarrow> int" where
  "readdir_max cnt = (if uint cnt - 100 < 128 then 128 else uint cnt - 100)"

definition readdir_body :: "NFSAttrs \<Rightarrow> bytes \<Rightarrow> u64 \<Rightarrow> u32 \<Rightarrow> (string \<times> NFSAttrs) list \<Rightarrow> bytes" where
  "readdir_body attrs cookieVerf cookie cnt entries =
     (let (buf, reachedLimit) =
        readdir_loop cookie (readdir_max cnt) 0 entries (readdir_header attrs cookieVerf)
      in buf @ xdrEncodeUint32 0 @ xdrEncodeUint32 (if \<not> reachedLimit then 1 else 0))"

definition entry_attrs :: "NFSNode list \<Rightarrow> ('fs, 'f, (string \<times> NFSAttrs) list) op" where
  "entry_attrs nodes = asks (\<lambda>w. map (\<lambda>node. (n_path node, cells w (n_cell node))) nodes)"

definition handleReaddir :: "('fs, 'f) handler" where
  "handleReaddir body reply authCtx =
     decode (xdrDecodeFileHandle body) (State_Monad.return (nfsErrorWithPostOp reply GARBAGE_ARGS)) (\<lambda>handleVal body.
     decode (rd_u64 body) (State_Monad.return (nfsErrorWithPostOp reply GARBAGE_ARGS)) (\<lambda>cookie body.
     decode (rd_full 8 body) (State_Monad.return (nfsErrorWithPostOp reply GARBAGE_ARGS)) (\<lambda>cookieVerf body.
     decode (xdrDecodeUint32 body) (State_Monad.return (nfsErrorWithPostOp reply GARBAGE_ARGS)) (\<lambda>cnt body. do {
       limited \<leftarrow> rate_limited True (ClientIP authCtx) OpTypeReaddir;
       if limited then State_Monad.return (nfsErrorWithPostOp reply NFSERR_DELAY)
       else
         with_node handleVal (State_Monad.return (nfsErrorWithPostOp reply NFSERR_STALE)) (\<lambda>dir. do {
           dirAttrs \<leftarrow> node_attrs dir;
           if \<not> mode_is_dir (Mode dirAttrs) then State_Monad.return (nfsErrorWithPostOp reply NFSERR_NOTDIR)
           else
             attempt (ReadDir dir)
               (\<lambda>err. State_Monad.return (nfsErrorWithPostOp reply (mapError (Some err)))) (\<lambda>nodes.
             attempt (GetAttr dir)
               (\<lambda>err. State_Monad.return (nfsErrorWithPostOp reply (mapError (Some err)))) (\<lambda>attrs. do {
               entries \<leftarrow> entry_attrs nodes;
               State_Monad.return (set_data reply (readdir_body attrs cookieVerf cookie cnt entries)) })) }) }))))"

section \<open>READDIRPLUS\<close>

definition readdirplus_entry :: "nat \<Rightarrow> string \<times> NFSAttrs \<Rightarrow> u64 \<Rightarrow> bytes" where
  "readdirplus_entry i e handle =
     xdrEncodeUint32 1 @ xdrEncodeUint64 (FileId (snd e)) @ xdrEncodeString (entry_name (fst e)) @
     xdrEncodeUint64 (of_nat (i + 1)) @
     xdrEncodeUint32 1 @ encodeFileAttributes (snd e) @ xdrEncodeUint32 1 @ xdrEncodeFileHandle handle"

fun readdirplus_loop ::
    "u64 \<Rightarrow> int \<Rightarrow> nat \<Rightarrow> nat \<Rightarrow> NFSNode list \<Rightarrow> bytes \<Rightarrow> ('fs, 'f, bytes \<times> bool) op" where
  "readdirplus_loop cookie maxReplySize i entryCount [] buf = State_Monad.return (buf, False)"
| "readdirplus_loop cookie maxReplySize i entryCount (entry # nodes) buf =
     (if of_nat i < cookie then readdirplus_loop cookie maxReplySize (i + 1) entryCount nodes buf
      else if int (length buf) \<ge> maxReplySize \<and> entryCount > 0 then State_Monad.return (buf, True)
      else do {
        attrs \<leftarrow> node_attrs entry;
        handle \<leftarrow> allocate_handle entry;
        readdirplus_loop cookie maxReplySize (i + 1) (entryCount + 1) nodes
          (buf @ readdirplus_entry i (n_path entry, attrs) handle) })"

definition readdirplus_max :: "u32 \<Rightarrow> int" where
  "readdirplus_max maxCount = (if uint maxCount - 200 < 256 then 256 else uint maxCount - 200)"

definition handleReaddirplus :: "('fs, 'f) handler" where
  "handleReaddirplus body reply authCtx =
     decode (xdrDecodeFileHandle body) (State_Monad.return (nfsErrorWithPostOp reply GARBAGE_ARGS)) (\<lambda>handleVal body.
     decode (rd_u64 body) (State_Monad.return (nfsErrorWithPostOp reply GARBAGE_ARGS)) (\<lambda>cookie body.
     decode (rd_full 8 body) (State_Monad.return (nfsErrorWithPostOp reply GARBAGE_ARGS)) (\<lambda>cookieVerf body.
     decode (xdrDecodeUint32 body) (State_Monad.return (nfsErrorWithPostOp reply GARBAGE_ARGS)) (\<lambda>dirCount body.
     decode (xdrDecodeUint32 body) (State_Monad.return (nfsErrorWithPostOp reply GARBAGE_ARGS)) (\<lambda>maxCount body. do {
       limited \<leftarrow> rate_limited True (ClientIP authCtx) OpTypeReaddir;
       if limited then State_Monad.return (nfsErrorWithPostOp reply NFSERR_DELAY)
       else
         with_node handleVal (State_Monad.return (nfsErrorWithPostOp reply NFSERR_STALE)) (\<lambda>dir. do {
           dirAttrs \<leftarrow> node_attrs dir;
           if \<not> mode_is_dir (Mode dirAttrs) then State_Monad.return (nfsErrorWithPostOp reply NFSERR_NOTDIR)
           else
             attempt (ReadDirPlus dir)
               (\<lambda>err. State_Monad.return (nfsErrorWithPostOp reply (mapError (Some err)))) (\<lambda>nodes.
             attempt (GetAttr dir)
               (\<lambda>err. State_Monad.return (nfsErrorWithPostOp reply (mapError (Some err)))) (\<lambda>attrs. do {
               (buf, reachedLimit) \<leftarrow> readdirplus_loop cookie (readdirplus_max maxCount) 0 0 nodes
                 (readdir_header attrs cookieVerf);
               State_Monad.return (set_data reply
                 (buf @ xdrEncodeUint32 0 @ xdrEncodeUint32 (if \<not> reachedLimit then 1 else 0))) })) }) })))))"

end
