(* ===== verification/Dispatch.thy ===== *)
theory Dispatch
  imports ProcAttr ProcData ProcName ProcDir
begin

text \<open>
  Dispatching: the NFS program (\<open>handleNFSCall\<close> of \<open>nfs_operations.go\<close> with the table of
  \<open>nfs_handlers.go\<close>), the MOUNT program (\<open>mount_handlers.go\<close>) and \<open>HandleCall\<close>, which
  authenticates a call, runs it under a deadline and refuses work while a policy change drains the
  server.
\<close>

section \<open>The NFS program\<close>

definition nfsHandlers :: "u32 \<Rightarrow> ('fs, 'f) handler option" where
  "nfsHandlers proc =
     (if proc = 0 then Some handleNull
      else if proc = 1 then Some handleGetattr
      else if proc = 2 then Some handleSetattr
      else if proc = 3 then Some handleLookup
      else if proc = 4 then Some handleAccess
      else if proc = 5 then Some handleReadlink
      else if proc = 6 then Some handleRead
      else if proc = 7 then Some handleWrite
      else if proc = 8 then Some handleCreate
      else if proc = 9 then Some handleMkdir
      else if proc = 10 then Some handleSymlink
      else if proc = 11 then Some handleMknod
      else if proc = 12 then Some handleRemove
      else if proc = 13 then Some handleRmdir
      else if proc = 14 then Some handleRename
      else if proc = 15 then Some handleLink
      else if proc = 16 then Some handleReaddir
      else if proc = 17 then Some handleReaddirplus
      else if proc = 18 then Some handleFsstat
      else if proc = 19 then Some handleFsinfo
      else if proc = 20 then Some handlePathconf
      else if proc = 21 then Some handleCommit
      else None)"

definition handleNFSCall :: "RPCMsgHeader \<Rightarrow> ('fs, 'f) handler" where
  "handleNFSCall hdr body reply authCtx =
     (if Version hdr \<noteq> NFS_V3 then State_Monad.return (reply\<lparr>AcceptStatus := PROG_MISMATCH\<rparr>)
      else
        (case nfsHandlers (Procedure hdr) of
           None \<Rightarrow> State_Monad.return (reply\<lparr>AcceptStatus := PROC_UNAVAIL\<rparr>)
         | Some handler \<Rightarrow> handler body reply authCtx))"

section \<open>The MOUNT program\<close>

definition mount_MNT :: "('fs, 'f) handler" where
  "mount_MNT body reply authCtx = do {
     limited \<leftarrow> rate_limited True (ClientIP authCtx) OpTypeMount;
     if limited then State_Monad.return (set_data reply (xdrEncodeUint32 10006))
     else
       decode (xdrDecodeString body) (State_Monad.return (reply\<lparr>AcceptStatus := GARBAGE_ARGS\<rparr>)) (\<lambda>mountPath body.
       let mountPath = path_Clean mountPath
       in if mountPath \<noteq> ''/'' \<and> \<not> strings_HasPrefix mountPath ''/''
          then State_Monad.return (set_data reply (xdrEncodeUint32 2))
          else
            attempt (Lookup mountPath)
              (\<lambda>_. State_Monad.return (set_data reply (xdrEncodeUint32 2)))
              (\<lambda>node. do {
                 handle \<leftarrow> allocate_handle node;
                 State_Monad.return (set_data reply
                   (xdrEncodeUint32 0 @ xdrEncodeUint32 8 @ xdrEncodeUint64 handle @
                    xdrEncodeUint32 1 @ xdrEncodeUint32 AUTH_SYS)) })) }"

definition handleMountCall :: "RPCMsgHeader \<Rightarrow> ('fs, 'f) handler" where
  "handleMountCall hdr body reply authCtx =
     (if Version hdr \<noteq> 1 \<and> Version hdr \<noteq> MOUNT_V3
      then State_Monad.return (reply\<lparr>AcceptStatus := PROG_MISMATCH\<rparr>)
      else if Procedure hdr = 0 then State_Monad.return reply
      else if Procedure hdr = 1 then mount_MNT body reply authCtx
      else if Procedure hdr = 2 then State_Monad.return (set_data reply (xdrEncodeUint32 0))
      else if Procedure hdr = 3 then
        decode (xdrDecodeString body) (State_Monad.return (reply\<lparr>AcceptStatus := GARBAGE_ARGS\<rparr>))
          (\<lambda>_ body. State_Monad.return reply)
      else if Procedure hdr = 4 then State_Monad.return reply
      else if Procedure hdr = 5 then State_Monad.return (set_data reply
        (xdrEncodeUint32 1 @ xdrEncodeString ''/'' @ xdrEncodeUint32 0 @ xdrEncodeUint32 0))
      else State_Monad.return (reply\<lparr>AcceptStatus := PROC_UNAVAIL\<rparr>))"

section \<open>HandleCall\<close>

definition new_reply :: "RPCMsgHeader \<Rightarrow> RPCReply" where
  "new_reply hdr = \<lparr>reply_Header = hdr, Status = MSG_ACCEPTED, AcceptStatus = SUCCESS,
     reply_Verifier = \<lparr>verf_Flavor = 0, verf_Body = []\<rparr>, Data = DataNil\<rparr>"

text \<open>
  \<open>draining\<close> says that \<open>TryRLock\<close> fails because a policy update holds or awaits the write
  lock.  The goroutine that does the work first looks at the deadline; once it has started, its
  effects happen whatever the outcome.  At the end the caller takes the reply, unless the deadline
  has passed, when \<open>select\<close> may take either: \<open>late\<close> is its choice.
\<close>

definition HandleCall ::
    "bool \<Rightarrow> bool \<Rightarrow> RPCCall \<Rightarrow> bytes \<Rightarrow> AuthContext \<Rightarrow> ('fs, 'f, RPCReply result) op" where
  "HandleCall draining late call body authCtx =
     (let hdr = call_Header call; reply = new_reply hdr
      in if draining then State_Monad.return (Inr (set_data reply (xdrEncodeUint32 NFSERR_JUKEBOX)))
         else do {
           pol \<leftarrow> asks policy;
           t \<leftarrow> Timeouts;
           ctx \<leftarrow> WithTimeout (DefaultTimeout t);
           let (authResult, authCtx) = ValidateAuthentication authCtx pol;
           if \<not> Allowed authResult then State_Monad.return (Inr (reply\<lparr>Status := MSG_DENIED\<rparr>))
           else do {
             let authCtx = authCtx\<lparr>EffectiveUID := ar_UID authResult, EffectiveGID := ar_GID authResult\<rparr>;
             expired \<leftarrow> ctx_Done ctx;
             if expired then State_Monad.return (Inl (ErrText ''operation timed out''))
             else do {
               result \<leftarrow>
                 (if Program hdr = MOUNT_PROGRAM then handleMountCall hdr body reply authCtx
                  else if Program hdr = NFS_PROGRAM then handleNFSCall hdr body reply authCtx
                  else State_Monad.return (reply\<lparr>AcceptStatus := PROG_UNAVAIL\<rparr>));
               expired \<leftarrow> ctx_Done ctx;
               if expired \<and> late then State_Monad.return (Inl (ErrText ''operation timed out''))
               else State_Monad.return (Inr result) } } })"

end
