(* ===== verification/Invariants.thy ===== *)
theory Invariants
  imports Dispatch
begin

text \<open>
  Invariants of the server, proved once for all procedures.  The locale \<open>observing\<close> lists what
  an invariant \<open>P\<close> must survive for the operations that only look at the exported file system:
  time passing, new nodes, cache updates, allocated handles, opening and closing files for reading.
  \<open>G\<close> is what the invariant knows of the paths of nodes, \<open>F\<close> what it knows of open files.
  The locale \<open>serving\<close> adds the changes of the file system, which the code makes only when the
  export is not read-only.  Inside the locales every operation and every procedure is shown to
  keep \<open>P\<close>; an interpretation turns that into a theorem about a particular invariant.
\<close>

section \<open>Observing operations\<close>

locale observing =
  fixes P :: "('fs, 'f) AbsfsNFS \<Rightarrow> bool" and G :: "string \<Rightarrow> bool" and F :: "'f \<Rightarrow> open_flag \<Rightarrow> bool"
  assumes P_tick: "P w \<Longrightarrow> P (w\<lparr>tick := n\<rparr>)"
    and P_cells: "P w \<Longrightarrow> P (w\<lparr>cells := c, next_cell := n\<rparr>)"
    and P_attrCache: "P w \<Longrightarrow> (attr_cache_inv (attrCache w) \<Longrightarrow> attr_cache_inv a) \<Longrightarrow> P (w\<lparr>attrCache := a\<rparr>)"
    and P_dirCache: "P w \<Longrightarrow> (pred_option dir_cache_inv (dirCache w) \<Longrightarrow> pred_option dir_cache_inv dc) \<Longrightarrow>
      P (w\<lparr>dirCache := dc\<rparr>)"
    and P_rateLimiter: "P w \<Longrightarrow> P (w\<lparr>rateLimiter := r\<rparr>)"
    and P_Allocate: "P w \<Longrightarrow> G (n_path node) \<Longrightarrow> P (w\<lparr>fileMap := snd (Allocate (fileMap w) (NodeFile node))\<rparr>)"
    and P_node: "P w \<Longrightarrow> Get (fileMap w) h = Some (NodeFile node) \<Longrightarrow> G (n_path node)"
    and P_open: "P w \<Longrightarrow> G p \<Longrightarrow> fs_OpenFile (ops w) (fs w) p flag = Inr f \<Longrightarrow> F f flag"
    and P_close: "P w \<Longrightarrow> F f O_RDONLY \<Longrightarrow> P (w\<lparr>fs := snd (f_Close (ops w) (fs w) f)\<rparr>)"
    and G_join: "G d \<Longrightarrow> validateFilename name = NFS_OK \<Longrightarrow> G (path_Join d name)"
    and G_sanitize: "G d \<Longrightarrow> sanitizePath d name = Inr p \<Longrightarrow> G p"
    and G_mount: "strings_HasPrefix (path_Clean p) ''/'' \<Longrightarrow> G (path_Clean p)"
begin

lemma cells_only: "P w \<Longrightarrow> P (w\<lparr>cells := c\<rparr>)"
  using P_cells [of w "next_cell w" c] by simp

lemma spec_time:
  "spec P time_Now (\<lambda>_. True)" "spec P (readings n) (\<lambda>_. True)"
  "spec P (WithTimeout d) (\<lambda>_. True)" "spec P (ctx_Done t) (\<lambda>_. True)" "spec P Timeouts (\<lambda>_. True)"
  by (auto intro!: specI simp: run_time P_tick)

lemma spec_nodes:
  "spec P (new_node p a) (\<lambda>node. n_path node = p)" "spec P (node_attrs node) (\<lambda>_. True)"
  "spec P (update_attrs node g) (\<lambda>_. True)"
  by (auto intro!: specI simp: run_nodes P_cells cells_only)

lemma spec_allocate: "G (n_path node) \<Longrightarrow> spec P (allocate_handle node) (\<lambda>_. True)"
  by (auto intro!: specI simp: run_nodes P_Allocate)

lemma spec_cache:
  "spec P (cache_Get p) (\<lambda>_. True)" "spec P (cache_Put p a) (\<lambda>_. True)"
  "spec P (cache_PutNegative p) (\<lambda>_. True)" "spec P (cache_Invalidate p) (\<lambda>_. True)"
  "spec P (cache_InvalidateNegativeInDir p) (\<lambda>_. True)"
proof -
  have p: "P (w\<lparr>tick := n, attrCache := a\<rparr>)"
    if "P w" "attr_cache_inv (attrCache w) \<Longrightarrow> attr_cache_inv a" for w :: "('fs, 'f) AbsfsNFS" and n a
    using P_attrCache [OF P_tick [OF that(1)], of n a] that(2) by simp
  show "spec P (cache_Get p) (\<lambda>_. True)" "spec P (cache_Put p a) (\<lambda>_. True)" "spec P (cache_PutNegative p) (\<lambda>_. True)"
    by (auto intro!: specI p simp: run_cache Let_def AttrCache_Get_view(2) AttrCache_Put_view(1) PutNegative_view(1))
  show "spec P (cache_Invalidate p) (\<lambda>_. True)" "spec P (cache_InvalidateNegativeInDir p) (\<lambda>_. True)"
    by (auto intro!: specI P_attrCache simp: run_cache AttrCache_Invalidate_view(1) InvalidateNegativeInDir_view(1))
qed

lemma spec_dircache:
  "spec P (dircache_Get p) (\<lambda>_. True)" "spec P (dircache_Put p es) (\<lambda>_. True)"
  "spec P (dircache_Invalidate p) (\<lambda>_. True)"
proof -
  have p: "P (w\<lparr>tick := n, dirCache := dc\<rparr>)"
    if "P w" "pred_option dir_cache_inv (dirCache w) \<Longrightarrow> pred_option dir_cache_inv dc"
    for w :: "('fs, 'f) AbsfsNFS" and n dc
    using P_dirCache [OF P_tick [OF that(1)], of n dc] that(2) by simp
  show "spec P (dircache_Get p) (\<lambda>_. True)"
    by (auto intro!: specI p simp: run_dircache Let_def P_tick DirCache_Get_view(2) split: option.splits)
  show "spec P (dircache_Put p es) (\<lambda>_. True)"
    by (auto intro!: specI p simp: run_dircache option.pred_map DirCache_Put_view(1) option.pred_mono_strong)
  show "spec P (dircache_Invalidate p) (\<lambda>_. True)"
    by (auto intro!: specI P_dirCache simp: run_dircache option.pred_map DirCache_Invalidate_view(1)
        option.pred_mono_strong)
qed

lemma spec_fs:
  "spec P (Lstat p) (\<lambda>_. True)" "spec P (Stat p) (\<lambda>_. True)" "spec P (file_Stat f) (\<lambda>_. True)"
  "spec P (file_ReadAt f n off) (\<lambda>_. True)" "spec P (file_Readdir f) (\<lambda>_. True)" "spec P readOnly (\<lambda>_. True)"
  "spec P (asks h) (\<lambda>_. True)" "spec P (entry_attrs nodes) (\<lambda>_. True)"
  by (auto intro!: specI simp: run_fs run_common run_asks entry_attrs_def)

lemma spec_files:
  "G p \<Longrightarrow> spec P (OpenFile p flag) (on_success (\<lambda>f. F f flag))"
  "F f O_RDONLY \<Longrightarrow> spec P (file_Close f) (\<lambda>_. True)"
  by (auto intro!: specI simp: run_fs P_open P_close on_success_def split: sum.splits)

lemmas spec_steps = spec_time spec_nodes spec_allocate spec_cache spec_dircache spec_fs spec_files

text \<open>The rules that follow the structure of the code, one for each step and way of using it.\<close>

lemmas spec_flow = spec_return spec_if spec_option spec_sum spec_prod spec_prod_app spec_prod_app2 spec_Let spec_decode
  spec_bind_if spec_bind_attempt spec_bind_sum
  spec_steps [THEN spec_bind] spec_fs(1-3,5) [THEN spec_attempt] spec_files(1) [THEN spec_attempt]

lemma Lookup_spec: "spec P (Lookup p) (on_success (\<lambda>node. n_path node = p))"
  unfolding Lookup_def Let_def
  by (intro spec_flow spec_steps) simp_all

lemma GetAttr_spec: "spec P (GetAttr node) (\<lambda>_. True)"
  unfolding GetAttr_def Let_def by (intro spec_flow spec_steps TrueI)

lemma Read_spec: "G (n_path node) \<Longrightarrow> spec P (Read node off n) (\<lambda>_. True)"
  unfolding Read_def Let_def by (intro spec_flow spec_steps TrueI) simp_all

lemma Readlink_spec: "spec P (Readlink node) (\<lambda>_. True)"
  unfolding Readlink_def by (intro spec_flow spec_fs(7) [THEN spec_attempt] TrueI)

lemma nodes_of_entries_spec:
  "G dir \<Longrightarrow> spec P (nodes_of_entries dir es) (\<lambda>nodes. \<forall>node \<in> set nodes. G (n_path node))"
proof (induction es)
  case (Cons e es)
  note ih = Cons.IH [OF Cons.prems]
  show ?case
    unfolding nodes_of_entries.simps
    by (intro spec_flow ih ih [THEN spec_bind] Lookup_spec [THEN spec_attempt])
      (auto intro: G_sanitize [OF Cons.prems])
qed (simp add: spec_return)

lemma ReadDir_spec:
  assumes "G (n_path dir)"
  shows "spec P (ReadDir dir) (on_success (\<lambda>nodes. \<forall>node \<in> set nodes. G (n_path node)))"
    (is "spec P _ ?Q")
proof -
  note ns = nodes_of_entries_spec [OF assms]
  have a: "spec P (attempt (file_Readdir f) (\<lambda>err. State_Monad.return (Inl (g err))) (\<lambda>entries.
      State_Monad.bind (if b then dircache_Put (n_path dir) entries else skip) (\<lambda>_.
      State_Monad.bind (nodes_of_entries (n_path dir) entries) (\<lambda>nodes. State_Monad.return (Inr nodes))))) ?Q"
    for f b and g :: "goerr \<Rightarrow> goerr"
    by (intro spec_flow spec_steps ns [THEN spec_bind]) simp_all
  show ?thesis
    unfolding ReadDir_def
    by (intro spec_flow spec_steps ns [THEN spec_bind] a [THEN spec_bind] assms) (simp_all split: if_splits)
qed

lemma precache_attrs_spec: "spec P (precache_attrs nodes) (\<lambda>_. True)"
proof (induction nodes)
  case (Cons node nodes)
  show ?case
    unfolding precache_attrs.simps Let_def by (intro spec_flow spec_steps Cons.IH)
qed (simp add: spec_return)

lemma ReadDirPlus_spec:
  "G (n_path dir) \<Longrightarrow>
    spec P (ReadDirPlus dir) (on_success (\<lambda>nodes. \<forall>node \<in> set nodes. G (n_path node)))"
  unfolding ReadDirPlus_def
  by (intro spec_flow ReadDir_spec [THEN spec_attempt] precache_attrs_spec [THEN spec_bind]) simp_all

lemma rate_limited_spec: "spec P (rate_limited b ip op) (\<lambda>_. True)"
  unfolding rate_limited_def Let_def
  by (intro spec_flow spec_modify [THEN spec_bind] P_rateLimiter TrueI)

lemma with_node_spec:
  assumes "spec P stale Q" and "\<And>node. G (n_path node) \<Longrightarrow> spec P (k node) Q"
  shows "spec P (with_node h stale k) Q"
proof -
  have "spec P (lookupNode h) (\<lambda>r. \<forall>node. r = Some node \<longrightarrow> G (n_path node))"
    by (auto intro!: specI P_node simp: run_common split: option.splits absfs_file.splits)
  then show ?thesis
    unfolding with_node_def by (rule spec_bind) (auto intro!: spec_option assms)
qed

lemma post_attrs_spec: "spec P (post_attrs node a) (\<lambda>_. True)"
  unfolding post_attrs_def by (intro spec_flow GetAttr_spec [THEN spec_bind] TrueI)

lemma dir_failure_spec: "spec P (dir_failure reply node a st) (\<lambda>_. True)"
  unfolding dir_failure_def by (intro spec_flow post_attrs_spec [THEN spec_bind] TrueI)

lemma created_spec: "G (n_path newNode) \<Longrightarrow> spec P (created reply node a newNode) (\<lambda>_. True)"
  unfolding created_def by (intro spec_flow GetAttr_spec [THEN spec_attempt] TrueI)

lemmas spec_ops = with_node_spec
  GetAttr_spec [THEN spec_attempt] Read_spec [THEN spec_attempt] Readlink_spec [THEN spec_attempt]
  Lookup_spec [THEN spec_attempt] ReadDir_spec [THEN spec_attempt] ReadDirPlus_spec [THEN spec_attempt]
  rate_limited_spec [THEN spec_bind] post_attrs_spec [THEN spec_bind]

lemma readdirplus_loop_spec:
  "\<forall>node \<in> set nodes. G (n_path node) \<Longrightarrow> spec P (readdirplus_loop cookie mx i k nodes buf) (\<lambda>_. True)"
proof (induction nodes arbitrary: i k buf)
  case (Cons node nodes)
  show ?case
    unfolding readdirplus_loop.simps using Cons.prems by (intro spec_flow Cons.IH TrueI) simp_all
qed (simp add: spec_return)

subsection \<open>Procedures that only look\<close>

lemma attrs_and_constants_spec: "spec P (attrs_and_constants xs body reply ctx) (\<lambda>_. True)"
  unfolding attrs_and_constants_def by (intro spec_flow spec_ops TrueI)

lemma handleNull_spec: "spec P (handleNull body reply ctx) (\<lambda>_. True)"
  unfolding handleNull_def by (intro spec_flow TrueI)

lemma handleMknod_spec: "spec P (handleMknod body reply ctx) (\<lambda>_. True)"
  unfolding handleMknod_def by (intro spec_flow TrueI)

lemma handleLink_spec: "spec P (handleLink body reply ctx) (\<lambda>_. True)"
  unfolding handleLink_def by (intro spec_flow TrueI)

lemma handleFsstat_spec: "spec P (handleFsstat body reply ctx) (\<lambda>_. True)"
  unfolding handleFsstat_def by (rule attrs_and_constants_spec)

lemma handleFsinfo_spec: "spec P (handleFsinfo body reply ctx) (\<lambda>_. True)"
  unfolding handleFsinfo_def by (rule attrs_and_constants_spec)

lemma handlePathconf_spec: "spec P (handlePathconf body reply ctx) (\<lambda>_. True)"
  unfolding handlePathconf_def by (rule attrs_and_constants_spec)

lemma handleGetattr_spec: "spec P (handleGetattr body reply ctx) (\<lambda>_. True)"
  unfolding handleGetattr_def
  by (intro spec_flow spec_ops TrueI; simp add: G_join)

lemma handleAccess_spec: "spec P (handleAccess body reply ctx) (\<lambda>_. True)"
  unfolding handleAccess_def
  by (intro spec_flow spec_ops TrueI; simp add: G_join)

lemma handleReadlink_spec: "spec P (handleReadlink body reply ctx) (\<lambda>_. True)"
  unfolding handleReadlink_def
  by (intro spec_flow spec_ops TrueI; simp add: G_join)

lemma handleRead_spec: "spec P (handleRead body reply ctx) (\<lambda>_. True)"
  unfolding handleRead_def
  by (intro spec_flow spec_ops TrueI; simp add: G_join)

lemma handleLookup_spec: "spec P (handleLookup body reply ctx) (\<lambda>_. True)"
  unfolding handleLookup_def
  by (intro spec_flow spec_ops TrueI; simp add: G_join)

lemma handleReaddir_spec: "spec P (handleReaddir body reply ctx) (\<lambda>_. True)"
  unfolding handleReaddir_def
  by (intro spec_flow spec_ops TrueI; simp add: G_join)

lemma handleReaddirplus_spec: "spec P (handleReaddirplus body reply ctx) (\<lambda>_. True)"
  unfolding handleReaddirplus_def
  by (intro spec_flow spec_ops readdirplus_loop_spec [THEN spec_bind] TrueI; simp add: G_join)

lemma G_mounted: "\<not> (path_Clean p \<noteq> ''/'' \<and> \<not> strings_HasPrefix (path_Clean p) ''/'') \<Longrightarrow> G (path_Clean p)"
  by (rule G_mount) (auto simp: strings_HasPrefix_def)

lemma mount_MNT_spec: "spec P (mount_MNT body reply ctx) (\<lambda>_. True)"
  unfolding mount_MNT_def Let_def
  apply (intro spec_flow spec_ops TrueI)
  by (simp only: G_mounted on_success_simps simp_thms)

lemma handleMountCall_spec: "spec P (handleMountCall hdr body reply ctx) (\<lambda>_. True)"
  unfolding handleMountCall_def by (intro spec_if spec_return spec_decode mount_MNT_spec TrueI)

end

section \<open>Operations that change the file system\<close>

definition writable :: "(('fs, 'f) AbsfsNFS \<Rightarrow> bool) \<Rightarrow> ('fs, 'f) AbsfsNFS \<Rightarrow> bool" where
  "writable P w \<longleftrightarrow> P w \<and> \<not> p_ReadOnly (policy w)"

locale serving = observing P G F
  for P :: "('fs, 'f) AbsfsNFS \<Rightarrow> bool" and G :: "string \<Rightarrow> bool" and F :: "'f \<Rightarrow> open_flag \<Rightarrow> bool" +
  assumes P_create: "P w \<Longrightarrow> \<not> p_ReadOnly (policy w) \<Longrightarrow> G p \<Longrightarrow>
      P (w\<lparr>fs := snd (fs_Create (ops w) (fs w) p)\<rparr>) \<and> on_success (\<lambda>f. F f O_WRONLY) (fst (fs_Create (ops w) (fs w) p))"
    and P_close_written: "P w \<Longrightarrow> \<not> p_ReadOnly (policy w) \<Longrightarrow> F f O_WRONLY \<Longrightarrow>
      P (w\<lparr>fs := snd (f_Close (ops w) (fs w) f)\<rparr>)"
    and P_write: "P w \<Longrightarrow> \<not> p_ReadOnly (policy w) \<Longrightarrow> F f O_WRONLY \<Longrightarrow>
      P (w\<lparr>fs := snd (f_WriteAt (ops w) (fs w) f data off)\<rparr>)"
    and P_call: "P w \<Longrightarrow> \<not> p_ReadOnly (policy w) \<Longrightarrow> list_all G (call_paths c) \<Longrightarrow>
      P (w\<lparr>fs := snd (fs_Do (ops w) (fs w) c)\<rparr>)"

sublocale serving \<subseteq> rw: observing "writable P" G F
proof
  fix w :: "('fs, 'f) AbsfsNFS" and h node p flag f
  assume P: "writable P w"
  then have w: "P w" by (simp add: writable_def)
  show "Get (fileMap w) h = Some (NodeFile node) \<Longrightarrow> G (n_path node)" using P_node [OF w] .
  show "G p \<Longrightarrow> fs_OpenFile (ops w) (fs w) p flag = Inr f \<Longrightarrow> F f flag" using P_open [OF w] .
qed (simp_all add: writable_def P_tick P_cells P_attrCache P_dirCache P_rateLimiter P_Allocate P_close
    G_join G_sanitize G_mount)

context serving
begin

lemma spec_writing:
  "F f O_WRONLY \<Longrightarrow> spec (writable P) (file_WriteAt f data off) (\<lambda>_. True)"
  "F f O_WRONLY \<Longrightarrow> spec (writable P) (file_Close f) (\<lambda>_. True)"
  "list_all G (call_paths c) \<Longrightarrow> spec (writable P) (call_fs c) (\<lambda>_. True)"
  "G p \<Longrightarrow> spec (writable P) (create_file p) (on_success (\<lambda>f. F f O_WRONLY))"
  by (auto intro!: specI simp: run_fs writable_def P_write P_close_written P_call P_create)

lemma spec_readOnly:
  assumes "spec P m Q" and "spec (writable P) n Q"
  shows "spec P (State_Monad.bind readOnly (\<lambda>ro. if ro then m else n)) Q"
proof (rule specI)
  fix s r s'
  assume "P s" "run_state (State_Monad.bind readOnly (\<lambda>ro. if ro then m else n)) s = (r, s')"
  then show "P s' \<and> Q r"
    using specD [OF assms(1), of s r s'] specD [OF assms(2), of s r s']
    by (auto simp: run_common writable_def split: if_splits)
qed

lemmas write_flow = spec_writing(1-3) [THEN spec_bind] spec_writing(2,3) [THEN spec_check]
  spec_writing(4) [THEN spec_attempt]

lemma SetAttr_spec:
  assumes "G (n_path node)"
  shows "spec (writable P) (SetAttr node attrs) (\<lambda>_. True)"
proof -
  have w: "spec (writable P) m (\<lambda>_. True) \<Longrightarrow> spec (writable P) k (\<lambda>_. True) \<Longrightarrow>
      spec (writable P) (when_err b msg m k) (\<lambda>_. True)" for b msg and m k :: "('fs, 'f, goerr option) op"
    unfolding when_err_def by (intro spec_if spec_check spec_return TrueI)
  show ?thesis
    unfolding SetAttr_def using assms by (intro rw.spec_flow w spec_writing TrueI; simp)
qed

lemma node_Truncate_spec: "G (n_path node) \<Longrightarrow> spec (writable P) (node_Truncate node n) (\<lambda>_. True)"
  unfolding node_Truncate_def by (intro rw.spec_flow spec_writing; simp)

lemma Write_spec: "G (n_path node) \<Longrightarrow> spec (writable P) (Write node off data) (\<lambda>_. True)"
  unfolding Write_def Let_def by (intro rw.spec_flow rw.spec_steps write_flow TrueI; simp)

lemma invalidate_new_entry_spec: "spec (writable P) (invalidate_new_entry d p) (\<lambda>_. True)"
  unfolding invalidate_new_entry_def by (intro rw.spec_flow rw.spec_steps)

lemma Create_spec: 
  assumes "G (n_path dir)"
  shows "spec (writable P) (Create dir name attrs) (on_success (\<lambda>node. G (n_path node)))"
proof -
  have l: "G p \<Longrightarrow> spec (writable P) (Lookup p) (on_success (\<lambda>node. G (n_path node)))" for p
    by (rule spec_weaken [OF rw.Lookup_spec]) (auto simp: on_success_def split: sum.splits)
  show ?thesis
    unfolding Create_def
    by (intro rw.spec_flow write_flow invalidate_new_entry_spec [THEN spec_bind] l;
        simp add: G_sanitize [OF assms])
qed

lemma Symlink_spec:
  assumes "G (n_path dir)"
  shows "spec (writable P) (Symlink dir name target attrs) (on_success (\<lambda>node. G (n_path node)))"
proof -
  have l: "G p \<Longrightarrow> spec (writable P) (Lookup p) (on_success (\<lambda>node. G (n_path node)))" for p
    by (rule spec_weaken [OF rw.Lookup_spec]) (auto simp: on_success_def split: sum.splits)
  show ?thesis
    unfolding Symlink_def
    by (intro rw.spec_flow write_flow invalidate_new_entry_spec [THEN spec_bind] l;
        simp add: G_sanitize [OF assms])
qed

lemma Remove_spec:
  assumes "G (n_path dir)"
  shows "spec (writable P) (Remove dir name) (\<lambda>_. True)"
  unfolding Remove_def by (intro rw.spec_flow write_flow TrueI; simp add: G_sanitize [OF assms])

lemma Rename_spec:
  assumes "G (n_path d1)" "G (n_path d2)"
  shows "spec (writable P) (Rename d1 n1 d2 n2) (\<lambda>_. True)"
  unfolding Rename_def
  by (intro rw.spec_flow write_flow TrueI; simp add: G_sanitize [OF assms(1)] G_sanitize [OF assms(2)])

lemma setattr_size_spec: "G (n_path node) \<Longrightarrow> spec (writable P) (setattr_size node sattr) (\<lambda>_. True)"
  unfolding setattr_size_def
  by (intro rw.spec_flow rw.spec_steps node_Truncate_spec [THEN spec_check] TrueI; simp)

lemmas write_ops = Create_spec [THEN spec_attempt] Symlink_spec [THEN spec_attempt]
  Remove_spec [THEN spec_check] Rename_spec [THEN spec_check] SetAttr_spec [THEN spec_check]
  setattr_size_spec [THEN spec_bind] Write_spec [THEN spec_bind] rw.Lookup_spec [THEN spec_bind]
  rw.dir_failure_spec rw.created_spec

subsection \<open>Procedures that change the file system\<close>

lemma handleSetattr_spec: "spec P (handleSetattr body reply ctx) (\<lambda>_. True)"
  unfolding handleSetattr_def
  by (rule spec_readOnly; intro rw.spec_flow rw.spec_ops write_ops spec_return TrueI; simp)

lemma handleWrite_spec: "spec P (handleWrite body reply ctx) (\<lambda>_. True)"
  unfolding handleWrite_def
  by (rule spec_readOnly; intro rw.spec_flow rw.spec_ops write_ops spec_return TrueI; simp)

lemma handleCommit_spec: "spec P (handleCommit body reply ctx) (\<lambda>_. True)"
  unfolding handleCommit_def
  by (rule spec_readOnly; intro rw.spec_flow rw.spec_ops spec_return TrueI)

lemma handleCreate_spec: "spec P (handleCreate body reply ctx) (\<lambda>_. True)"
  unfolding handleCreate_def
  by (rule spec_readOnly; intro rw.spec_flow rw.spec_ops write_ops spec_return TrueI; simp add: G_join)

lemma handleMkdir_spec: "spec P (handleMkdir body reply ctx) (\<lambda>_. True)"
  unfolding handleMkdir_def Let_def
  by (rule spec_readOnly; intro rw.spec_flow rw.spec_ops write_flow write_ops spec_return TrueI; simp add: G_join)

lemma handleSymlink_spec: "spec P (handleSymlink body reply ctx) (\<lambda>_. True)"
  unfolding handleSymlink_def Let_def
  by (rule spec_readOnly; intro rw.spec_flow rw.spec_ops write_flow write_ops spec_return TrueI; simp add: G_join)

lemma handleRemove_spec: "spec P (handleRemove body reply ctx) (\<lambda>_. True)"
  unfolding handleRemove_def
  by (rule spec_readOnly; intro rw.spec_flow rw.spec_ops write_ops spec_return TrueI; simp)

lemma handleRmdir_spec: "spec P (handleRmdir body reply ctx) (\<lambda>_. True)"
  unfolding handleRmdir_def Let_def
  by (rule spec_readOnly; intro rw.spec_flow rw.spec_ops write_flow write_ops spec_return TrueI; simp add: G_join)

lemma handleRename_spec: "spec P (handleRename body reply ctx) (\<lambda>_. True)"
  unfolding handleRename_def
  by (rule spec_readOnly; intro rw.spec_flow rw.spec_ops write_ops spec_return TrueI; simp)

subsection \<open>Calls\<close>

lemmas procedure_specs = handleNull_spec handleGetattr_spec handleSetattr_spec handleLookup_spec
  handleAccess_spec handleReadlink_spec handleRead_spec handleWrite_spec handleCreate_spec
  handleMkdir_spec handleSymlink_spec handleMknod_spec handleRemove_spec handleRmdir_spec
  handleRename_spec handleLink_spec handleReaddir_spec handleReaddirplus_spec handleFsstat_spec
  handleFsinfo_spec handlePathconf_spec handleCommit_spec

lemma nfsHandlers_spec: "nfsHandlers proc = Some h \<Longrightarrow> spec P (h body reply ctx) (\<lambda>_. True)"
  unfolding nfsHandlers_def by (simp split: if_splits; metis procedure_specs)

lemma handleNFSCall_spec: "spec P (handleNFSCall hdr body reply ctx) (\<lambda>_. True)"
  unfolding handleNFSCall_def by (intro spec_if spec_option spec_return nfsHandlers_spec TrueI)

lemma HandleCall_spec: "spec P (HandleCall dr late call body ctx) (\<lambda>_. True)"
proof -
  have r: "spec P (if b then handleMountCall h body reply c else if b' then handleNFSCall h body reply c
      else State_Monad.return x) (\<lambda>_. True)" for b b' h reply c x
    by (intro spec_if spec_return handleMountCall_spec handleNFSCall_spec TrueI)
  show ?thesis
    unfolding HandleCall_def Let_def by (intro spec_flow r [THEN spec_bind] TrueI)
qed

end

end
