(* ===== verification/Lifecycle.thy ===== *)
theory Lifecycle
  imports Invariants
begin

text \<open>
  The life of the server object: \<open>New\<close>, \<open>Close\<close> and \<open>UpdateExportOptions\<close> of
  \<open>absnfs.go\<close>, the live updates of \<open>options.go\<close>, and the states they lead to together with the
  calls of clients.  The worker pool and the loggers hold no state that the procedures read; the
  outcome of creating or closing a logger is an argument.
\<close>

section \<open>Creation\<close>

definition valid_squash :: "string \<Rightarrow> bool" where
  "valid_squash s \<longleftrightarrow> to_lower s \<in> {[], ''root'', ''all'', ''none''}"

text \<open>
  \<open>ncpu\<close> is \<open>runtime.NumCPU()\<close>, \<open>newLogger\<close> the outcome of \<open>NewSlogLogger\<close>, \<open>verf\<close>
  the write verifier that the RPC server draws at start-up.
\<close>

definition New ::
    "('fs, 'f) FileSystem \<Rightarrow> 'fs \<Rightarrow> int \<Rightarrow> (nat \<Rightarrow> time) \<Rightarrow> bytes \<Rightarrow> (LogConfig \<Rightarrow> goerr option) \<Rightarrow>
     ExportOptions \<Rightarrow> ('fs, 'f) AbsfsNFS result" where
  "New o_fs s ncpu clk verf newLogger options =
     (if \<not> valid_squash (o_Squash options)
      then Inl (ErrText (''invalid squash mode '' @ o_Squash options @ '': must be root, all, or none''))
      else
        let options = option_defaults ncpu options
        in case Option.bind (o_Log options) newLogger of
             Some e \<Rightarrow> Inl (Wrap ''failed to create logger: '' e)
           | None \<Rightarrow>
               (case fs_Stat o_fs s ''/'' of
                  Inl e \<Rightarrow> Inl e
                | Inr info \<Rightarrow>
                    Inr \<lparr>ops = o_fs, fs = s,
                         root = \<lparr>n_path = ''/'', n_cell = 0\<rparr>,
                         fileMap = newFileMap, mountPath = [],
                         attrCache = ConfigureNegativeCaching (o_CacheNegativeLookups options)
                           (o_NegativeCacheTimeout options)
                           (NewAttrCache (o_AttrCacheTimeout options) (o_AttrCacheSize options)),
                         dirCache = (if o_EnableDirCache options
                           then Some (NewDirCache (o_DirCacheTimeout options) (o_DirCacheMaxEntries options)
                                        (o_DirCacheMaxDirSize options))
                           else None),
                         rateLimiter = (if o_EnableRateLimiting options
                           then map_option (\<lambda>c. NewRateLimiter c clk) (o_RateLimitConfig options) else None),
                         tuning = tuningFromExportOptions options,
                         policy = policyFromExportOptions options,
                         writeVerf = verf,
                         cells = (\<lambda>_. attrs_from_info info 0 0 0 (clk 3)),
                         next_cell = 1, clock = clk, tick = 4\<rparr>))"

section \<open>Live updates\<close>

definition GetExportOptions :: "('fs, 'f, ExportOptions) op" where
  "GetExportOptions = asks (\<lambda>w. exportOptionsFromSnapshots (tuning w) (policy w))"

definition applyTuningSideEffects :: "TuningOptions \<Rightarrow> TuningOptions \<Rightarrow> ('fs, 'f, unit) op" where
  "applyTuningSideEffects old updated = modify (\<lambda>w.
     let c = attrCache w;
         c = (if t_AttrCacheSize updated > 0 \<and> t_AttrCacheSize updated \<noteq> t_AttrCacheSize old
              then AttrCache_Resize (t_AttrCacheSize updated) c else c);
         c = (if t_AttrCacheTimeout updated > 0 \<and> t_AttrCacheTimeout updated \<noteq> t_AttrCacheTimeout old
              then AttrCache_UpdateTTL (t_AttrCacheTimeout updated) c else c);
         c = (if t_CacheNegativeLookups updated \<noteq> t_CacheNegativeLookups old \<or>
                 t_NegativeCacheTimeout updated \<noteq> t_NegativeCacheTimeout old
              then ConfigureNegativeCaching (t_CacheNegativeLookups updated) (t_NegativeCacheTimeout updated) c
              else c);
         d = dirCache w;
         d = (if t_DirCacheMaxEntries updated > 0 \<and> t_DirCacheMaxEntries updated \<noteq> t_DirCacheMaxEntries old
              then map_option (DirCache_Resize (t_DirCacheMaxEntries updated)) d else d);
         d = (if t_DirCacheTimeout updated > 0 \<and> t_DirCacheTimeout updated \<noteq> t_DirCacheTimeout old
              then map_option (DirCache_UpdateTTL (t_DirCacheTimeout updated)) d else d)
     in w\<lparr>attrCache := c, dirCache := d\<rparr>)"

definition UpdateTuningOptions :: "(TuningOptions \<Rightarrow> TuningOptions) \<Rightarrow> ('fs, 'f, unit) op" where
  "UpdateTuningOptions fn = do {
     old \<leftarrow> asks tuning;
     let updated = fn old;
     modify (\<lambda>w. w\<lparr>tuning := updated\<rparr>);
     applyTuningSideEffects old updated }"

text \<open>The drain makes the update one step: it starts when no request is in flight, and requests
  that arrive meanwhile are turned away.\<close>

definition UpdatePolicyOptions :: "PolicyOptions \<Rightarrow> ('fs, 'f, goerr option) op" where
  "UpdatePolicyOptions newPolicy = do {
     old \<leftarrow> asks policy;
     if p_Squash old \<noteq> p_Squash newPolicy
     then State_Monad.return (Some (ErrText ''cannot change Squash mode at runtime''))
     else do {
       modify (\<lambda>w. w\<lparr>policy := newPolicy\<lparr>p_TLS := map_option TLS_Clone (p_TLS newPolicy)\<rparr>\<rparr>);
       (case p_RateLimitConfig newPolicy of
          Some config \<Rightarrow>
            if p_EnableRateLimiting newPolicy then do {
              clk \<leftarrow> readings 3;
              modify (\<lambda>w. w\<lparr>rateLimiter := Some (NewRateLimiter config clk)\<rparr>) }
            else modify (\<lambda>w. w\<lparr>rateLimiter := None\<rparr>)
        | None \<Rightarrow>
            if \<not> p_EnableRateLimiting newPolicy then modify (\<lambda>w. w\<lparr>rateLimiter := None\<rparr>) else skip);
       State_Monad.return None } }"

definition merge_tuning :: "ExportOptions \<Rightarrow> TuningOptions \<Rightarrow> TuningOptions" where
  "merge_tuning newOptions t =
     (let n = tuningFromExportOptions newOptions;
          n = (if t_Timeouts n = None then n\<lparr>t_Timeouts := t_Timeouts t\<rparr> else n)
      in if t_Log n = None then n\<lparr>t_Log := t_Log t\<rparr> else n)"

definition UpdateExportOptions :: "ExportOptions \<Rightarrow> ('fs, 'f, goerr option) op" where
  "UpdateExportOptions newOptions = do {
     UpdateTuningOptions (merge_tuning newOptions);
     currentPolicy \<leftarrow> asks policy;
     if o_Squash newOptions \<noteq> [] \<and> o_Squash newOptions \<noteq> p_Squash currentPolicy
     then State_Monad.return (Some (ErrText ''cannot change Squash mode at runtime (requires restart)''))
     else UpdatePolicyOptions
            ((policyFromExportOptions newOptions)\<lparr>p_Squash := p_Squash currentPolicy\<rparr>) }"

section \<open>Closing\<close>

definition Close :: "goerr option \<Rightarrow> ('fs, 'f, goerr option) op" where
  "Close loggerErr = do {
     modify (\<lambda>w. w\<lparr>fileMap := ReleaseAll (fileMap w), attrCache := AttrCache_Clear (attrCache w),
       dirCache := map_option DirCache_Clear (dirCache w)\<rparr>);
     State_Monad.return (map_option (Wrap ''failed to close logger: '') loggerErr) }"

section \<open>Reachable states\<close>

text \<open>
  What can happen to a server: a client's call, an update of the options, an update of the tuning
  by any function, a policy update, and the end of the export.  A call is a step while the timeouts
  are set: with nil timeouts \<open>HandleCall\<close> panics when it reads \<open>DefaultTimeout\<close>, before it changes
  anything, and the recovery of the connection's goroutine ends that connection only.
\<close>

inductive server_step :: "('fs, 'f) AbsfsNFS \<Rightarrow> ('fs, 'f) AbsfsNFS \<Rightarrow> bool" where
  call: "t_Timeouts (tuning w) \<noteq> None \<Longrightarrow>
    run_state (HandleCall draining late call body authCtx) w = (r, w') \<Longrightarrow> server_step w w'"
| options: "run_state (UpdateExportOptions newOptions) w = (r, w') \<Longrightarrow> server_step w w'"
| tuning: "run_state (UpdateTuningOptions fn) w = (r, w') \<Longrightarrow> server_step w w'"
| policy: "run_state (UpdatePolicyOptions newPolicy) w = (r, w') \<Longrightarrow> server_step w w'"
| unexport: "run_state Unexport w = (r, w') \<Longrightarrow> server_step w w'"

inductive reachable :: "('fs, 'f) AbsfsNFS \<Rightarrow> ('fs, 'f) AbsfsNFS \<Rightarrow> bool" for w0 where
  start: "reachable w0 w0"
| step: "reachable w0 w \<Longrightarrow> server_step w w' \<Longrightarrow> reachable w0 w'"

inductive_cases server_stepE: "server_step w w'"

end
