(* ===== verification/Guarantees.thy ===== *)
theory Guarantees
  imports Lifecycle
begin

text \<open>
  Guarantees of the whole server, as interpretations of the locale \<open>serving\<close>: the invariant of
  all reachable states, read-only exports, and the confinement of file system calls to canonical
  paths.
\<close>

section \<open>Nodes in the handle map\<close>

definition nodes_canonical :: "FileHandleMap \<Rightarrow> bool" where
  "nodes_canonical fm \<longleftrightarrow> (\<forall>f \<in> snd ` set (handles fm). case f of NodeFile node \<Rightarrow> canonical (n_path node) | OtherFile _ \<Rightarrow> True)"

lemma set_delete_sub: "set (AList.delete k xs) \<subseteq> set xs"
  by (auto simp: AList.delete_eq)

lemma set_update_sub: "set (AList.update k v xs) \<subseteq> insert (k, v) (set xs)"
  by (induction xs) auto

lemma handles_drop_handle: "set (handles (drop_handle h f fm)) \<subseteq> set (handles fm)"
  using set_delete_sub [of h "handles fm"] by (auto simp: drop_handle_def Let_def split: absfs_file.splits)

lemma handles_evict_loop:
  assumes "evict_loop c h fm = Some fm'"
  shows "set (handles fm') \<subseteq> set (handles fm)"
proof (rule evict_loop.raw_induct [where P = "\<lambda>c h fm fm'. set (handles fm') \<subseteq> set (handles fm)", OF _ assms])
  fix loop c h fm fm'
  assume ih: "\<And>c h fm fm'. loop c h fm = Some fm' \<Longrightarrow> set (handles fm') \<subseteq> set (handles fm)"
    and run: "(if \<not> c > 0 then Some fm
      else case map_of (handles fm) h of
             Some file \<Rightarrow> loop (c - 1) (h + 1) (drop_handle h file fm)
           | None \<Rightarrow> loop c (h + 1) fm) = Some fm'"
  show "set (handles fm') \<subseteq> set (handles fm)"
  proof (cases "c > 0")
    case True
    show ?thesis
    proof (cases "map_of (handles fm) h")
      case None
      with True run show ?thesis by (intro ih [of c "h + 1"]) simp
    next
      case (Some f)
      with True run have "set (handles fm') \<subseteq> set (handles (drop_handle h f fm))"
        by (intro ih [of "c - 1" "h + 1"]) simp
      also note handles_drop_handle
      finally show ?thesis .
    qed
  qed (use run in simp)
qed

lemma handles_Allocate: "snd ` set (handles (snd (Allocate fm f))) \<subseteq> insert f (snd ` set (handles fm))"
proof (cases "Option.bind (dedup_path f) (map_of (pathHandles fm))")
  case None
  obtain h fm1 where a: "alloc_new fm f = (h, fm1)" by fastforce
  then have "handles fm1 = AList.update h f (handles fm)"
    by (auto simp: alloc_new_def Let_def split: prod.splits option.splits)
  then have "snd ` set (handles fm1) \<subseteq> insert f (snd ` set (handles fm))"
    using set_update_sub [of h f "handles fm"] by auto
  moreover have "set (handles fm2) \<subseteq> set (handles fm1)" if "evict fm1 = Some fm2" for fm2
    using that handles_evict_loop by (simp add: evict_def split: if_splits)
  then have "set (handles (case evict fm1 of Some fm' \<Rightarrow> fm' | None \<Rightarrow> fm1)) \<subseteq> set (handles fm1)"
    by (cases "evict fm1") simp_all
  ultimately show ?thesis
    using None a by (auto simp: Allocate_def)
next
  case (Some h)
  then show ?thesis
    using set_update_sub [of h f "handles fm"] by (auto simp: Allocate_def)
qed

lemma nodes_canonical_Allocate:
  assumes "nodes_canonical fm" "canonical (n_path node)"
  shows "nodes_canonical (snd (Allocate fm (NodeFile node)))"
  using handles_Allocate [of fm "NodeFile node"] assms by (force simp: nodes_canonical_def)

lemma nodes_canonical_Get:
  "nodes_canonical fm \<Longrightarrow> Get fm h = Some (NodeFile node) \<Longrightarrow> canonical (n_path node)"
  by (force simp: nodes_canonical_def Get_def dest: map_of_SomeD)

lemma canonical_sanitize:
  assumes "canonical d" "sanitizePath d name = Inr p"
  shows "canonical p"
proof -
  obtain cs where cs: "list_all good_comp cs" "d = abs_path cs" using assms(1) by (auto simp: canonical_def)
  with assms(2) sanitizePath_abs_path [OF cs(1), of name p] show ?thesis
    unfolding canonical_def by (intro exI [of _ "cs @ [name]"]) simp
qed

lemma join_slash_app: "\<exists>r. join_slash (c # cs) = c @ r"
  by (cases cs) auto

definition plain_comp :: "string \<Rightarrow> bool" where
  "plain_comp c \<longleftrightarrow> c \<noteq> [] \<and> CHR ''/'' \<notin> set c"

lemma clean_step_plain:
  assumes "CHR ''/'' \<notin> set c" "list_all plain_comp acc"
  shows "list_all plain_comp (clean_step r c acc)"
proof -
  have "plain_comp ''..''" by (simp add: plain_comp_def)
  moreover have "list_all plain_comp (butlast acc)"
    using assms(2) by (metis list_all_iff in_set_butlastD)
  ultimately show ?thesis
    using assms by (simp add: clean_step_def plain_comp_def)
qed

lemma fold_clean_plain:
  "\<forall>c \<in> set cs. CHR ''/'' \<notin> set c \<Longrightarrow> list_all plain_comp acc \<Longrightarrow>
    list_all plain_comp (fold (clean_step r) cs acc)"
  by (induction cs arbitrary: acc) (simp_all add: clean_step_plain)

lemma canonical_mount:
  assumes "strings_HasPrefix (path_Clean p) ''/''"
  shows "canonical (path_Clean p)"
proof (cases "p \<noteq> [] \<and> hd p = CHR ''/''")
  case True
  then show ?thesis by (simp add: path_Clean_canonical)
next
  case False
  let ?cs = "fold (clean_step False) (split_slash p) []"
  have plain: "list_all plain_comp ?cs"
    using split_slash_comps by (intro fold_clean_plain) simp_all
  have "\<not> strings_HasPrefix (join_slash ?cs) ''/''"
  proof (cases ?cs)
    case (Cons c cs)
    with plain obtain x xs where "c = x # xs" "x \<noteq> CHR ''/''" by (cases c) (auto simp: plain_comp_def)
    with join_slash_app [of c cs] Cons show ?thesis by (auto simp: strings_HasPrefix_def)
  qed (simp add: strings_HasPrefix_def)
  with False assms show ?thesis
    by (auto simp: path_Clean_def Let_def strings_HasPrefix_def split: if_splits)
qed

section \<open>The invariant of the server\<close>

definition server_inv :: "('fs, 'f) AbsfsNFS \<Rightarrow> bool" where
  "server_inv w \<longleftrightarrow> nodes_canonical (fileMap w) \<and> attr_cache_inv (attrCache w) \<and>
     pred_option dir_cache_inv (dirCache w)"

interpretation inv: serving server_inv canonical "\<lambda>_ _. True"
  by unfold_locales
    (auto simp: server_inv_def nodes_canonical_Allocate nodes_canonical_Get path_Join_canonical
      canonical_mount canonical_sanitize on_success_def split: sum.splits)

section \<open>Read-only exports\<close>

definition ro_at :: "('fs, 'f) FileSystem \<Rightarrow> 'fs \<Rightarrow> ('fs, 'f) AbsfsNFS \<Rightarrow> bool" where
  "ro_at o0 s0 w \<longleftrightarrow> ops w = o0 \<and> fs w = s0 \<and> p_ReadOnly (policy w)"

text \<open>Closing a file that was opened for reading leaves the file system as it is.\<close>

definition read_close_pure :: "('fs, 'f) FileSystem \<Rightarrow> bool" where
  "read_close_pure o0 \<longleftrightarrow> (\<forall>s p f. fs_OpenFile o0 s p O_RDONLY = Inr f \<longrightarrow> snd (f_Close o0 s f) = s)"

lemma ro_serving:
  assumes "read_close_pure o0"
  shows "serving (ro_at o0 s0) (\<lambda>_. True)
    (\<lambda>f flag. flag = O_RDONLY \<longrightarrow> (\<exists>p. fs_OpenFile o0 s0 p O_RDONLY = Inr f))"
  using assms by unfold_locales (auto simp: ro_at_def read_close_pure_def)

section \<open>Confinement\<close>

text \<open>\<open>I\<close> survives every call that the file system interface offers on paths in \<open>G\<close>, and what is
  done with the files opened there: writing needs a file opened for writing.\<close>

definition opened_at :: "(string \<Rightarrow> bool) \<Rightarrow> ('fs, 'f) FileSystem \<Rightarrow> 'f \<Rightarrow> open_flag \<Rightarrow> bool" where
  "opened_at G o0 f flag \<longleftrightarrow> (\<exists>s p. G p \<and>
     (fs_OpenFile o0 s p flag = Inr f \<or> flag = O_WRONLY \<and> fst (fs_Create o0 s p) = Inr f))"

definition survives :: "(string \<Rightarrow> bool) \<Rightarrow> ('fs, 'f) FileSystem \<Rightarrow> ('fs \<Rightarrow> bool) \<Rightarrow> bool" where
  "survives G o0 I \<longleftrightarrow>
     (\<forall>s p. I s \<longrightarrow> G p \<longrightarrow> I (snd (fs_Create o0 s p))) \<and>
     (\<forall>s c. I s \<longrightarrow> list_all G (call_paths c) \<longrightarrow> I (snd (fs_Do o0 s c))) \<and>
     (\<forall>s f flag. I s \<longrightarrow> opened_at G o0 f flag \<longrightarrow> I (snd (f_Close o0 s f)) \<and>
        (flag = O_WRONLY \<longrightarrow> (\<forall>data off. I (snd (f_WriteAt o0 s f data off)))))"

definition confined_at :: "('fs, 'f) FileSystem \<Rightarrow> ('fs \<Rightarrow> bool) \<Rightarrow> ('fs, 'f) AbsfsNFS \<Rightarrow> bool" where
  "confined_at o0 I w \<longleftrightarrow> ops w = o0 \<and> I (fs w) \<and> nodes_canonical (fileMap w)"

lemma confined_serving:
  assumes "survives canonical o0 I"
  shows "serving (confined_at o0 I) canonical (opened_at canonical o0)"
proof
  fix w :: "('a, 'b) AbsfsNFS" and p flag f
  assume w: "confined_at o0 I w" and p: "canonical p"
  show "fs_OpenFile (ops w) (fs w) p flag = Inr f \<Longrightarrow> opened_at canonical o0 f flag"
    using w p by (auto simp: confined_at_def opened_at_def)
  show "confined_at o0 I (w\<lparr>fs := snd (fs_Create (ops w) (fs w) p)\<rparr>) \<and>
      on_success (\<lambda>f. opened_at canonical o0 f O_WRONLY) (fst (fs_Create (ops w) (fs w) p))"
    using w p assms
    by (cases "fst (fs_Create (ops w) (fs w) p)") (auto simp: confined_at_def survives_def opened_at_def)
qed (use assms in \<open>auto simp: confined_at_def survives_def nodes_canonical_Allocate nodes_canonical_Get
    path_Join_canonical canonical_mount canonical_sanitize\<close>)

section \<open>Configuration changes\<close>

lemma cache_settings_inv:
  "attr_cache_inv c \<Longrightarrow> attr_cache_inv (AttrCache_UpdateTTL t c)"
  "attr_cache_inv c \<Longrightarrow> attr_cache_inv (ConfigureNegativeCaching b t c)"
  "attr_cache_inv c \<Longrightarrow> attr_cache_inv (AttrCache_Clear c)"
  "dir_cache_inv d \<Longrightarrow> dir_cache_inv (DirCache_UpdateTTL t d)"
  "dir_cache_inv d \<Longrightarrow> dir_cache_inv (DirCache_Clear d)"
  using lru_inv_empty(1) [of c] lru_inv_empty(1) [of d]
  by (simp_all add: attr_cache_inv_def dir_cache_inv_def AttrCache_UpdateTTL_def ConfigureNegativeCaching_def
      AttrCache_Clear_def DirCache_UpdateTTL_def DirCache_Clear_def Let_def lru_inv_def elem_of_def [abs_def])

lemma DirCache_Resize_inv:
  assumes "dir_cache_inv c"
  shows "dir_cache_inv (DirCache_Resize n c)"
proof -
  note c = assms [unfolded dir_cache_inv_view]
  define m where "m = (if n \<le> 0 then 1000 else n)"
  have m: "0 < m" by (simp add: m_def)
  have r: "DirCache_Resize n c = (if maxEntries c = m then c else shrink m (c\<lparr>maxEntries := m\<rparr>))"
    by (simp add: DirCache_Resize_def m_def)
  have "lru_inv (c\<lparr>maxEntries := m\<rparr>)" "lru_view (c\<lparr>maxEntries := m\<rparr>) = lru_view c"
    using c by (simp_all add: lru_inv_def lru_view_def elem_of_def [abs_def])
  with shrink_view [of "c\<lparr>maxEntries := m\<rparr>" m] m
  have sh: "lru_inv (shrink m (c\<lparr>maxEntries := m\<rparr>))"
    "lru_view (shrink m (c\<lparr>maxEntries := m\<rparr>)) = take (nat m) (lru_view c)"
    by auto
  have "dir_cache_inv (shrink m (c\<lparr>maxEntries := m\<rparr>))"
    unfolding dir_cache_inv_view sh(2) using sh(1) c m by (auto dest: in_set_takeD)
  with assms show ?thesis by (simp add: r)
qed

lemma applyTuningSideEffects_run:
  assumes "server_inv w"
  shows "server_inv (snd (run_state (applyTuningSideEffects a b) w))"
    and "tuning (snd (run_state (applyTuningSideEffects a b) w)) = tuning w"
    and "policy (snd (run_state (applyTuningSideEffects a b) w)) = policy w"
    and "ops (snd (run_state (applyTuningSideEffects a b) w)) = ops w"
  using assms unfolding server_inv_def applyTuningSideEffects_def run_modify Let_def
  by (cases "dirCache w"; simp add: cache_settings_inv AttrCache_Resize_view(1) DirCache_Resize_inv)+

lemma config_serving:
  "serving (\<lambda>w. tuning w = t0 \<and> policy w = p0 \<and> ops w = o0) (\<lambda>_. True) (\<lambda>_ _. True)"
  by unfold_locales (auto simp: on_success_def split: sum.splits)

text \<open>What all reachable states share: the invariant, the squash mode chosen at creation and the file
  system interface.\<close>

definition good_state :: "string \<Rightarrow> ('fs, 'f) FileSystem \<Rightarrow> ('fs, 'f) AbsfsNFS \<Rightarrow> bool" where
  "good_state squash o0 w \<longleftrightarrow> server_inv w \<and> p_Squash (policy w) = squash \<and> ops w = o0"

lemma good_HandleCall:
  assumes "good_state sq o0 w" "run_state (HandleCall dr late call body ctx) w = (r, w')"
  shows "good_state sq o0 w'"
proof -
  have "server_inv w'" using specD [OF inv.HandleCall_spec _ assms(2)] assms(1) by (simp add: good_state_def)
  moreover have "tuning w' = tuning w \<and> policy w' = policy w \<and> ops w' = ops w"
    using specD [OF serving.HandleCall_spec [OF config_serving] _ assms(2)] by simp
  ultimately show ?thesis using assms(1) by (simp add: good_state_def)
qed

lemma good_UpdateTuningOptions:
  assumes "good_state sq o0 w" "run_state (UpdateTuningOptions fn) w = (r, w')"
  shows "good_state sq o0 w'"
proof -
  let ?w = "w\<lparr>tuning := fn (tuning w)\<rparr>"
  have i: "server_inv ?w" using assms(1) by (simp add: good_state_def server_inv_def)
  have "w' = snd (run_state (applyTuningSideEffects (tuning w) (fn (tuning w))) ?w)"
    using assms(2) by (simp add: UpdateTuningOptions_def run_simps Let_def)
  then show ?thesis
    using applyTuningSideEffects_run [OF i, of "tuning w" "fn (tuning w)"] assms(1)
    by (simp add: good_state_def)
qed

lemma good_UpdatePolicyOptions:
  assumes "good_state sq o0 w" "run_state (UpdatePolicyOptions p) w = (r, w')"
  shows "good_state sq o0 w'"
  using assms
  by (auto simp: UpdatePolicyOptions_def run_simps good_state_def server_inv_def split: if_splits option.splits)

lemma good_UpdateExportOptions:
  assumes "good_state sq o0 w" "run_state (UpdateExportOptions opts) w = (r, w')"
  shows "good_state sq o0 w'"
proof -
  obtain w1 where t: "run_state (UpdateTuningOptions (merge_tuning opts)) w = ((), w1)"
    by (metis old.unit.exhaust surj_pair)
  have g: "good_state sq o0 w1"
    by (rule good_UpdateTuningOptions [OF assms(1) t])
  then show ?thesis
    using assms(2) t good_UpdatePolicyOptions [OF g]
    by (auto simp: UpdateExportOptions_def run_simps split: if_splits)
qed

lemma good_Unexport:
  assumes "good_state sq o0 w" "run_state Unexport w = (r, w')"
  shows "good_state sq o0 w'"
  using assms
  by (cases "dirCache w") (auto simp: Unexport_def run_simps good_state_def server_inv_def nodes_canonical_def
      ReleaseAll_def cache_settings_inv)

lemma good_step: "server_step w w' \<Longrightarrow> good_state sq o0 w \<Longrightarrow> good_state sq o0 w'"
  by (induction rule: server_step.induct)
    (auto intro: good_HandleCall good_UpdateTuningOptions good_UpdateExportOptions good_UpdatePolicyOptions good_Unexport)

text \<open>What each step does to the tuning options.\<close>

lemma UpdateTuningOptions_tuning:
  "run_state (UpdateTuningOptions fn) w = (r, w') \<Longrightarrow> tuning w' = fn (tuning w)"
  by (cases "dirCache w") (auto simp: UpdateTuningOptions_def applyTuningSideEffects_def run_simps Let_def)

lemma UpdatePolicyOptions_tuning: "run_state (UpdatePolicyOptions p) w = (r, w') \<Longrightarrow> tuning w' = tuning w"
  by (auto simp: UpdatePolicyOptions_def run_simps split: if_splits option.splits)

lemma merge_tuning_Timeouts: "t_Timeouts t \<noteq> None \<Longrightarrow> t_Timeouts (merge_tuning n t) \<noteq> None"
  by (auto simp: merge_tuning_def Let_def)

lemma UpdateExportOptions_Timeouts:
  assumes "run_state (UpdateExportOptions opts) w = (r, w')" "t_Timeouts (tuning w) \<noteq> None"
  shows "t_Timeouts (tuning w') \<noteq> None"
proof -
  obtain w1 where t: "run_state (UpdateTuningOptions (merge_tuning opts)) w = ((), w1)"
    by (metis old.unit.exhaust surj_pair)
  have "t_Timeouts (tuning w1) \<noteq> None"
    using UpdateTuningOptions_tuning [OF t] merge_tuning_Timeouts [OF assms(2)] by simp
  then show ?thesis
    using assms(1) t UpdatePolicyOptions_tuning [of _ w1 r w']
    by (auto simp: UpdateExportOptions_def run_simps split: if_splits)
qed

text \<open>Nothing but the function of a tuning update makes the timeouts nil.\<close>

lemma keeps_Timeouts:
  assumes "t_Timeouts (tuning w) \<noteq> None"
  shows "t_Timeouts (tuning (snd (run_state (HandleCall draining late call body authCtx) w))) \<noteq> None"
    and "t_Timeouts (tuning (snd (run_state (UpdateExportOptions newOptions) w))) \<noteq> None"
    and "t_Timeouts (tuning (snd (run_state (UpdatePolicyOptions newPolicy) w))) \<noteq> None"
    and "t_Timeouts (tuning (snd (run_state Unexport w))) \<noteq> None"
proof -
  obtain r w' where c: "run_state (HandleCall draining late call body authCtx) w = (r, w')" by fastforce
  have "tuning w' = tuning w" using specD [OF serving.HandleCall_spec [OF config_serving] _ c] by simp
  with c show "t_Timeouts (tuning (snd (run_state (HandleCall draining late call body authCtx) w))) \<noteq> None"
    using assms by simp
  show "t_Timeouts (tuning (snd (run_state (UpdateExportOptions newOptions) w))) \<noteq> None"
    by (rule UpdateExportOptions_Timeouts [OF surjective_pairing assms])
  show "t_Timeouts (tuning (snd (run_state (UpdatePolicyOptions newPolicy) w))) \<noteq> None"
    using UpdatePolicyOptions_tuning [OF surjective_pairing, of newPolicy w] assms by simp
  show "t_Timeouts (tuning (snd (run_state Unexport w))) \<noteq> None"
    using assms by (cases "dirCache w") (simp_all add: Unexport_def run_simps)
qed

lemma good_New:
  assumes "New o_fs s ncpu clk verf newLogger options = Inr w"
  shows "good_state (o_Squash options) o_fs w"
  using assms
  by (auto simp: New_def Let_def good_state_def server_inv_def nodes_canonical_def newFileMap_def
      cache_settings_inv NewAttrCache_inv NewDirCache_inv tuningFromExportOptions_def
      policyFromExportOptions_def option_defaults_def split: if_splits option.splits sum.splits)

lemma New_Timeouts: "New o_fs s ncpu clk verf newLogger options = Inr w \<Longrightarrow> t_Timeouts (tuning w) \<noteq> None"
  by (auto simp: New_def Let_def tuningFromExportOptions_def option_defaults_def split: if_splits option.splits sum.splits)

end
