(* ===== verification/MemFS.thy ===== *)
theory MemFS
  imports Guarantees
begin

text \<open>
  A small file system in memory, at which the theorems about the server are applied to concrete
  calls.  It is not part of the modelled program: it shows that what the theorems assume of a file
  system can be met, and it lets procedures run on concrete inputs.
\<close>

section \<open>Files in an association list\<close>

datatype mem_node =
    MemFile (mem_bytes: bytes) (mem_perm: u32) (mem_mtime: time)
  | MemDir (mem_perm: u32) (mem_mtime: time)
  | MemLink (mem_target: string) (mem_mtime: time)

type_synonym memfs = "(string \<times> mem_node) list"

fun mem_info :: "string \<Rightarrow> mem_node \<Rightarrow> FileInfo" where
  "mem_info p (MemFile data perm t) =
     \<lparr>fi_Name = path_Base p, fi_Size = int (length data), fi_Mode = perm, fi_ModTime = t\<rparr>"
| "mem_info p (MemDir perm t) =
     \<lparr>fi_Name = path_Base p, fi_Size = 0, fi_Mode = perm OR os_ModeDir, fi_ModTime = t\<rparr>"
| "mem_info p (MemLink target t) =
     \<lparr>fi_Name = path_Base p, fi_Size = int (length target), fi_Mode = 511 OR os_ModeSymlink, fi_ModTime = t\<rparr>"

definition mem_Lstat :: "memfs \<Rightarrow> string \<Rightarrow> FileInfo result" where
  "mem_Lstat s p = (case map_of s p of
     None \<Rightarrow> Inl (PathErr ''lstat'' p ErrNotExist)
   | Some n \<Rightarrow> Inr (mem_info p n))"

definition mem_parent :: "string \<Rightarrow> string" where
  "mem_parent p =
     (let d = rev (dropWhile (\<lambda>c. c \<noteq> CHR ''/'') (rev p)) in if d = ''/'' then d else butlast d)"

definition in_dir :: "memfs \<Rightarrow> string \<Rightarrow> bool" where
  "in_dir s p = (case map_of s (mem_parent p) of Some (MemDir _ _) \<Rightarrow> True | _ \<Rightarrow> False)"

definition mem_children :: "memfs \<Rightarrow> string \<Rightarrow> memfs" where
  "mem_children s d = filter (\<lambda>(p, n). p \<noteq> d \<and> mem_parent p = d) s"

fun splice :: "bytes \<Rightarrow> nat \<Rightarrow> bytes \<Rightarrow> bytes" where
  "splice old off data =
     take off old @ replicate (off - length old) 0 @ data @ drop (off + length data) old"

definition mem_WriteAt :: "memfs \<Rightarrow> string \<Rightarrow> bytes \<Rightarrow> int \<Rightarrow> (int \<times> goerr option) \<times> memfs" where
  "mem_WriteAt s p data off = (case map_of s p of
     Some (MemFile old perm t) \<Rightarrow>
       ((int (length data), None), AList.update p (MemFile (splice old (nat off) data) perm t) s)
   | _ \<Rightarrow> ((0, Some (PathErr ''write'' p ErrInvalid)), s))"

definition mem_Create :: "memfs \<Rightarrow> string \<Rightarrow> string result \<times> memfs" where
  "mem_Create s p =
     (if in_dir s p then (Inr p, AList.update p (MemFile [] 438 0) s)
      else (Inl (PathErr ''create'' p ErrNotExist), s))"

text \<open>Changing an entry that must exist, and adding one that must not.\<close>

definition mem_change :: "memfs \<Rightarrow> string \<Rightarrow> (mem_node \<Rightarrow> mem_node) \<Rightarrow> goerr option \<times> memfs" where
  "mem_change s p f = (case map_of s p of
     None \<Rightarrow> (Some (PathErr ''change'' p ErrNotExist), s)
   | Some n \<Rightarrow> (None, AList.update p (f n) s))"

definition mem_add :: "memfs \<Rightarrow> string \<Rightarrow> mem_node \<Rightarrow> goerr option \<times> memfs" where
  "mem_add s p n =
     (if map_of s p \<noteq> None then (Some (PathErr ''add'' p ErrExist), s)
      else if in_dir s p then (None, AList.update p n s)
      else (Some (PathErr ''add'' p ErrNotExist), s))"

fun set_perm :: "u32 \<Rightarrow> mem_node \<Rightarrow> mem_node" where
  "set_perm m (MemFile d _ t) = MemFile d m t"
| "set_perm m (MemDir _ t) = MemDir m t"
| "set_perm m n = n"

fun set_mtime :: "time \<Rightarrow> mem_node \<Rightarrow> mem_node" where
  "set_mtime t (MemFile d m _) = MemFile d m t"
| "set_mtime t (MemDir m _) = MemDir m t"
| "set_mtime t (MemLink l _) = MemLink l t"

fun set_size :: "nat \<Rightarrow> mem_node \<Rightarrow> mem_node" where
  "set_size k (MemFile d m t) = MemFile (take k d @ replicate (k - length d) 0) m t"
| "set_size k n = n"

fun mem_Do :: "memfs \<Rightarrow> fs_call \<Rightarrow> goerr option \<times> memfs" where
  "mem_Do s (Remove_call p) =
     (if map_of s p = None then (Some (PathErr ''remove'' p ErrNotExist), s)
      else if mem_children s p \<noteq> [] then (Some (PathErr ''remove'' p (Sys ENOTEMPTY)), s)
      else (None, AList.delete p s))"
| "mem_Do s (Rename_call p q) = (case map_of s p of
     None \<Rightarrow> (Some (PathErr ''rename'' p ErrNotExist), s)
   | Some n \<Rightarrow> (None, AList.update q n (AList.delete p s)))"
| "mem_Do s (Mkdir_call p m) = mem_add s p (MemDir m 0)"
| "mem_Do s (Symlink_call t p) = mem_add s p (MemLink t 0)"
| "mem_Do s (Chmod_call p m) = mem_change s p (set_perm m)"
| "mem_Do s (Chown_call p u g) = mem_change s p id"
| "mem_Do s (Lchown_call p u g) = mem_change s p id"
| "mem_Do s (Chtimes_call p a m) = mem_change s p (set_mtime m)"
| "mem_Do s (Truncate_call p k) = mem_change s p (set_size (nat k))"

text \<open>Open files are named by their path; symbolic links are not followed.\<close>

definition mem_ops :: "(memfs, string) FileSystem" where
  "mem_ops =
     \<lparr>fs_Lstat = mem_Lstat, fs_Stat = mem_Lstat,
      fs_Readlink = (\<lambda>s p. case map_of s p of
          Some (MemLink t _) \<Rightarrow> Inr t | _ \<Rightarrow> Inl (PathErr ''readlink'' p ErrInvalid)),
      fs_OpenFile = (\<lambda>s p flag. case map_of s p of
          None \<Rightarrow> Inl (PathErr ''open'' p ErrNotExist) | Some _ \<Rightarrow> Inr p),
      f_Stat = mem_Lstat,
      f_ReadAt = (\<lambda>s p n off. case map_of s p of
          Some (MemFile d _ _) \<Rightarrow>
            (take n (drop (nat off) d), if length (drop (nat off) d) < n then Some EOF else None)
        | _ \<Rightarrow> ([], Some (PathErr ''read'' p ErrInvalid))),
      f_Readdir = (\<lambda>s p. Inr (map (\<lambda>(q, n). mem_info q n) (mem_children s p))),
      f_WriteAt = mem_WriteAt,
      f_Close = (\<lambda>s p. (None, s)),
      fs_Create = mem_Create,
      fs_Do = mem_Do\<rparr>"

section \<open>A sample server\<close>

definition sample_fs :: memfs where
  "sample_fs =
     [(''/'', MemDir 493 5), (''/a'', MemFile [104, 101, 108, 108, 111] 420 7),
      (''/d'', MemDir 493 6), (''/d/x'', MemFile [1, 2] 384 8)]"

definition sample_clock :: "nat \<Rightarrow> time" where
  "sample_clock n = 1000 + int n"

definition sample_server :: "ExportOptions \<Rightarrow> (memfs, string) AbsfsNFS" where
  "sample_server opts =
     (case New mem_ops sample_fs 4 sample_clock [1, 2, 3, 4, 5, 6, 7, 8] (\<lambda>_. None) opts of
        Inr w \<Rightarrow> w
      | Inl _ \<Rightarrow> undefined)"

definition mem_call :: "u32 \<Rightarrow> u32 \<Rightarrow> RPCCall" where
  "mem_call prog proc =
     \<lparr>call_Header = \<lparr>Xid = 9, MsgType = 0, RPCVersion = 2, Program = prog, Version = 3, Procedure = proc\<rparr>,
      Credential = \<lparr>cred_Flavor = 1, cred_Body = []\<rparr>, Verifier = \<lparr>verf_Flavor = 0, verf_Body = []\<rparr>\<rparr>"

section \<open>What the theorems assume of a file system holds here\<close>

lemma mem_read_close_pure: "read_close_pure mem_ops"
  by (simp add: read_close_pure_def mem_ops_def)

lemma canonical_slash: "canonical p \<Longrightarrow> \<exists>q. p = CHR ''/'' # q"
  by (auto simp: canonical_def abs_path_def)

text \<open>An entry outside the paths that are acted on stays as it is.\<close>

lemma mem_survives:
  assumes "\<not> G q"
  shows "survives G mem_ops (\<lambda>s. map_of s q = v)"
proof -
  have ch: "G p \<Longrightarrow> map_of (snd (mem_change s p f)) q = map_of s q" for s p f
    using assms by (auto simp: mem_change_def update_conv split: option.splits)
  have ad: "G p \<Longrightarrow> map_of (snd (mem_add s p n)) q = map_of s q" for s p n
    using assms by (auto simp: mem_add_def update_conv)
  have "list_all G (call_paths c) \<Longrightarrow> map_of (snd (mem_Do s c)) q = map_of s q" for s c
    using assms by (cases c) (auto simp: ch ad update_conv delete_conv split: option.splits)
  moreover have "G f" if "opened_at G mem_ops f flag" for f flag
    using that by (auto simp: opened_at_def mem_ops_def mem_Create_def split: if_splits option.splits)
  ultimately show ?thesis
    using assms by (auto simp: survives_def mem_ops_def mem_Create_def mem_WriteAt_def update_conv
        split: option.splits mem_node.splits)
qed

end
