(* ===== verification/ServerTheorems.thy ===== *)
theory ServerTheorems
  imports MemFS
begin

text \<open>
  The theorems about the whole server: its reachable states, read-only exports, confinement, and
  the calls it refuses.
\<close>

section \<open>Reachable states\<close>

text \<open>
  C1: Every state that clients and administrators can bring a server to, from its creation on,
  satisfies the invariant: the paths of all nodes behind handles are canonical, both caches are
  well formed and within their limits, and squash mode and file system are those the server was
  created with.  \<open>New\<close> sets the timeouts that the operations dereference without a check, and in every
  such state in which they are set, a client's call, an update of the export options or of the
  policy and an unexport leave them set: only the function of a call of \<open>UpdateTuningOptions\<close> can
  make them nil.
\<close>

theorem reachable_states_good:
  assumes "New o_fs s ncpu clk verf newLogger options = Inr w0" and "reachable w0 w"
  shows "server_inv w \<and> p_Squash (policy w) = o_Squash options \<and> ops w = o_fs \<and> t_Timeouts (tuning w0) \<noteq> None \<and>
    (t_Timeouts (tuning w) \<noteq> None \<longrightarrow>
      t_Timeouts (tuning (snd (run_state (HandleCall draining late call body authCtx) w))) \<noteq> None \<and>
      t_Timeouts (tuning (snd (run_state (UpdateExportOptions newOptions) w))) \<noteq> None \<and>
      t_Timeouts (tuning (snd (run_state (UpdatePolicyOptions newPolicy) w))) \<noteq> None \<and>
      t_Timeouts (tuning (snd (run_state Unexport w))) \<noteq> None)"
proof -
  from assms(2) have "good_state (o_Squash options) o_fs w"
    by (induction rule: reachable.induct) (auto intro: good_New [OF assms(1)] good_step)
  with New_Timeouts [OF assms(1)] keeps_Timeouts [of w] show ?thesis by (simp add: good_state_def)
qed

lemma sample_New:
  assumes "o_Squash opts = ''none''" and "o_Log opts = None"
  shows "New mem_ops sample_fs 4 sample_clock [1, 2, 3, 4, 5, 6, 7, 8] (\<lambda>_. None) opts = Inr (sample_server opts)"
proof -
  have "valid_squash ''none''" by code_simp
  moreover have "fs_Stat mem_ops sample_fs ''/'' = Inr (mem_info ''/'' (MemDir 493 5))"
    by (simp add: mem_ops_def mem_Lstat_def sample_fs_def)
  ultimately show ?thesis
    using assms by (simp add: sample_server_def New_def Let_def option_defaults_def)
qed

lemma sample_settings: "o_Squash sample_options = ''none''" "o_Log sample_options = None"
  by (simp_all add: sample_options_def)

lemmas sample_good = good_New [OF sample_New, unfolded good_state_def server_inv_def]

text \<open>A state after a call, in which the timeouts are set, and one in which they were cleared.\<close>

theorem reachable_states_good_witness:
  "(\<exists>w. reachable (sample_server sample_options) w \<and> w \<noteq> sample_server sample_options \<and> server_inv w \<and>
     t_Timeouts (tuning (snd (run_state (UpdateExportOptions sample_options) w))) \<noteq> None) \<and>
   (\<exists>w. reachable (sample_server sample_options) w \<and> server_inv w \<and> t_Timeouts (tuning w) = None)"
proof (intro conjI)
  note good = reachable_states_good [OF sample_New [OF sample_settings]]
  let ?s = "sample_server sample_options"
  let ?w = "snd (run_state (HandleCall False False (mem_call 100005 1) (xdrEncodeString ''/'') sample_ctx) ?s)"
  have r: "reachable ?s ?w"
    by (rule reachable.step [OF reachable.start server_step.call [OF New_Timeouts [OF sample_New [OF sample_settings]]]])
      (rule surjective_pairing)
  have "tick ?w \<noteq> tick ?s" by code_simp
  then have "?w \<noteq> ?s" by metis
  moreover have "t_Timeouts (tuning ?w) \<noteq> None" using good [OF reachable.start] by blast
  ultimately show "\<exists>w. reachable ?s w \<and> w \<noteq> ?s \<and> server_inv w \<and>
      t_Timeouts (tuning (snd (run_state (UpdateExportOptions sample_options) w))) \<noteq> None"
    using r good [OF r] by blast
  let ?c = "snd (run_state (UpdateTuningOptions (\<lambda>t. t\<lparr>t_Timeouts := None\<rparr>)) ?s)"
  have c: "reachable ?s ?c"
    by (rule reachable.step [OF reachable.start server_step.tuning]) (rule surjective_pairing)
  have "t_Timeouts (tuning ?c) = None"
    by (subst UpdateTuningOptions_tuning [OF surjective_pairing]) simp
  with c good [OF c] show "\<exists>w. reachable ?s w \<and> server_inv w \<and> t_Timeouts (tuning w) = None" by blast
qed

section \<open>Read-only exports\<close>

text \<open>A client's requests, answered one after the other.\<close>

type_synonym request = "bool \<times> bool \<times> RPCCall \<times> bytes \<times> AuthContext"

primrec serve :: "request list \<Rightarrow> ('fs, 'f, RPCReply result list) op" where
  "serve [] = State_Monad.return []"
| "serve (rq # rqs) = do {
     r \<leftarrow> (case rq of (draining, late, call, body, ctx) \<Rightarrow> HandleCall draining late call body ctx);
     rs \<leftarrow> serve rqs;
     State_Monad.return (r # rs) }"

lemma serve_spec:
  assumes "\<And>dr late call body ctx. spec P (HandleCall dr late call body ctx) (\<lambda>_. True)"
  shows "spec P (serve rqs) (\<lambda>_. True)"
proof (induction rqs)
  case (Cons rq rqs)
  have "spec P (case rq of (dr, late, call, body, ctx) \<Rightarrow> HandleCall dr late call body ctx) (\<lambda>_. True)"
    by (cases rq) (simp add: assms)
  then show ?case
    unfolding serve.simps by (intro spec_bind [OF _ spec_bind [OF Cons.IH spec_return]] TrueI)
qed (simp add: spec_return)

text \<open>
  C2: A read-only export is read-only.  Whatever calls clients send, in any number and order, well
  formed or not, the exported file system is afterwards in the state it was in before, as long as
  closing a file that was opened for reading changes nothing; and the export is still read-only.
\<close>

theorem read_only_export:
  assumes "p_ReadOnly (policy w)" and "read_close_pure (ops w)" and "run_state (serve rqs) w = (rs, w')"
  shows "fs w' = fs w \<and> p_ReadOnly (policy w')"
  using specD [OF serve_spec [OF serving.HandleCall_spec [OF ro_serving [OF assms(2), of "fs w"]]] _ assms(3)]
    assms(1) by (simp add: ro_at_def)

definition sample_requests :: "request list" where
  "sample_requests =
     [(False, False, mem_call 100005 1, xdrEncodeString ''/'', sample_ctx),
      (False, False, mem_call 100003 12, xdrEncodeFileHandle 1 @ xdrEncodeString ''a'', sample_ctx)]"

theorem read_only_export_witness:
  "fs (snd (run_state (serve sample_requests) (sample_server (sample_options\<lparr>o_ReadOnly := True\<rparr>)))) = sample_fs"
proof -
  let ?w = "sample_server (sample_options\<lparr>o_ReadOnly := True\<rparr>)"
  have "p_ReadOnly (policy ?w)" "fs ?w = sample_fs" by code_simp+
  moreover have "ops ?w = mem_ops" using sample_good [of "sample_options\<lparr>o_ReadOnly := True\<rparr>"] sample_settings by simp
  ultimately show ?thesis
    using read_only_export [of ?w sample_requests, OF _ _ surjective_pairing] mem_read_close_pure by simp
qed

section \<open>Confinement\<close>

text \<open>
  C3: Clients cannot leave the export.  Take any property of the file system that no call on a
  canonical path (absolute, without dot or dot-dot components, without doubled slashes) can
  destroy, nor closing a file opened at such a path, nor writing to one opened there for writing: no sequence of client requests
  to a server whose handles are for canonical paths destroys it.
\<close>

theorem clients_confined:
  assumes "nodes_canonical (fileMap w)" and "survives canonical (ops w) I" and "I (fs w)"
    and "run_state (serve rqs) w = (rs, w')"
  shows "I (fs w') \<and> nodes_canonical (fileMap w')"
  using specD [OF serve_spec [OF serving.HandleCall_spec [OF confined_serving [OF assms(2)]]] _ assms(4)]
    assms(1,3) by (simp add: confined_at_def)

theorem clients_confined_witness:
  "map_of (fs (snd (run_state (serve sample_requests) (sample_server sample_options)))) ''../secret'' = None"
proof -
  let ?w = "sample_server sample_options"
  have nc: "\<not> canonical ''../secret''" using canonical_slash [of "''../secret''"] by auto
  have "nodes_canonical (fileMap ?w)" "ops ?w = mem_ops"
    using sample_good [OF sample_settings] by simp_all
  moreover have "map_of (fs ?w) ''../secret'' = None" by code_simp
  ultimately show ?thesis
    using clients_confined [of ?w "\<lambda>s. map_of s ''../secret'' = None" sample_requests, OF _ _ _ surjective_pairing]
      mem_survives [of canonical, OF nc] by simp
qed

end
