(* ===== verification/RecordMarking.thy ===== *)
theory RecordMarking
  imports XDR
begin

text \<open>
  Record marking over TCP (\<open>rpc_transport.go\<close>).  The underlying \<open>io.Reader\<close> is the list of bytes
  still to come and the \<open>io.Writer\<close> the list of bytes written.  Reading always ends, because every
  turn of the loop consumes a four byte header.  Writing loops forever for a writer whose
  fragment size is not positive; the loop is a partial function and the constructors are proved to
  build only writers for which it returns.
\<close>

abbreviation (input) LastFragmentFlag :: u32 where "LastFragmentFlag \<equiv> 0x80000000"
abbreviation (input) MaxFragmentSize :: int where "MaxFragmentSize \<equiv> 0x7FFFFFFF"
abbreviation (input) DefaultMaxFragmentSize :: int where "DefaultMaxFragmentSize \<equiv> 1048576"
abbreviation (input) DefaultMaxRecordSize :: int where "DefaultMaxRecordSize \<equiv> 1048576"

section \<open>Reading\<close>

record RecordMarkingReader =
  rm_r :: bytes
  fragmentBuf :: bytes
  lastFragment :: bool
  complete :: bool
  MaxRecordSize :: int

definition NewRecordMarkingReader :: "bytes \<Rightarrow> RecordMarkingReader" where
  "NewRecordMarkingReader r = \<lparr>rm_r = r, fragmentBuf = [], lastFragment = False, complete = False,
     MaxRecordSize = DefaultMaxRecordSize\<rparr>"

lemma xdrDecodeUint32_shorter: "(Inr v, rest) = xdrDecodeUint32 bs \<Longrightarrow> length rest < length bs"
  using xdrDecodeUint32_Inr_length [of bs v rest] by simp

lemma rd_full_shorter: "(Inr xs, rest) = rd_full n bs \<Longrightarrow> length rest \<le> length bs"
  using rd_full_Inr [of n bs xs rest] by auto

function ReadRecord_loop ::
    "int \<Rightarrow> RecordMarkingReader \<Rightarrow> bytes result \<times> RecordMarkingReader" where
  "ReadRecord_loop maxSize rm =
     (if complete rm then (Inr (fragmentBuf rm), rm)
      else
        (case xdrDecodeUint32 (rm_r rm) of
           (Inl e, s) \<Rightarrow> (Inl (Wrap ''failed to read fragment header'' e), rm\<lparr>rm_r := s\<rparr>)
         | (Inr header, s) \<Rightarrow>
             let last = (header AND LastFragmentFlag \<noteq> 0);
                 fragmentLen = header AND NOT LastFragmentFlag;
                 rm = rm\<lparr>rm_r := s, lastFragment := last\<rparr>
             in if uint fragmentLen > MaxFragmentSize
                then (Inl (ErrText ''fragment length exceeds maximum''), rm)
                else if int (length (fragmentBuf rm)) + uint fragmentLen > maxSize
                then (Inl (ErrText ''record size exceeds maximum''), rm)
                else if fragmentLen > 0 then
                  (case rd_full (unat fragmentLen) (rm_r rm) of
                     (Inl e, s) \<Rightarrow> (Inl (Wrap ''failed to read fragment data'' e), rm\<lparr>rm_r := s\<rparr>)
                   | (Inr fragment, s) \<Rightarrow>
                       ReadRecord_loop maxSize
                         (rm\<lparr>rm_r := s, fragmentBuf := fragmentBuf rm @ fragment,
                             complete := last\<rparr>))
                else ReadRecord_loop maxSize (rm\<lparr>complete := last\<rparr>)))"
  by pat_completeness auto
termination
  by (relation "measure (\<lambda>(_, rm). length (rm_r rm))")
    (auto dest!: xdrDecodeUint32_shorter rd_full_shorter)

declare ReadRecord_loop.simps [simp del]

definition ReadRecord :: "RecordMarkingReader \<Rightarrow> bytes result \<times> RecordMarkingReader" where
  "ReadRecord rm =
     (let rm = rm\<lparr>fragmentBuf := [], complete := False\<rparr>;
          maxSize = (if MaxRecordSize rm \<le> 0 then DefaultMaxRecordSize else MaxRecordSize rm)
      in ReadRecord_loop maxSize rm)"

section \<open>Writing\<close>

record RecordMarkingWriter =
  maxFragment :: int

definition NewRecordMarkingWriter :: RecordMarkingWriter where
  "NewRecordMarkingWriter = \<lparr>maxFragment = DefaultMaxFragmentSize\<rparr>"

definition NewRecordMarkingWriterWithSize :: "int \<Rightarrow> RecordMarkingWriter" where
  "NewRecordMarkingWriterWithSize mf =
     (let mf = (if mf \<le> 0 \<or> mf > MaxFragmentSize then DefaultMaxFragmentSize else mf)
      in \<lparr>maxFragment = mf\<rparr>)"

text \<open>
  The loop of \<open>WriteRecord\<close> on \<open>data[offset:]\<close>: \<open>None\<close> is a run that never returns (fragment size
  zero) or panics (negative fragment size).
\<close>

partial_function (option) WriteRecord_loop :: "int \<Rightarrow> bytes \<Rightarrow> bytes option" where
  "WriteRecord_loop mf data =
     (let remaining = int (length data)
      in if \<not> remaining > 0 then Some []
         else
           let fragmentLen = (if remaining > mf then mf else remaining);
               header = word_of_int fragmentLen;
               header = (if remaining = fragmentLen then header OR LastFragmentFlag else header)
           in if fragmentLen < 0 then None
              else Option.bind (WriteRecord_loop mf (drop (nat fragmentLen) data))
                     (\<lambda>more. Some (be32 header @ take (nat fragmentLen) data @ more)))"

definition WriteRecord :: "RecordMarkingWriter \<Rightarrow> bytes \<Rightarrow> bytes option" where
  "WriteRecord w data =
     (if length data = 0 then Some (be32 (0 OR LastFragmentFlag))
      else WriteRecord_loop (maxFragment w) data)"

section \<open>Framing\<close>

text \<open>A record as its list of fragments (RFC 1831 section 10), the last one flagged.\<close>

fun frame :: "bytes list \<Rightarrow> bytes" where
  "frame [] = []"
| "frame [f] = be32 (of_nat (length f) OR LastFragmentFlag) @ f"
| "frame (f # g # fs) = be32 (of_nat (length f)) @ f @ frame (g # fs)"

lemma LastFragmentFlag_eq: "LastFragmentFlag = 2 ^ 31"
  by simp

lemma fragment_header_flag:
  assumes "n < 2 ^ 31"
  shows "(of_nat n OR LastFragmentFlag) AND LastFragmentFlag \<noteq> (0 :: u32)"
    and "(of_nat n OR LastFragmentFlag) AND NOT LastFragmentFlag = (of_nat n :: u32)"
    and "of_nat n AND LastFragmentFlag = (0 :: u32)"
    and "of_nat n AND NOT LastFragmentFlag = (of_nat n :: u32)"
proof -
  have b: "\<not> bit (of_nat n :: u32) 31"
    using assms by (simp add: bit_of_nat_iff bit_iff_odd [of n])
  have l: "bit LastFragmentFlag i \<longleftrightarrow> i = 31" for i
    unfolding LastFragmentFlag_eq by (simp only: bit_exp_iff) auto
  have li: "bit (2147483648 :: int) i \<longleftrightarrow> i = 31" for i
    using bit_exp_iff [where ?'a = int, of 31 i] by simp
  show "of_nat n AND LastFragmentFlag = (0 :: u32)"
    by (rule bit_eqI) (use b in \<open>auto simp: bit_simps l li\<close>)
  show "of_nat n AND NOT LastFragmentFlag = (of_nat n :: u32)"
    by (rule bit_eqI) (use b in \<open>auto simp: bit_simps l li\<close>)
  show "(of_nat n OR LastFragmentFlag) AND NOT LastFragmentFlag = (of_nat n :: u32)"
    by (rule bit_eqI) (use b in \<open>auto simp: bit_simps l li\<close>)
  have "bit ((of_nat n OR LastFragmentFlag) AND LastFragmentFlag :: u32) 31"
    by (simp add: bit_simps l)
  then show "(of_nat n OR LastFragmentFlag) AND LastFragmentFlag \<noteq> (0 :: u32)"
    by (metis bit_0_eq bot_apply bot_bool_def)
qed

lemma ReadRecord_loop_complete [simp]:
  "complete rm \<Longrightarrow> ReadRecord_loop m rm = (Inr (fragmentBuf rm), rm)"
  by (subst ReadRecord_loop.simps) simp

lemma ReadRecord_loop_fragment:
  fixes h :: u32
  assumes "\<not> complete rm" and "rm_r rm = be32 h @ f @ rest"
    and "length f < 2 ^ 31" and "int (length (fragmentBuf rm) + length f) \<le> m"
    and "h AND NOT LastFragmentFlag = of_nat (length f)"
  shows "ReadRecord_loop m rm = ReadRecord_loop m
    (rm\<lparr>rm_r := rest, fragmentBuf := fragmentBuf rm @ f, lastFragment := (h AND LastFragmentFlag \<noteq> 0),
        complete := (h AND LastFragmentFlag \<noteq> 0)\<rparr>)"
proof -
  have dec: "xdrDecodeUint32 (rm_r rm) = (Inr h, f @ rest)"
    using xdrDecodeUint32_app [of h "f @ rest"] assms(2) by (simp add: xdrEncodeUint32_def)
  have u: "unat (of_nat (length f) :: u32) = length f" "uint (of_nat (length f) :: u32) = int (length f)"
    using assms(3) by (simp_all add: unat_of_nat uint_nat)
  have rd: "rd_full (length f) (f @ rest) = (Inr f, rest)" by (simp add: rd_full_append)
  have z: "(of_nat (length f) :: u32) = 0 \<longleftrightarrow> f = []"
    using u(1) by (cases "f = []") (auto simp: unsigned_eq_0_iff [symmetric])
  have c: "\<not> MaxFragmentSize < int (length f)" "\<not> m < int (length (fragmentBuf rm)) + int (length f)"
    using assms(3,4) by auto
  show ?thesis
  proof (cases "f = []")
    case True
    with dec c assms(1) show ?thesis
      by (subst ReadRecord_loop.simps) (simp add: assms(5) [simplified] Let_def)
  next
    case False
    have upd: "rm\<lparr>lastFragment := a, rm_r := b, fragmentBuf := c, complete := d\<rparr> =
        rm\<lparr>rm_r := b, fragmentBuf := c, lastFragment := a, complete := d\<rparr>" for a b c d
      by (cases rm) simp
    from False dec c assms(1) z show ?thesis
      by (subst ReadRecord_loop.simps) (simp add: assms(5) [simplified] u rd Let_def word_gt_0 upd)
  qed
qed


lemma ReadRecord_loop_frame:
  assumes "fs \<noteq> []" and "\<not> complete rm" and "rm_r rm = frame fs @ rest"
    and "\<forall>f \<in> set fs. length f < 2 ^ 31"
    and "int (length (fragmentBuf rm) + length (concat fs)) \<le> m"
  shows "ReadRecord_loop m rm =
    (Inr (fragmentBuf rm @ concat fs),
     rm\<lparr>rm_r := rest, fragmentBuf := fragmentBuf rm @ concat fs, lastFragment := True,
         complete := True\<rparr>)"
  using assms
proof (induction fs arbitrary: rm rule: frame.induct)
  case (2 f)
  then have h: "length f < 2 ^ 31" by simp
  have "ReadRecord_loop m rm = ReadRecord_loop m
    (rm\<lparr>rm_r := rest, fragmentBuf := fragmentBuf rm @ f, lastFragment := True, complete := True\<rparr>)"
    using ReadRecord_loop_fragment [of rm "of_nat (length f) OR LastFragmentFlag" f rest m]
      2 fragment_header_flag(1,2) [OF h] by simp
  then show ?case by simp
next
  case (3 f g fs)
  then have h: "length f < 2 ^ 31" by simp
  let ?rm = "rm\<lparr>rm_r := frame (g # fs) @ rest, fragmentBuf := fragmentBuf rm @ f,
    lastFragment := False, complete := False\<rparr>"
  have "ReadRecord_loop m rm = ReadRecord_loop m ?rm"
    using ReadRecord_loop_fragment [of rm "of_nat (length f)" f "frame (g # fs) @ rest" m]
      3 fragment_header_flag(3,4) [OF h] by simp
  also have "\<dots> = (Inr (fragmentBuf ?rm @ concat (g # fs)),
     ?rm\<lparr>rm_r := rest, fragmentBuf := fragmentBuf ?rm @ concat (g # fs), lastFragment := True,
         complete := True\<rparr>)"
    using 3 by (intro "3.IH") auto
  finally show ?case by (cases rm) simp
qed simp

text \<open>The writer's chunks.\<close>

function chunks :: "nat \<Rightarrow> bytes \<Rightarrow> bytes list" where
  "chunks n data = (if n = 0 \<or> length data \<le> n then [data] else take n data # chunks n (drop n data))"
  by pat_completeness auto
termination by (relation "measure (\<lambda>(n, data). length data)") auto

declare chunks.simps [simp del]

lemma concat_chunks [simp]: "concat (chunks n data) = data"
  by (induction n data rule: chunks.induct) (subst chunks.simps, auto)

lemma chunks_not_Nil [simp]: "chunks n data \<noteq> []"
  by (subst chunks.simps) simp

lemma chunks_bound: "0 < n \<Longrightarrow> f \<in> set (chunks n data) \<Longrightarrow> length f \<le> n"
proof (induction n data rule: chunks.induct)
  case (1 n data)
  from "1.prems"(2) have "f \<in> set (if n = 0 \<or> length data \<le> n then [data]
      else take n data # chunks n (drop n data))"
    by (subst (asm) chunks.simps)
  with "1.prems"(1) "1.IH" show ?case by (auto split: if_splits)
qed

lemma WriteRecord_loop_frame:
  assumes "0 < n" and "data \<noteq> []"
  shows "WriteRecord_loop (int n) data = Some (frame (chunks n data))"
  using assms
proof (induction n data rule: chunks.induct)
  case (1 n data)
  show ?case
  proof (cases "length data \<le> n")
    case True
    have "WriteRecord_loop (int n) [] = Some []"
      by (subst WriteRecord_loop.simps) simp
    with True 1 show ?thesis
      by (subst WriteRecord_loop.simps, subst chunks.simps) (simp add: Let_def)
  next
    case False
    then obtain g gs where c: "chunks n (drop n data) = g # gs"
      by (cases "chunks n (drop n data)") auto
    from False 1 have "WriteRecord_loop (int n) (drop n data) = Some (frame (g # gs))"
      by (simp add: c)
    with False 1 c show ?thesis
      by (subst WriteRecord_loop.simps, subst chunks.simps) (simp add: Let_def)
  qed
qed

lemma WriteRecord_frame:
  assumes "0 < maxFragment w"
  shows "WriteRecord w data = Some (frame (chunks (nat (maxFragment w)) data))"
proof (cases "data = []")
  case True
  then show ?thesis by (simp add: WriteRecord_def chunks.simps [of _ "[]"])
next
  case False
  with assms WriteRecord_loop_frame [of "nat (maxFragment w)" data] show ?thesis
    by (simp add: WriteRecord_def)
qed

lemma ReadRecord_WriteRecord:
  assumes "w = NewRecordMarkingWriterWithSize mf"
    and "int (length data) \<le> (if MaxRecordSize rm \<le> 0 then DefaultMaxRecordSize else MaxRecordSize rm)"
  shows "\<exists>wire. WriteRecord w data = Some wire \<and>
    (\<forall>rest. \<exists>rm'. ReadRecord (rm\<lparr>rm_r := wire @ rest\<rparr>) = (Inr data, rm') \<and> rm_r rm' = rest)"
proof -
  have mf: "0 < maxFragment w" "maxFragment w < 2 ^ 31"
    using assms(1) by (auto simp: NewRecordMarkingWriterWithSize_def Let_def)
  let ?fs = "chunks (nat (maxFragment w)) data"
  have small: "\<forall>f \<in> set ?fs. length f < 2 ^ 31"
    using chunks_bound [of "nat (maxFragment w)" _ data] mf by force
  have "\<exists>rm'. ReadRecord (rm\<lparr>rm_r := frame ?fs @ rest\<rparr>) = (Inr data, rm') \<and> rm_r rm' = rest" for rest
    unfolding ReadRecord_def Let_def
    by (subst ReadRecord_loop_frame [where fs = ?fs and rest = rest]) (use small assms(2) in auto)
  with WriteRecord_frame [OF mf(1), of data] show ?thesis by blast
qed

text \<open>A record is never longer than the limit, and reading never consumes bytes beyond it on success.\<close>

lemma ReadRecord_loop_bound:
  "ReadRecord_loop m rm = (Inr d, rm') \<Longrightarrow> int (length (fragmentBuf rm)) \<le> m \<Longrightarrow> int (length d) \<le> m"
proof (induction m rm rule: ReadRecord_loop.induct)
  case (1 m rm)
  note unf = trans [OF ReadRecord_loop.simps [of m rm, symmetric] "1.prems"(1)]
  show ?case
  proof (cases "complete rm")
    case True
    with unf "1.prems"(2) show ?thesis by auto
  next
    case False
    obtain r s where dec: "xdrDecodeUint32 (rm_r rm) = (r, s)" by fastforce
    with unf False obtain h where r: "r = Inr h" by (cases r) auto
    define fl where "fl = h AND NOT LastFragmentFlag"
    define l where "l \<longleftrightarrow> h AND LastFragmentFlag \<noteq> 0"
    note unf = unf [unfolded dec r prod.case sum.case Let_def, folded fl_def l_def]
    have le: "int (length (fragmentBuf rm)) + uint fl \<le> m"
    proof (rule ccontr)
      assume "\<not> ?thesis"
      with unf False show False by (simp split: if_split_asm)
    qed
    have mf: "\<not> uint fl > MaxFragmentSize"
    proof
      assume "uint fl > MaxFragmentSize"
      with unf False show False by simp
    qed
    note IH = "1.IH" [OF False, unfolded dec r, OF refl refl refl refl refl,
      folded fl_def l_def]
    note unf = unf [unfolded if_not_P [OF False] if_not_P [OF mf]]
    show ?thesis
    proof (cases "fl > 0")
      case True
      obtain q s2 where rd: "rd_full (unat fl) s = (q, s2)" by fastforce
      with unf le True obtain f where q: "q = Inr f" by (cases q) simp_all
      from rd q have "length f = unat fl" by (simp add: rd_full_Inr)
      with le have g: "int (length (fragmentBuf rm)) + int (length f) \<le> m" by simp
      show ?thesis
        by (rule IH(1)) (use unf le mf True rd q g in simp_all)
    next
      case fl0: False
      show ?thesis
        by (rule IH(2)) (use unf le mf fl0 "1.prems"(2) in simp_all)
    qed
  qed
qed

lemma ReadRecord_bound:
  "ReadRecord rm = (Inr d, rm') \<Longrightarrow>
    int (length d) \<le> (if MaxRecordSize rm \<le> 0 then DefaultMaxRecordSize else MaxRecordSize rm)"
  unfolding ReadRecord_def Let_def by (drule ReadRecord_loop_bound) (auto split: if_splits)

text \<open>A record that was read has used up at least its four byte header, so a stream holds finitely many.\<close>

lemma ReadRecord_loop_consumes:
  "ReadRecord_loop m rm = (Inr d, rm') \<Longrightarrow>
    length (rm_r rm') + (if complete rm then 0 else 4) \<le> length (rm_r rm)"
proof (induction m rm rule: ReadRecord_loop.induct)
  case (1 m rm)
  note unf = trans [OF ReadRecord_loop.simps [of m rm, symmetric] "1.prems"]
  show ?case
  proof (cases "complete rm")
    case True
    with unf show ?thesis by auto
  next
    case False
    obtain r s where dec: "xdrDecodeUint32 (rm_r rm) = (r, s)" by fastforce
    with unf False obtain h where r: "r = Inr h" by (cases r) auto
    have s: "length (rm_r rm) = 4 + length s" using dec r xdrDecodeUint32_Inr_length by blast
    define fl where "fl = h AND NOT LastFragmentFlag"
    define l where "l \<longleftrightarrow> h AND LastFragmentFlag \<noteq> 0"
    note unf = unf [unfolded dec r prod.case sum.case Let_def, folded fl_def l_def]
    have le: "\<not> int (length (fragmentBuf rm)) + uint fl > m"
    proof
      assume "int (length (fragmentBuf rm)) + uint fl > m"
      with unf False show False by (simp split: if_split_asm)
    qed
    have mf: "\<not> uint fl > MaxFragmentSize"
    proof
      assume "uint fl > MaxFragmentSize"
      with unf False show False by simp
    qed
    note IH = "1.IH" [OF False, unfolded dec r, OF refl refl refl refl refl, folded fl_def l_def]
    note unf = unf [unfolded if_not_P [OF False] if_not_P [OF mf]]
    show ?thesis
    proof (cases "fl > 0")
      case True
      obtain q s2 where rd: "rd_full (unat fl) s = (q, s2)" by fastforce
      with unf le True obtain f where q: "q = Inr f" by (cases q) simp_all
      from rd q have len: "length s2 \<le> length s" by (auto simp: rd_full_Inr)
      have "length (rm_r rm') + (if l then 0 else 4) \<le> length s2"
        by (rule IH(1) [THEN ord_le_eq_trans, simplified]) (use unf le mf True rd q in simp_all)
      with len s False show ?thesis by (simp split: if_splits)
    next
      case fl0: False
      have "length (rm_r rm') + (if l then 0 else 4) \<le> length s"
        by (rule IH(2) [THEN ord_le_eq_trans, simplified]) (use unf le mf fl0 in simp_all)
      with s False show ?thesis by (simp split: if_splits)
    qed
  qed
qed

lemma ReadRecord_consumes: "ReadRecord rm = (Inr d, rm') \<Longrightarrow> length (rm_r rm') < length (rm_r rm)"
  unfolding ReadRecord_def Let_def by (drule ReadRecord_loop_consumes) simp

section \<open>Properties\<close>

text \<open>
  C19: Record marking is transparent and writing returns: for any fragment size a writer was asked
  for, \<open>WriteRecord\<close> ends, and a reader whose limit admits the record reads back the same bytes,
  however many fragments there are, and stops right behind the record.
\<close>

theorem record_marking_roundtrip:
  assumes "int (length data) \<le> (if MaxRecordSize rm \<le> 0 then DefaultMaxRecordSize else MaxRecordSize rm)"
  shows "\<exists>wire. WriteRecord (NewRecordMarkingWriterWithSize mf) data = Some wire \<and>
    (\<forall>rest. \<exists>rm'. ReadRecord (rm\<lparr>rm_r := wire @ rest\<rparr>) = (Inr data, rm') \<and> rm_r rm' = rest)"
  using ReadRecord_WriteRecord [OF refl assms] .

theorem record_marking_roundtrip_witness:
  "\<exists>wire. WriteRecord (NewRecordMarkingWriterWithSize 2) [1, 2, 3, 4, 5] = Some wire \<and>
    (\<forall>rest. \<exists>rm'. ReadRecord ((NewRecordMarkingReader [])\<lparr>rm_r := wire @ rest\<rparr>) =
      (Inr [1, 2, 3, 4, 5], rm') \<and> rm_r rm' = rest)"
  by (rule record_marking_roundtrip) (simp add: NewRecordMarkingReader_def)

text \<open>
  A peer cannot make the server assemble a record beyond the limit: every record that is read has
  at most \<open>MaxRecordSize\<close> bytes (1 MiB where no positive limit is set), over all fragments together.
\<close>

theorem record_size_bounded:
  assumes "ReadRecord rm = (Inr d, rm')"
  shows "int (length d) \<le> (if MaxRecordSize rm \<le> 0 then DefaultMaxRecordSize else MaxRecordSize rm)"
  using assms by (rule ReadRecord_bound)

end
