(* ===== verification/NetAddr.thy ===== *)
theory NetAddr
  imports IPAddr
begin

text \<open>
  More of Go's standard library as the connection code uses it: \<open>net.SplitHostPort\<close>,
  \<open>IP.IsLoopback\<close>, \<open>fmt.Sprintf\<close> with \<open>%d\<close>, and \<open>fmt.Sscanf\<close> on a format of \<open>%d\<close> verbs
  separated by dots.
\<close>

section \<open>Host and port\<close>

fun index_byte :: "char \<Rightarrow> string \<Rightarrow> nat option" where
  "index_byte c [] = None"
| "index_byte c (x # s) = (if x = c then Some 0 else map_option Suc (index_byte c s))"

fun last_byte :: "char \<Rightarrow> string \<Rightarrow> nat option" where
  "last_byte c [] = None"
| "last_byte c (x # s) =
     (case last_byte c s of
        Some i \<Rightarrow> Some (Suc i)
      | None \<Rightarrow> if x = c then Some 0 else None)"

text \<open>The result is the host and the port; every error of the function is \<open>None\<close>.\<close>

definition SplitHostPort :: "string \<Rightarrow> (string \<times> string) option" where
  "SplitHostPort hostport =
     (case last_byte (CHR '':'') hostport of
        None \<Rightarrow> None
      | Some i \<Rightarrow>
          Option.bind
            (if hd hostport = CHR ''['' then
               (case index_byte (CHR '']'') hostport of
                  None \<Rightarrow> None
                | Some e \<Rightarrow> if e + 1 = i then Some (take (e - 1) (drop 1 hostport), 1, e + 1) else None)
             else
               let host = take i hostport
               in if CHR '':'' \<in> set host then None else Some (host, 0, 0))
            (\<lambda>(host, j, k).
               if CHR ''['' \<in> set (drop j hostport) \<or> CHR '']'' \<in> set (drop k hostport) then None
               else Some (host, drop (i + 1) hostport)))"

definition IPv6loopback :: bytes where
  "IPv6loopback = replicate 15 0 @ [1]"

definition IsLoopback :: "bytes \<Rightarrow> bool" where
  "IsLoopback ip =
     (case To4 ip of Some ip4 \<Rightarrow> ip4 ! 0 = 127 | None \<Rightarrow> IP_Equal ip IPv6loopback)"

section \<open>Decimal numbers\<close>

fun itoa :: "nat \<Rightarrow> string" where
  "itoa n = (if n < 10 then [char_of (48 + n)] else itoa (n div 10) @ [char_of (48 + n mod 10)])"

declare itoa.simps [simp del]

lemma itoa_digits: "list_all is_digit (itoa n)"
  by (induction n rule: itoa.induct) (subst itoa.simps, auto simp: digit_char)

lemma itoa_nonempty: "itoa n \<noteq> []"
  by (subst itoa.simps) simp

lemma dec_val_snoc: "dec_val (s @ [c]) = dec_val s * 10 + digit_val c"
  by (simp add: dec_val_def)

lemma dec_val_itoa: "dec_val (itoa n) = n"
proof (induction n rule: itoa.induct)
  case (1 n)
  then show ?case
    by (subst itoa.simps) (auto simp: dec_val_snoc digit_char, simp add: dec_val_def digit_char)
qed

text \<open>The UTF-8 encodings of the runes that \<open>fmt\<close> skips as blanks, the line feed apart.\<close>

definition blanks :: "string list" where
  "blanks =
     [[CHR 0x09], [CHR 0x0B], [CHR 0x0C], [CHR 0x0D], '' '',
      [CHR 0xC2, CHR 0x85], [CHR 0xC2, CHR 0xA0], [CHR 0xE1, CHR 0x9A, CHR 0x80],
      [CHR 0xE2, CHR 0x80, CHR 0xA8], [CHR 0xE2, CHR 0x80, CHR 0xA9], [CHR 0xE2, CHR 0x80, CHR 0xAF],
      [CHR 0xE2, CHR 0x81, CHR 0x9F], [CHR 0xE3, CHR 0x80, CHR 0x80]]
     @ map (\<lambda>k. [CHR 0xE2, CHR 0x80, char_of k]) [0x80..<0x8B :: nat]"

text \<open>\<open>SkipSpace\<close> of a scan in which a line feed does not count as space: an error is \<open>None\<close>.\<close>

function SkipSpace :: "string \<Rightarrow> string option" where
  "SkipSpace s =
     (if s = [] then Some []
      else if hd s = CHR 0x0A then None
      else case find (\<lambda>b. b \<noteq> [] \<and> take (length b) s = b) blanks of
             Some b \<Rightarrow> SkipSpace (drop (length b) s)
           | None \<Rightarrow> Some s)"
  by pat_completeness auto
termination by (relation "measure length") (auto simp: find_Some_iff)

declare SkipSpace.simps [simp del]

text \<open>One \<open>%d\<close> verb into a 64-bit \<open>int\<close>: blanks, an optional sign, at least one digit.\<close>

definition scan_d :: "string \<Rightarrow> (int \<times> string) option" where
  "scan_d s =
     Option.bind (SkipSpace s) (\<lambda>s.
       let neg = (s \<noteq> [] \<and> hd s = CHR ''-'');
           s = (if s \<noteq> [] \<and> (hd s = CHR ''-'' \<or> hd s = CHR ''+'') then tl s else s);
           ds = takeWhile is_digit s;
           v = (if neg then - int (dec_val ds) else int (dec_val ds))
       in if ds = [] \<or> v < - (2 ^ 63) \<or> v \<ge> 2 ^ 63 then None
          else Some (v, dropWhile is_digit s))"

text \<open>\<open>fmt.Sscanf(s, "%d.%d. ... .%d")\<close> with \<open>Suc n\<close> verbs; what follows the last number is ignored.\<close>

fun Sscanf_dots :: "nat \<Rightarrow> string \<Rightarrow> int list option" where
  "Sscanf_dots 0 s = map_option (\<lambda>(v, _). [v]) (scan_d s)"
| "Sscanf_dots (Suc n) s =
     Option.bind (scan_d s) (\<lambda>(v, s).
       if s \<noteq> [] \<and> hd s = CHR ''.'' then map_option (Cons v) (Sscanf_dots n (tl s)) else None)"

lemma SkipSpace_digit: "is_digit c \<Longrightarrow> SkipSpace (c # s) = Some (c # s)"
proof -
  assume d: "is_digit c"
  have "b \<noteq> [] \<Longrightarrow> b \<in> set blanks \<Longrightarrow> \<not> is_digit (hd b)" for b
    by (auto simp: blanks_def is_digit_def)
  with d have "find (\<lambda>b. b \<noteq> [] \<and> take (length b) (c # s) = b) blanks = None"
    by (auto simp: find_None_iff) (metis list.sel(1) length_greater_0_conv take_Cons' less_numeral_extra(3))
  moreover have "c \<noteq> CHR 0x0A" using d by (auto simp: is_digit_def)
  ultimately show ?thesis by (subst SkipSpace.simps) simp
qed

lemma is_digit_not_dot: "\<not> is_digit (CHR ''.'')"
  by (simp add: is_digit_def)

lemma scan_d_itoa:
  assumes "int n < 2 ^ 63" and "rest = [] \<or> \<not> is_digit (hd rest)"
  shows "scan_d (itoa n @ rest) = Some (int n, rest)"
proof -
  obtain c ds where i: "itoa n = c # ds" using itoa_nonempty [of n] by (cases "itoa n") auto
  have c: "is_digit c" using itoa_digits [of n] by (simp add: i)
  then have sign: "c \<noteq> CHR ''-''" "c \<noteq> CHR ''+''" by (auto simp: is_digit_def)
  have tw: "takeWhile is_digit (itoa n @ rest) = itoa n" "dropWhile is_digit (itoa n @ rest) = rest"
    using itoa_digits [of n] assms(2)
    by (cases rest; auto simp: list_all_iff takeWhile_append dropWhile_append)+
  have "SkipSpace (itoa n @ rest) = Some (itoa n @ rest)" using c by (simp add: i SkipSpace_digit)
  with sign tw dec_val_itoa [of n] assms(1) show ?thesis by (simp add: scan_d_def i)
qed

text \<open>Printing numbers between dots and scanning them back.\<close>

lemma Sscanf_dots_print:
  assumes "\<And>v. v \<in> set (n # ns) \<Longrightarrow> int v < 2 ^ 63"
  shows "Sscanf_dots (length ns) (itoa n @ concat (map (\<lambda>m. ''.'' @ itoa m) ns)) = Some (map int (n # ns))"
  using assms
proof (induction ns arbitrary: n)
  case Nil
  then show ?case using scan_d_itoa [of n "[]"] by simp
next
  case (Cons m ns)
  then show ?case using scan_d_itoa [of n "''.'' @ itoa m @ concat (map (\<lambda>m. ''.'' @ itoa m) ns)"]
    by (simp add: is_digit_not_dot)
qed

section \<open>IPv4 peers\<close>

lemma dec_itoa: "n < 1000 \<Longrightarrow> dec n = itoa n"
proof -
  assume n: "n < 1000"
  have "n div 10 div 10 = n div 100" by (simp add: div_mult2_eq [symmetric])
  with n show ?thesis
    by (auto simp: dec_def itoa.simps [of n] itoa.simps [of "n div 10"] itoa.simps [of "n div 100"])
qed

lemma dotted_itoa:
  "dotted [a, b, c, d] =
    itoa (unat a) @ concat (map (\<lambda>m. ''.'' @ itoa m) [unat b, unat c, unat d])"
proof -
  have "unat x < 1000" for x :: byte
    using unsigned_less [of x, where ?'a = nat] by simp
  then show ?thesis by (simp add: dotted_def dec_itoa)
qed

text \<open>The text of a TCP address over IPv4, as \<open>RemoteAddr().String()\<close> prints it.\<close>

definition peer_text :: "bytes \<Rightarrow> nat \<Rightarrow> string" where
  "peer_text ip port = dotted ip @ '':'' @ itoa port"

lemma last_byte_app: "c \<notin> set t \<Longrightarrow> last_byte c (s @ c # t) = Some (length s)"
proof -
  assume "c \<notin> set t"
  then have "last_byte c t = None" by (induction t) auto
  then show ?thesis by (induction s) auto
qed

lemma SplitHostPort_peer:
  "SplitHostPort (peer_text [a, b, c, d] port) = Some (dotted [a, b, c, d], itoa port)"
proof -
  have t: "x \<in> set (itoa port) \<Longrightarrow> is_digit x" for x
    using itoa_digits [of port] by (simp add: list_all_iff)
  have no: "\<not> is_digit (CHR '':'')" "\<not> is_digit (CHR ''['')" "\<not> is_digit (CHR '']'')"
    by (simp_all add: is_digit_def)
  have h: "x \<notin> set (dotted [a, b, c, d])" if "\<not> is_digit x" "x \<noteq> CHR ''.''" for x
    using that dotted_chars by blast
  have "last_byte (CHR '':'') (dotted [a, b, c, d] @ CHR '':'' # itoa port) = Some (length (dotted [a, b, c, d]))"
    by (rule last_byte_app) (use t no in blast)
  moreover have ne: "dotted [a, b, c, d] \<noteq> []" by (simp add: dotted_def)
  have hd: "hd (dotted [a, b, c, d]) \<noteq> CHR ''[''"
  proof
    assume e: "hd (dotted [a, b, c, d]) = CHR ''[''"
    have "CHR ''['' \<in> set (dotted [a, b, c, d])" using hd_in_set [OF ne] unfolding e .
    then show False using h no by simp
  qed
  have "hd (dotted [a, b, c, d] @ CHR '':'' # itoa port) \<noteq> CHR ''[''"
    unfolding hd_append2 [OF ne] by (rule hd)
  moreover have "CHR '':'' \<notin> set (dotted [a, b, c, d])" using h no by simp
  moreover have "CHR ''['' \<notin> set (peer_text [a, b, c, d] port)" "CHR '']'' \<notin> set (peer_text [a, b, c, d] port)"
    using h no t by (auto simp: peer_text_def)
  ultimately show ?thesis by (simp add: SplitHostPort_def peer_text_def Let_def)
qed

lemma IsLoopback_v4: "IsLoopback (As16 [a, b, c, d]) \<longleftrightarrow> a = 127"
  by (simp add: IsLoopback_def As16_def To4_def v4InV6Prefix_def)

lemma length_itoa: "n < 10 ^ Suc k \<Longrightarrow> length (itoa n) \<le> Suc k"
proof (induction k arbitrary: n)
  case 0
  then show ?case by (subst itoa.simps) simp
next
  case (Suc k)
  then have "n div 10 < 10 ^ Suc k" by (simp add: less_mult_imp_div_less mult.commute)
  with Suc.IH [of "n div 10"] show ?case by (subst itoa.simps) auto
qed

lemma length_dotted: "length (dotted [a, b, c, d]) \<le> 15"
proof -
  have "length (dec (unat x)) \<le> 3" for x :: byte
    using dec_facts(4) [of "unat x"] unsigned_less [of x, where ?'a = nat] by simp
  from this [of a] this [of b] this [of c] this [of d] show ?thesis by (simp add: dotted_def)
qed

end
