(* ===== verification/Portmapper.thy ===== *)
theory Portmapper
  imports RPC RecordMarking NetAddr
begin

text \<open>
  The portmapper (\<open>portmapper.go\<close>): the registry of services, the portmap version 2 and rpcbind
  version 3 and 4 procedures over it, and the connections that carry the calls.  The peer of a
  connection is the text of \<open>RemoteAddr\<close>, \<open>None\<close> for a nil address.
\<close>

abbreviation (input) PortmapperPort :: int where "PortmapperPort \<equiv> 111"
abbreviation (input) PortmapperProgram :: u32 where "PortmapperProgram \<equiv> 100000"
abbreviation (input) IPPROTO_TCP :: u32 where "IPPROTO_TCP \<equiv> 6"
abbreviation (input) IPPROTO_UDP :: u32 where "IPPROTO_UDP \<equiv> 17"
abbreviation (input) DefaultMaxPortmapperConns :: nat where "DefaultMaxPortmapperConns \<equiv> 100"

section \<open>The registry\<close>

record PortMapping =
  pm_Program :: u32
  pm_Version :: u32
  pm_Protocol :: u32
  pm_Port :: u32

record Portmapper =
  mappings :: "PortMapping list"
  listenAddr :: string
  pm_done :: bool

definition NewPortmapper :: Portmapper where
  "NewPortmapper = \<lparr>mappings = [], listenAddr = [], pm_done = False\<rparr>"

definition SetListenAddr :: "string \<Rightarrow> Portmapper \<Rightarrow> Portmapper" where
  "SetListenAddr addr pm = pm\<lparr>listenAddr := addr\<rparr>"

definition mapping_matches :: "u32 \<Rightarrow> u32 \<Rightarrow> u32 \<Rightarrow> PortMapping \<Rightarrow> bool" where
  "mapping_matches prog vers prot m \<longleftrightarrow>
     pm_Program m = prog \<and> pm_Version m = vers \<and> pm_Protocol m = prot"

fun register_loop :: "u32 \<Rightarrow> u32 \<Rightarrow> u32 \<Rightarrow> u32 \<Rightarrow> PortMapping list \<Rightarrow> PortMapping list" where
  "register_loop prog vers prot port [] =
     [\<lparr>pm_Program = prog, pm_Version = vers, pm_Protocol = prot, pm_Port = port\<rparr>]"
| "register_loop prog vers prot port (m # ms) =
     (if mapping_matches prog vers prot m then m\<lparr>pm_Port := port\<rparr> # ms
      else m # register_loop prog vers prot port ms)"

definition RegisterService :: "u32 \<Rightarrow> u32 \<Rightarrow> u32 \<Rightarrow> u32 \<Rightarrow> Portmapper \<Rightarrow> Portmapper" where
  "RegisterService prog vers prot port pm =
     pm\<lparr>mappings := register_loop prog vers prot port (mappings pm)\<rparr>"

fun unregister_loop :: "u32 \<Rightarrow> u32 \<Rightarrow> u32 \<Rightarrow> PortMapping list \<Rightarrow> PortMapping list" where
  "unregister_loop prog vers prot [] = []"
| "unregister_loop prog vers prot (m # ms) =
     (if mapping_matches prog vers prot m then ms else m # unregister_loop prog vers prot ms)"

definition UnregisterService :: "u32 \<Rightarrow> u32 \<Rightarrow> u32 \<Rightarrow> Portmapper \<Rightarrow> Portmapper" where
  "UnregisterService prog vers prot pm =
     pm\<lparr>mappings := unregister_loop prog vers prot (mappings pm)\<rparr>"

definition pm_GetPort :: "u32 \<Rightarrow> u32 \<Rightarrow> u32 \<Rightarrow> Portmapper \<Rightarrow> u32" where
  "pm_GetPort prog vers prot pm =
     (case find (mapping_matches prog vers prot) (mappings pm) of Some m \<Rightarrow> pm_Port m | None \<Rightarrow> 0)"

definition GetMappings :: "Portmapper \<Rightarrow> PortMapping list" where
  "GetMappings pm = mappings pm"

text \<open>
  \<open>StartOnPort\<close> once the listener is open: the portmapper registers itself.  \<open>listen\<close> tells
  whether \<open>net.Listen\<close> succeeded.
\<close>

definition StartOnPort :: "bool \<Rightarrow> int \<Rightarrow> Portmapper \<Rightarrow> unit result \<times> Portmapper" where
  "StartOnPort listen port pm =
     (if \<not> listen then (Inl (ErrText ''failed to listen''), pm)
      else
        let pm = RegisterService PortmapperProgram 2 IPPROTO_TCP (word_of_int port) pm;
            pm = RegisterService PortmapperProgram 2 IPPROTO_UDP (word_of_int port) pm;
            pm = RegisterService PortmapperProgram 3 IPPROTO_TCP (word_of_int port) pm;
            pm = RegisterService PortmapperProgram 3 IPPROTO_UDP (word_of_int port) pm;
            pm = RegisterService PortmapperProgram 4 IPPROTO_TCP (word_of_int port) pm;
            pm = RegisterService PortmapperProgram 4 IPPROTO_UDP (word_of_int port) pm
        in (Inr (), pm))"

text \<open>
  \<open>Stop\<close>: the context is cancelled and the listener closed, so that nothing is accepted any more and
  every connection ends when its loop next looks at the context.  The wait of at most five seconds
  for the goroutines changes no state.
\<close>

definition pm_Stop :: "Portmapper \<Rightarrow> Portmapper" where
  "pm_Stop pm = pm\<lparr>pm_done := True\<rparr>"

definition pm_Start :: "bool \<Rightarrow> Portmapper \<Rightarrow> unit result \<times> Portmapper" where
  "pm_Start listen pm = StartOnPort listen PortmapperPort pm"

section \<open>Results\<close>

definition encodeBool :: "bool \<Rightarrow> bytes" where
  "encodeBool v = (if v then be32 1 else be32 0)"

definition encodePort :: "u32 \<Rightarrow> bytes" where
  "encodePort port = be32 port"

definition encodeEmptyString :: bytes where
  "encodeEmptyString = xdrEncodeString []"

text \<open>\<open>data\<close> is \<open>None\<close> for a nil slice.\<close>

definition makeReply :: "u32 \<Rightarrow> u32 \<Rightarrow> bytes option \<Rightarrow> bytes" where
  "makeReply xid status data =
     be32 xid @ be32 RPC_REPLY @ be32 MSG_ACCEPTED @ be32 0 @ be32 0 @
     (if status = MSG_ACCEPTED
      then be32 0 @ (case data of Some d \<Rightarrow> d | None \<Rightarrow> [])
      else be32 status)"

section \<open>Portmap version 2\<close>

text \<open>The argument of SET, UNSET and GETPORT: program, version, protocol and port.\<close>

definition read_mapping :: "(u32 \<times> u32 \<times> u32 \<times> u32) reader" where
  "read_mapping =
     rbind xdrDecodeUint32 (\<lambda>prog. rbind xdrDecodeUint32 (\<lambda>vers.
     rbind xdrDecodeUint32 (\<lambda>prot. rbind xdrDecodeUint32 (\<lambda>port.
       rreturn (prog, vers, prot, port)))))"

definition handleGetPort :: "Portmapper \<Rightarrow> bytes \<Rightarrow> bytes" where
  "handleGetPort pm r =
     (case fst (read_mapping r) of
        Inl _ \<Rightarrow> encodePort 0
      | Inr (prog, vers, prot, _) \<Rightarrow> encodePort (pm_GetPort prog vers prot pm))"

definition handleDump :: "Portmapper \<Rightarrow> bytes" where
  "handleDump pm =
     concat (map (\<lambda>m. be32 1 @ be32 (pm_Program m) @ be32 (pm_Version m) @
                      be32 (pm_Protocol m) @ be32 (pm_Port m)) (GetMappings pm)) @ be32 0"

text \<open>
  The guard of SET and UNSET: the peer's host must not parse as an address other than loopback.
  \<open>SplitHostPort\<close> gives an empty host when it fails.
\<close>

definition remote_refused :: "string option \<Rightarrow> bool" where
  "remote_refused remoteAddr =
     (case remoteAddr of
        None \<Rightarrow> False
      | Some addr \<Rightarrow>
          let host = (case SplitHostPort addr of Some (host, _) \<Rightarrow> host | None \<Rightarrow> [])
          in case ParseIP host of Some ip \<Rightarrow> \<not> IsLoopback ip | None \<Rightarrow> False)"

definition handleSet :: "bytes \<Rightarrow> string option \<Rightarrow> Portmapper \<Rightarrow> bytes \<times> Portmapper" where
  "handleSet r remoteAddr pm =
     (if remote_refused remoteAddr then (encodeBool False, pm)
      else case fst (read_mapping r) of
             Inl _ \<Rightarrow> (encodeBool False, pm)
           | Inr (prog, vers, prot, port) \<Rightarrow>
               (encodeBool True, RegisterService prog vers prot port pm))"

definition handleUnset :: "bytes \<Rightarrow> string option \<Rightarrow> Portmapper \<Rightarrow> bytes \<times> Portmapper" where
  "handleUnset r remoteAddr pm =
     (if remote_refused remoteAddr then (encodeBool False, pm)
      else case fst (read_mapping r) of
             Inl _ \<Rightarrow> (encodeBool False, pm)
           | Inr (prog, vers, prot, _) \<Rightarrow>
               (encodeBool True, UnregisterService prog vers prot pm))"

section \<open>Rpcbind versions 3 and 4\<close>

text \<open>
  The start of the \<open>rpcb\<close> argument: program, version, netid.  GETADDR and UNSET also consume the
  address and the owner, and ignore whether that worked.
\<close>

definition read_rpcb :: "(u32 \<times> u32 \<times> string) reader" where
  "read_rpcb =
     rbind xdrDecodeUint32 (\<lambda>prog. rbind xdrDecodeUint32 (\<lambda>vers.
     rbind xdrDecodeString (\<lambda>netid. rreturn (prog, vers, netid))))"

definition uaddr_of :: "string \<Rightarrow> u32 \<Rightarrow> string" where
  "uaddr_of addr port = addr @ ''.'' @ itoa (unat (port div 256)) @ ''.'' @ itoa (unat (port mod 256))"

definition own_addr :: "Portmapper \<Rightarrow> string" where
  "own_addr pm = (if listenAddr pm = [] then ''0.0.0.0'' else listenAddr pm)"

definition handleGetAddr :: "Portmapper \<Rightarrow> bytes \<Rightarrow> bytes" where
  "handleGetAddr pm r =
     (case fst (read_rpcb r) of
        Inl _ \<Rightarrow> encodeEmptyString
      | Inr (prog, vers, netid) \<Rightarrow>
          let prot = (if netid = ''tcp'' \<or> netid = ''tcp6'' then IPPROTO_TCP else IPPROTO_UDP);
              port = pm_GetPort prog vers prot pm;
              uaddr = (if port > 0 then
                         if netid = ''tcp6'' \<or> netid = ''udp6'' then uaddr_of ''::1'' port
                         else uaddr_of (own_addr pm) port
                       else [])
          in xdrEncodeString uaddr)"

text \<open>The port of a universal address, 0 when it does not parse; the sum is truncated to 32 bits.\<close>

definition uaddr_port :: "string \<Rightarrow> u32" where
  "uaddr_port uaddr =
     (if uaddr \<noteq> [] then
        (case Sscanf_dots 5 uaddr of
           Some [a, b, c, d, hi, lo] \<Rightarrow> word_of_int (hi * 256 + lo)
         | _ \<Rightarrow> 0)
      else 0)"

definition rpcb_protocol :: "string \<Rightarrow> u32" where
  "rpcb_protocol netid = (if netid = ''udp'' \<or> netid = ''udp6'' then IPPROTO_UDP else IPPROTO_TCP)"

definition handleRpcbSet :: "bytes \<Rightarrow> Portmapper \<Rightarrow> bytes \<times> Portmapper" where
  "handleRpcbSet r pm =
     (case fst (rbind read_rpcb (\<lambda>(prog, vers, netid). rbind xdrDecodeString (\<lambda>uaddr.
                  rreturn (prog, vers, netid, uaddr))) r) of
        Inl _ \<Rightarrow> (encodeBool False, pm)
      | Inr (prog, vers, netid, uaddr) \<Rightarrow>
          let port = uaddr_port uaddr;
              prot = rpcb_protocol netid;
              pm = (if port > 0 then RegisterService prog vers prot port pm else pm)
          in (encodeBool True, pm))"

definition handleRpcbUnset :: "bytes \<Rightarrow> Portmapper \<Rightarrow> bytes \<times> Portmapper" where
  "handleRpcbUnset r pm =
     (case fst (read_rpcb r) of
        Inl _ \<Rightarrow> (encodeBool False, pm)
      | Inr (prog, vers, netid) \<Rightarrow>
          (encodeBool True, UnregisterService prog vers (rpcb_protocol netid) pm))"

definition handleRpcbDump :: "Portmapper \<Rightarrow> bytes" where
  "handleRpcbDump pm =
     concat (map (\<lambda>m. be32 1 @ be32 (pm_Program m) @ be32 (pm_Version m) @
                      xdrEncodeString (if pm_Protocol m = IPPROTO_TCP then ''tcp'' else ''udp'') @
                      xdrEncodeString (uaddr_of (own_addr pm) (pm_Port m)) @
                      xdrEncodeString ''superuser'') (GetMappings pm)) @ be32 0"

section \<open>Calls\<close>

definition skipAuth :: "unit reader" where
  "skipAuth =
     rbind xdrDecodeUint32 (\<lambda>flavor. rbind xdrDecodeUint32 (\<lambda>len.
       if len > of_nat MAX_RPC_AUTH_LENGTH
       then rfail (ErrText ''auth body length exceeds MAX_RPC_AUTH_LENGTH'')
       else if len > 0 then
         rbind (rd_full (unat len)) (\<lambda>_.
           let pad = (4 - len mod 4) mod 4
           in if pad > 0 then rbind (rd_full (unat pad)) (\<lambda>_. rreturn ()) else rreturn ())
       else rreturn ()))"

text \<open>The header of a call: xid, program, version and procedure.  The RPC version is not checked.\<close>

definition read_call_header :: "(u32 \<times> u32 \<times> u32 \<times> u32) reader" where
  "read_call_header =
     rbind (rwrap ''failed to read XID'' xdrDecodeUint32) (\<lambda>xid.
     rbind (rwrap ''failed to read message type'' xdrDecodeUint32) (\<lambda>msgType.
       if msgType \<noteq> RPC_CALL then rfail (ErrText ''expected RPC call'')
       else
         rbind (rwrap ''failed to read RPC version'' xdrDecodeUint32) (\<lambda>_.
         rbind (rwrap ''failed to read program'' xdrDecodeUint32) (\<lambda>prog.
         rbind (rwrap ''failed to read version'' xdrDecodeUint32) (\<lambda>vers.
         rbind (rwrap ''failed to read procedure'' xdrDecodeUint32) (\<lambda>prc.
         rbind (rwrap ''failed to skip credentials'' skipAuth) (\<lambda>_.
         rbind (rwrap ''failed to skip verifier'' skipAuth) (\<lambda>_.
           rreturn (xid, prog, vers, prc)))))))))"

text \<open>The switch on the procedure: \<open>None\<close> for a procedure that is not available.\<close>

definition pm_dispatch ::
    "u32 \<Rightarrow> u32 \<Rightarrow> bytes \<Rightarrow> string option \<Rightarrow> Portmapper \<Rightarrow> bytes option option \<times> Portmapper" where
  "pm_dispatch vers prc r remoteAddr pm =
     (if vers = 2 then
        if prc = 0 then (Some None, pm)
        else if prc = 1 then map_prod (Some \<circ> Some) id (handleSet r remoteAddr pm)
        else if prc = 2 then map_prod (Some \<circ> Some) id (handleUnset r remoteAddr pm)
        else if prc = 3 then (Some (Some (handleGetPort pm r)), pm)
        else if prc = 4 then (Some (Some (handleDump pm)), pm)
        else (None, pm)
      else
        if prc = 0 then (Some None, pm)
        else if prc = 1 then map_prod (Some \<circ> Some) id (handleRpcbSet r pm)
        else if prc = 2 then map_prod (Some \<circ> Some) id (handleRpcbUnset r pm)
        else if prc = 3 then (Some (Some (handleGetAddr pm r)), pm)
        else if prc = 4 then (Some (Some (handleRpcbDump pm)), pm)
        else (None, pm))"

definition pm_handleCall :: "bytes \<Rightarrow> string option \<Rightarrow> Portmapper \<Rightarrow> bytes result \<times> Portmapper" where
  "pm_handleCall data remoteAddr pm =
     (case read_call_header data of
        (Inl e, _) \<Rightarrow> (Inl e, pm)
      | (Inr (xid, prog, vers, prc), r) \<Rightarrow>
          if prog \<noteq> PortmapperProgram then (Inr (makeReply xid PROG_UNAVAIL None), pm)
          else if vers \<noteq> 2 \<and> vers \<noteq> 3 \<and> vers \<noteq> 4 then (Inr (makeReply xid PROG_MISMATCH None), pm)
          else
            (case pm_dispatch vers prc r remoteAddr pm of
               (None, pm) \<Rightarrow> (Inr (makeReply xid PROC_UNAVAIL None), pm)
             | (Some res, pm) \<Rightarrow> (Inr (makeReply xid MSG_ACCEPTED res), pm)))"

section \<open>Connections\<close>

record pm_conn =
  pc_remote :: "string option"
  pc_reader :: RecordMarkingReader
  pc_written :: bytes

text \<open>
  One turn of the loop of \<open>handleConnection\<close>: the flag tells whether the loop goes on.  A call that
  cannot be handled is skipped.  \<open>can_write\<close> tells whether the connection takes the reply.
\<close>

definition pm_turn :: "bool \<Rightarrow> pm_conn \<Rightarrow> Portmapper \<Rightarrow> bool \<times> pm_conn \<times> Portmapper" where
  "pm_turn can_write c pm =
     (case ReadRecord (pc_reader c) of
        (Inl _, rd) \<Rightarrow> (False, c\<lparr>pc_reader := rd\<rparr>, pm)
      | (Inr data, rd) \<Rightarrow>
          (case pm_handleCall data (pc_remote c) pm of
             (Inl _, pm) \<Rightarrow> (True, c\<lparr>pc_reader := rd\<rparr>, pm)
           | (Inr reply, pm) \<Rightarrow>
               (case WriteRecord NewRecordMarkingWriter reply of
                  Some out \<Rightarrow>
                    if can_write then (True, c\<lparr>pc_reader := rd, pc_written := pc_written c @ out\<rparr>, pm)
                    else (False, c\<lparr>pc_reader := rd\<rparr>, pm)
                | None \<Rightarrow> (False, c\<lparr>pc_reader := rd\<rparr>, pm))))"

text \<open>The whole loop for a peer whose bytes are known and who takes every reply.\<close>

lemma pm_turn_consumes:
  "(True, c', pm') = pm_turn w c pm \<Longrightarrow> length (rm_r (pc_reader c')) < length (rm_r (pc_reader c))"
  by (auto simp: pm_turn_def dest: ReadRecord_consumes split: prod.splits sum.splits option.splits if_splits)

function pm_handleConnection :: "pm_conn \<Rightarrow> Portmapper \<Rightarrow> pm_conn \<times> Portmapper" where
  "pm_handleConnection c pm =
     (case pm_turn True c pm of
        (True, c', pm') \<Rightarrow> pm_handleConnection c' pm'
      | (False, c', pm') \<Rightarrow> (c', pm'))"
  by pat_completeness auto
termination
  by (relation "measure (\<lambda>(c, _). length (rm_r (pc_reader c)))") (auto dest: pm_turn_consumes)

declare pm_handleConnection.simps [simp del]

text \<open>
  The accept loop takes a slot of the semaphore \<open>connSem\<close> per connection and closes a connection
  that finds none; the goroutine of the connection gives the slot back when its loop ends.
\<close>

record pm_server =
  ps_pm :: Portmapper
  ps_conns :: "(nat, pm_conn) gomap"
  ps_connSem :: nat

definition pm_serving :: "Portmapper \<Rightarrow> pm_server" where
  "pm_serving pm = \<lparr>ps_pm = pm, ps_conns = [], ps_connSem = 0\<rparr>"

definition pm_accept :: "nat \<Rightarrow> string option \<Rightarrow> bytes \<Rightarrow> pm_server \<Rightarrow> pm_server" where
  "pm_accept i remote stream s =
     (if ps_connSem s < DefaultMaxPortmapperConns
      then s\<lparr>ps_connSem := ps_connSem s + 1,
             ps_conns := AList.update i
               \<lparr>pc_remote = remote, pc_reader = NewRecordMarkingReader stream, pc_written = []\<rparr> (ps_conns s)\<rparr>
      else s)"

definition pm_serve :: "bool \<Rightarrow> nat \<Rightarrow> pm_server \<Rightarrow> pm_server" where
  "pm_serve can_write i s =
     (case map_of (ps_conns s) i of
        None \<Rightarrow> s
      | Some c \<Rightarrow>
          if pm_done (ps_pm s) then s\<lparr>ps_conns := AList.delete i (ps_conns s), ps_connSem := ps_connSem s - 1\<rparr>
          else
            (case pm_turn can_write c (ps_pm s) of
               (True, c', pm) \<Rightarrow> s\<lparr>ps_pm := pm, ps_conns := AList.update i c' (ps_conns s)\<rparr>
             | (False, _, pm) \<Rightarrow>
                 s\<lparr>ps_pm := pm, ps_conns := AList.delete i (ps_conns s), ps_connSem := ps_connSem s - 1\<rparr>))"

text \<open>Connections take their turns in any order, between calls of the service's own interface.\<close>

inductive pm_step :: "pm_server \<Rightarrow> pm_server \<Rightarrow> bool" where
  accept: "\<not> pm_done (ps_pm s) \<Longrightarrow> map_of (ps_conns s) i = None \<Longrightarrow> pm_step s (pm_accept i remote stream s)"
| serve: "pm_step s (pm_serve can_write i s)"
| register: "pm_step s (s\<lparr>ps_pm := RegisterService prog vers prot port (ps_pm s)\<rparr>)"
| unregister: "pm_step s (s\<lparr>ps_pm := UnregisterService prog vers prot (ps_pm s)\<rparr>)"
| stop: "pm_step s (s\<lparr>ps_pm := pm_Stop (ps_pm s)\<rparr>)"

section \<open>The registry as a map\<close>

type_synonym service = "u32 \<times> u32 \<times> u32"

definition mapping_key :: "PortMapping \<Rightarrow> service" where
  "mapping_key m = (pm_Program m, pm_Version m, pm_Protocol m)"

definition table :: "Portmapper \<Rightarrow> service \<rightharpoonup> u32" where
  "table pm = map_of (map (\<lambda>m. (mapping_key m, pm_Port m)) (mappings pm))"

definition pm_ok :: "Portmapper \<Rightarrow> bool" where
  "pm_ok pm \<longleftrightarrow> distinct (map mapping_key (mappings pm))"

lemma mapping_matches_key: "mapping_matches prog vers prot m \<longleftrightarrow> mapping_key m = (prog, vers, prot)"
  by (auto simp: mapping_matches_def mapping_key_def)

lemma mapping_key_port [simp]: "mapping_key (m\<lparr>pm_Port := p\<rparr>) = mapping_key m"
  by (simp add: mapping_key_def)

lemma register_loop_keys:
  "mapping_key ` set (register_loop prog vers prot port ms) = insert (prog, vers, prot) (mapping_key ` set ms)"
  by (induction ms) (auto simp: mapping_matches_key, auto simp: mapping_key_def)

lemma unregister_loop_keys: "set (unregister_loop prog vers prot ms) \<subseteq> set ms"
  by (induction ms) auto

lemma pm_ok_NewPortmapper: "pm_ok NewPortmapper" "table NewPortmapper = Map.empty"
  by (simp_all add: pm_ok_def table_def NewPortmapper_def)

lemma pm_ok_RegisterService: "pm_ok pm \<Longrightarrow> pm_ok (RegisterService prog vers prot port pm)"
proof -
  have "distinct (map mapping_key ms) \<Longrightarrow> distinct (map mapping_key (register_loop prog vers prot port ms))" for ms
    by (induction ms) (auto simp: mapping_matches_key register_loop_keys)
  then show "pm_ok pm \<Longrightarrow> ?thesis" by (simp add: pm_ok_def RegisterService_def)
qed

lemma pm_ok_UnregisterService: "pm_ok pm \<Longrightarrow> pm_ok (UnregisterService prog vers prot pm)"
proof -
  have "distinct (map mapping_key ms) \<Longrightarrow> distinct (map mapping_key (unregister_loop prog vers prot ms))" for ms
    by (induction ms) (auto dest: subsetD [OF unregister_loop_keys])
  then show "pm_ok pm \<Longrightarrow> ?thesis" by (simp add: pm_ok_def UnregisterService_def)
qed

lemma table_RegisterService:
  "table (RegisterService prog vers prot port pm) = (table pm)((prog, vers, prot) \<mapsto> port)"
proof -
  have "map_of (map (\<lambda>m. (mapping_key m, pm_Port m)) (register_loop prog vers prot port ms)) =
      (map_of (map (\<lambda>m. (mapping_key m, pm_Port m)) ms))((prog, vers, prot) \<mapsto> port)" for ms
    by (induction ms) (auto simp: mapping_matches_key mapping_key_def fun_eq_iff)
  then show ?thesis by (simp add: table_def RegisterService_def)
qed

lemma table_UnregisterService:
  "pm_ok pm \<Longrightarrow> table (UnregisterService prog vers prot pm) = (table pm)((prog, vers, prot) := None)"
proof -
  have "distinct (map mapping_key ms) \<Longrightarrow>
      map_of (map (\<lambda>m. (mapping_key m, pm_Port m)) (unregister_loop prog vers prot ms)) =
      (map_of (map (\<lambda>m. (mapping_key m, pm_Port m)) ms))((prog, vers, prot) := None)" for ms
  proof (induction ms)
    case (Cons m ms)
    show ?case
    proof (cases "mapping_key m = (prog, vers, prot)")
      case True
      with Cons.prems have "map_of (map (\<lambda>m. (mapping_key m, pm_Port m)) ms) (prog, vers, prot) = None"
        by (auto simp: map_of_eq_None_iff image_iff)
      with True show ?thesis by (auto simp: mapping_matches_key fun_eq_iff)
    qed (use Cons in \<open>auto simp: mapping_matches_key fun_eq_iff\<close>)
  qed simp
  then show "pm_ok pm \<Longrightarrow> ?thesis" by (simp add: table_def UnregisterService_def pm_ok_def)
qed

lemma pm_GetPort_table:
  "pm_GetPort prog vers prot pm = (case table pm (prog, vers, prot) of Some p \<Rightarrow> p | None \<Rightarrow> 0)"
proof -
  have "(case find (mapping_matches prog vers prot) ms of Some m \<Rightarrow> pm_Port m | None \<Rightarrow> 0) =
      (case map_of (map (\<lambda>m. (mapping_key m, pm_Port m)) ms) (prog, vers, prot) of Some p \<Rightarrow> p | None \<Rightarrow> 0)" for ms
    by (induction ms) (auto simp: mapping_matches_key)
  then show ?thesis by (simp add: table_def pm_GetPort_def)
qed

text \<open>What a client of a registry relies on, and what a history of its operations leaves behind.\<close>

datatype ('k, 'p) reg_op = Reg 'k 'p | Unreg 'k

primrec op_key :: "('k, 'p) reg_op \<Rightarrow> 'k" where
  "op_key (Reg k p) = k"
| "op_key (Unreg k) = k"

primrec op_port :: "('k, 'p) reg_op \<Rightarrow> 'p option" where
  "op_port (Reg k p) = Some p"
| "op_port (Unreg k) = None"

locale service_registry =
  fixes reg :: "'k \<Rightarrow> 'p \<Rightarrow> 's \<Rightarrow> 's"
    and unreg :: "'k \<Rightarrow> 's \<Rightarrow> 's"
    and ok :: "'s \<Rightarrow> bool"
    and tab :: "'s \<Rightarrow> 'k \<rightharpoonup> 'p"
  assumes ok_reg: "ok s \<Longrightarrow> ok (reg k p s)"
    and ok_unreg: "ok s \<Longrightarrow> ok (unreg k s)"
    and tab_reg: "tab (reg k p s) = (tab s)(k \<mapsto> p)"
    and tab_unreg: "ok s \<Longrightarrow> tab (unreg k s) = (tab s)(k := None)"
begin

primrec apply_op :: "('k, 'p) reg_op \<Rightarrow> 's \<Rightarrow> 's" where
  "apply_op (Reg k p) s = reg k p s"
| "apply_op (Unreg k) s = unreg k s"

lemma ok_apply_op: "ok s \<Longrightarrow> ok (apply_op x s)"
  by (cases x) (simp_all add: ok_reg ok_unreg)

lemma tab_apply_op: "ok s \<Longrightarrow> tab (apply_op x s) = (tab s)(op_key x := op_port x)"
  by (cases x) (simp_all add: tab_reg tab_unreg)

lemma tab_history:
  "ok s \<Longrightarrow> tab (fold apply_op ops s) k =
    (case find (\<lambda>x. op_key x = k) (rev ops) of None \<Rightarrow> tab s k | Some x \<Rightarrow> op_port x)"
proof (induction ops arbitrary: s)
  case (Cons x ops)
  have app: "find P (xs @ [y]) = (case find P xs of None \<Rightarrow> if P y then Some y else None | r \<Rightarrow> r)" for P xs and y :: "('k, 'p) reg_op"
    by (induction xs) auto
  from Cons.IH [OF ok_apply_op [OF Cons.prems]] show ?case
    by (auto simp: app tab_apply_op [OF Cons.prems] split: option.splits)
qed simp

end

interpretation pmap: service_registry
  "\<lambda>(prog, vers, prot) port. RegisterService prog vers prot port"
  "\<lambda>(prog, vers, prot). UnregisterService prog vers prot" pm_ok table
  by unfold_locales
    (auto simp: pm_ok_RegisterService pm_ok_UnregisterService table_RegisterService table_UnregisterService)

text \<open>The operations of the service's interface as functions on the portmapper.\<close>

definition pm_op :: "(service, u32) reg_op \<Rightarrow> Portmapper \<Rightarrow> Portmapper" where
  "pm_op x =
     (case x of
        Reg (prog, vers, prot) port \<Rightarrow> RegisterService prog vers prot port
      | Unreg (prog, vers, prot) \<Rightarrow> UnregisterService prog vers prot)"

lemma pm_op_apply: "pm_op = pmap.apply_op"
  by (rule ext, rule ext, rename_tac x s, case_tac x) (auto simp: pm_op_def split: prod.splits)

section \<open>Calls over the wire\<close>

lemma skipAuth_alt:
  "skipAuth = rbind xdrDecodeUint32 (\<lambda>flavor. rbind xdrDecodeUint32 (\<lambda>len.
     if unat len > MAX_RPC_AUTH_LENGTH
     then rfail (ErrText ''auth body length exceeds MAX_RPC_AUTH_LENGTH'')
     else rbind (rd_full (unat len)) (\<lambda>_. rbind (rd_full (pad_len (unat len))) (\<lambda>_. rreturn ()))))"
proof -
  have "(if len > 0 then rbind (rd_full (unat len)) (\<lambda>_.
           let pad = (4 - len mod 4) mod 4
           in if pad > 0 then rbind (rd_full (unat pad)) (\<lambda>_. rreturn ()) else rreturn ())
       else rreturn ()) =
     rbind (rd_full (unat len)) (\<lambda>_. rbind (rd_full (pad_len (unat len))) (\<lambda>_. rreturn ()))" for len :: u32
    by (cases "len = 0"; cases "(4 - len mod 4) mod 4 = 0")
      (auto simp: unat_word_pad [symmetric] word_gt_0 rbind_def rd_full_def rreturn_def fun_eq_iff Let_def
          pad_len_def [of 0] split: prod.splits sum.splits)
  moreover have "(len > of_nat MAX_RPC_AUTH_LENGTH) = (unat len > MAX_RPC_AUTH_LENGTH)" for len :: u32
    by (simp add: word_less_nat_alt)
  ultimately show ?thesis unfolding skipAuth_def by presburger
qed

lemma skipAuth_app [read_simps]:
  assumes "length b \<le> MAX_RPC_AUTH_LENGTH"
  shows "skipAuth (encode_opaque_auth f b @ rest) = (Inr (), rest)"
proof -
  have "unat (of_nat (length b) :: u32) = length b" using assms by (simp add: unat_of_nat)
  with assms show ?thesis by (simp add: skipAuth_alt encode_opaque_auth_def rbind_def read_simps)
qed

text \<open>A call as a client sends it, with no authentication.\<close>

definition pm_request :: "u32 \<Rightarrow> u32 \<Rightarrow> u32 \<Rightarrow> u32 \<Rightarrow> bytes \<Rightarrow> bytes" where
  "pm_request xid prog vers prc args =
     be32 xid @ be32 RPC_CALL @ be32 2 @ be32 prog @ be32 vers @ be32 prc @
     encode_opaque_auth 0 [] @ encode_opaque_auth 0 [] @ args"

lemma read_call_header_app [read_simps]:
  "read_call_header (pm_request xid prog vers prc args) = (Inr (xid, prog, vers, prc), args)"
  by (simp add: read_call_header_def pm_request_def rbind_def read_simps)

lemma read_mapping_app [read_simps]:
  "read_mapping (be32 prog @ be32 vers @ be32 prot @ be32 port @ rest) = (Inr (prog, vers, prot, port), rest)"
  by (simp add: read_mapping_def rbind_def read_simps)

definition rpcb_args :: "u32 \<Rightarrow> u32 \<Rightarrow> string \<Rightarrow> string \<Rightarrow> string \<Rightarrow> bytes" where
  "rpcb_args prog vers netid uaddr owner =
     be32 prog @ be32 vers @ xdrEncodeString netid @ xdrEncodeString uaddr @ xdrEncodeString owner"

definition xdr_text :: "string \<Rightarrow> bool" where
  "xdr_text s \<longleftrightarrow> length s \<le> MAX_XDR_STRING_LENGTH \<and> CHR 0x00 \<notin> set s"

lemma read_rpcb_args [read_simps]:
  assumes "xdr_text netid"
  shows "read_rpcb (rpcb_args prog vers netid uaddr owner) =
    (Inr (prog, vers, netid), xdrEncodeString uaddr @ xdrEncodeString owner)"
  using assms by (simp add: xdr_text_def read_rpcb_def rpcb_args_def rbind_def read_simps)

text \<open>The port of a universal address on an IPv4 host is read back.\<close>

lemma uaddr_port_of: "uaddr_port (uaddr_of (dotted [a, b, c, d]) port) = port"
proof -
  let ?hi = "unat (port div 256)" and ?lo = "unat (port mod 256)"
  have big: "v \<in> set [unat a, unat b, unat c, unat d, ?hi, ?lo] \<Longrightarrow> int v < 2 ^ 63" for v
  proof -
    have u: "unat (w :: u32) < 2 ^ 63" for w using unat_u32_less [of w] by simp
    have o: "unat x < 2 ^ 63" for x :: byte using unsigned_less [of x, where ?'a = nat] by simp
    assume "v \<in> set [unat a, unat b, unat c, unat d, ?hi, ?lo]"
    then have "v < 2 ^ 63"
      using u [of "port div 256"] u [of "port mod 256"] o [of a] o [of b] o [of c] o [of d] by auto
    then show ?thesis by (metis of_nat_less_iff of_nat_numeral of_nat_power)
  qed
  have five: "length [unat b, unat c, unat d, ?hi, ?lo] = 5" by simp
  have whole: "itoa (unat a) @ concat (map (\<lambda>m. ''.'' @ itoa m) [unat b, unat c, unat d, ?hi, ?lo]) = uaddr_of (dotted [a, b, c, d]) port"
    by (simp add: uaddr_of_def dotted_itoa)
  have scan: "Sscanf_dots 5 (uaddr_of (dotted [a, b, c, d]) port) = Some (map int [unat a, unat b, unat c, unat d, ?hi, ?lo])"
    unfolding five [symmetric] whole [symmetric] by (rule Sscanf_dots_print) (use big in simp)
  have "unat port = ?hi * 256 + ?lo" by (simp add: unat_div unat_mod)
  then have "int ?hi * 256 + int ?lo = int (unat port)" by simp
  then have sum: "word_of_int (int ?hi * 256 + int ?lo) = port" by simp
  have "uaddr_of (dotted [a, b, c, d]) port \<noteq> []" by (simp add: uaddr_of_def)
  then show ?thesis unfolding uaddr_port_def scan using sum by simp
qed

lemma uaddr_xdr_text: "xdr_text (uaddr_of (dotted [a, b, c, d]) port)"
proof -
  have len: "length (itoa (unat w)) \<le> 10" for w :: u32
    using length_itoa [of "unat w" 9] unat_u32_less [of w] by simp
  have dig: "CHR 0x00 \<notin> set (itoa n)" for n
    using itoa_digits [of n] by (auto simp: list_all_iff is_digit_def)
  have "CHR 0x00 \<notin> set (dotted [a, b, c, d])"
    using dotted_chars [of "CHR 0x00" a b c d] by (auto simp: is_digit_def)
  with len [of "port div 256"] len [of "port mod 256"] length_dotted [of a b c d] dig show ?thesis
    by (simp add: xdr_text_def uaddr_of_def)
qed

section \<open>Invariant of the running service\<close>

lemma pm_ok_handleCall: "pm_ok pm \<Longrightarrow> pm_ok (snd (pm_handleCall data remote pm))"
proof -
  assume ok: "pm_ok pm"
  have "pm_ok (snd (handleSet r remote pm))" "pm_ok (snd (handleUnset r remote pm))"
    "pm_ok (snd (handleRpcbSet r pm))" "pm_ok (snd (handleRpcbUnset r pm))" for r
    using ok by (auto simp: handleSet_def handleUnset_def handleRpcbSet_def handleRpcbUnset_def Let_def
        pm_ok_RegisterService pm_ok_UnregisterService split: sum.splits)
  then have "pm_ok (snd (pm_dispatch vers prc r remote pm))" for vers prc r
    using ok by (simp add: pm_dispatch_def)
  then show ?thesis
    using ok by (auto simp: pm_handleCall_def split: prod.splits sum.splits option.splits) (metis snd_conv)+
qed

lemma pm_ok_turn: "pm_turn w c pm = (b, c', pm') \<Longrightarrow> pm_ok pm \<Longrightarrow> pm_ok pm'"
  using pm_ok_handleCall [of pm _ "pc_remote c"]
  by (auto simp: pm_turn_def split: prod.splits sum.splits option.splits if_splits) (metis snd_conv)+

definition pm_inv :: "pm_server \<Rightarrow> bool" where
  "pm_inv s \<longleftrightarrow> pm_ok (ps_pm s) \<and> gm_ok (ps_conns s) \<and> ps_connSem s = length (ps_conns s) \<and>
     ps_connSem s \<le> DefaultMaxPortmapperConns"

lemma pm_inv_leave:
  assumes "pm_inv s" and "map_of (ps_conns s) i = Some c" and "pm_ok pm"
  shows "pm_inv (s\<lparr>ps_pm := pm, ps_conns := AList.delete i (ps_conns s), ps_connSem := ps_connSem s - 1\<rparr>)"
  using assms length_delete_present [of "ps_conns s" i c] by (auto simp: pm_inv_def)

lemma pm_ok_Stop: "pm_ok (pm_Stop pm) = pm_ok pm"
  by (simp add: pm_ok_def pm_Stop_def)

lemma pm_inv_step: "pm_step s s' \<Longrightarrow> pm_inv s \<Longrightarrow> pm_inv s'"
proof (induction rule: pm_step.induct)
  case (serve s w i)
  show ?case
  proof (cases "map_of (ps_conns s) i")
    case (Some c)
    obtain b c' pm where t: "pm_turn w c (ps_pm s) = (b, c', pm)" by (metis prod_cases3)
    then have "pm_ok pm" using serve pm_ok_turn by (auto simp: pm_inv_def)
    with Some t serve pm_inv_leave [OF serve Some, of pm] pm_inv_leave [OF serve Some, of "ps_pm s"] show ?thesis
      by (auto simp: pm_serve_def pm_inv_def length_update_old split: bool.splits)
  qed (use serve in \<open>simp add: pm_serve_def\<close>)
qed (auto simp: pm_inv_def pm_accept_def length_update_new pm_ok_RegisterService pm_ok_UnregisterService
    pm_ok_Stop)

section \<open>Properties\<close>

text \<open>
  C32: In every state a running portmapper can reach, whatever connections are accepted, whatever
  bytes they carry, in whatever order their calls are served and interleaved with registrations
  from the server itself, no service is registered twice, every open connection holds exactly one
  slot of the semaphore, and at most 100 connections are open.
\<close>

theorem portmapper_states_good:
  assumes "rtranclp pm_step (pm_serving (snd (StartOnPort True port NewPortmapper))) s"
  shows "distinct (map mapping_key (mappings (ps_pm s))) \<and> distinct (map fst (ps_conns s)) \<and>
    ps_connSem s = length (ps_conns s) \<and> length (ps_conns s) \<le> 100"
proof -
  have "pm_inv (pm_serving (snd (StartOnPort True port NewPortmapper)))"
    by (simp add: pm_inv_def pm_serving_def StartOnPort_def Let_def pm_ok_RegisterService pm_ok_NewPortmapper)
  with assms have "pm_inv s" by (induction rule: rtranclp_induct) (auto intro: pm_inv_step)
  then show ?thesis by (simp add: pm_inv_def pm_ok_def gm_ok_def)
qed

text \<open>
  C33: After any history of registrations and removals, looking a service up gives the port of the
  last operation on that program, version and protocol if it was a registration, and 0 if it was a
  removal or there was none: the list of mappings implements a finite map.
\<close>

theorem registry_history:
  "pm_GetPort prog vers prot (fold pm_op ops NewPortmapper) =
    (case find (\<lambda>x. op_key x = (prog, vers, prot)) (rev ops) of
       Some (Reg _ port) \<Rightarrow> port
     | _ \<Rightarrow> 0)"
  using pmap.tab_history [OF pm_ok_NewPortmapper(1), of ops "(prog, vers, prot)"]
  by (auto simp: pm_GetPort_table pm_op_apply pm_ok_NewPortmapper split: option.splits reg_op.splits)

text \<open>
  C34: Portmap version 2 registrations are local: a SET from an IPv4 peer outside 127.0.0.0/8 is
  answered FALSE and leaves the registry as it was, and a SET from inside is answered TRUE, after
  which GETPORT from anywhere returns the registered port.
\<close>

theorem portmap_set_local_only:
  fixes a b c d :: byte
  shows "pm_handleCall (pm_request xid PortmapperProgram 2 1 (be32 prog @ be32 vers @ be32 prot @ be32 port))
      (Some (peer_text [a, b, c, d] p)) pm =
    (Inr (makeReply xid MSG_ACCEPTED (Some (encodeBool (a = 127)))),
     if a = 127 then RegisterService prog vers prot port pm else pm) \<and>
    pm_handleCall (pm_request xid' PortmapperProgram 2 3 (be32 prog @ be32 vers @ be32 prot @ be32 0))
      peer (RegisterService prog vers prot port pm) =
    (Inr (makeReply xid' MSG_ACCEPTED (Some (be32 port))), RegisterService prog vers prot port pm)"
proof -
  have "remote_refused (Some (peer_text [a, b, c, d] p)) \<longleftrightarrow> a \<noteq> 127"
    by (simp add: remote_refused_def SplitHostPort_peer ParseIP_def ParseAddr_dotted IsLoopback_v4)
  moreover have "pm_GetPort prog vers prot (RegisterService prog vers prot port pm) = port"
    by (simp add: pm_GetPort_table table_RegisterService)
  ultimately show ?thesis
    using read_mapping_app [of prog vers prot port "[]"] read_mapping_app [of prog vers prot 0 "[]"]
    by (simp add: pm_handleCall_def read_simps pm_dispatch_def handleSet_def handleGetPort_def encodePort_def)
qed

text \<open>
  C35: Rpcbind registrations are open to everyone: whoever the peer is, a version 3 or 4 SET for
  the netid tcp with a universal address on an IPv4 host and a port that is not 0 registers the
  port, and GETADDR then answers with the portmapper's own address and that port.
\<close>

theorem rpcbind_set_open:
  assumes "v = 3 \<or> v = 4" and "0 < port" and "xdr_text owner"
  shows "pm_handleCall
      (pm_request xid PortmapperProgram v 1 (rpcb_args prog vers ''tcp'' (uaddr_of (dotted [a, b, c, d]) port) owner))
      peer pm = (Inr (makeReply xid MSG_ACCEPTED (Some (encodeBool True))), RegisterService prog vers IPPROTO_TCP port pm) \<and>
    pm_handleCall (pm_request xid' PortmapperProgram v 3 (rpcb_args prog vers ''tcp'' [] owner))
      peer' (RegisterService prog vers IPPROTO_TCP port pm) =
    (Inr (makeReply xid' MSG_ACCEPTED (Some (xdrEncodeString (uaddr_of (own_addr pm) port)))),
     RegisterService prog vers IPPROTO_TCP port pm)"
proof -
  have t: "xdr_text ''tcp''" by (simp add: xdr_text_def)
  have w: "PortmapperProgram = PortmapperProgram" "v \<noteq> 2" using assms(1) by auto
  have u: "xdrDecodeString (xdrEncodeString (uaddr_of (dotted [a, b, c, d]) port) @ rest) =
      (Inr (uaddr_of (dotted [a, b, c, d]) port), rest)" for rest
    using uaddr_xdr_text [of a b c d port] by (simp add: xdr_text_def xdrDecodeString_app)
  have "handleRpcbSet (rpcb_args prog vers ''tcp'' (uaddr_of (dotted [a, b, c, d]) port) owner) pm =
      (encodeBool True, RegisterService prog vers IPPROTO_TCP port pm)"
    using assms(2) by (simp add: handleRpcbSet_def rbind_def read_rpcb_args [OF t] u rreturn_app uaddr_port_of
        rpcb_protocol_def Let_def)
  moreover have "own_addr (RegisterService prog vers IPPROTO_TCP port pm) = own_addr pm"
    by (simp add: own_addr_def RegisterService_def)
  then have "handleGetAddr (RegisterService prog vers IPPROTO_TCP port pm) (rpcb_args prog vers ''tcp'' [] owner) =
      xdrEncodeString (uaddr_of (own_addr pm) port)"
    using assms(2) by (simp add: handleGetAddr_def read_rpcb_args [OF t] pm_GetPort_table table_RegisterService Let_def)
  ultimately show ?thesis
    using assms(1) w by (auto simp: pm_handleCall_def read_simps pm_dispatch_def)
qed

theorem rpcbind_set_open_witness:
  "pm_handleCall
      (pm_request 7 PortmapperProgram 3 1 (rpcb_args 100003 3 ''tcp'' (uaddr_of (dotted [10, 0, 0, 9]) 2049) ''root''))
      (Some (peer_text [10, 0, 0, 9] 40000)) NewPortmapper =
    (Inr (makeReply 7 MSG_ACCEPTED (Some (encodeBool True))), RegisterService 100003 3 IPPROTO_TCP 2049 NewPortmapper) \<and>
    uaddr_of (own_addr NewPortmapper) 2049 = ''0.0.0.0.8.1''"
proof (rule conjI)
  show "uaddr_of (own_addr NewPortmapper) 2049 = ''0.0.0.0.8.1''" by code_simp
qed (use rpcbind_set_open [of 3 2049 "''root''" 7 100003 3 10 0 0 9 "Some (peer_text [10, 0, 0, 9] 40000)"
    NewPortmapper] in \<open>simp add: xdr_text_def\<close>)

theorem portmapper_states_good_witness:
  "let s = pm_accept 1 None [] (pm_serving (snd (StartOnPort True 111 NewPortmapper)))
   in distinct (map mapping_key (mappings (ps_pm s))) \<and> ps_connSem s = 1 \<and> length (mappings (ps_pm s)) = 6"
  using portmapper_states_good [of 111 "pm_accept 1 None [] (pm_serving (snd (StartOnPort True 111 NewPortmapper)))",
      OF r_into_rtranclp, OF pm_step.accept]
  by (simp add: pm_serving_def pm_accept_def StartOnPort_def RegisterService_def NewPortmapper_def mapping_matches_def Let_def)

text \<open>
  The guard of SET takes a peer whose host is no IP address for a local one.  A link-local IPv6
  address carries a zone, which \<open>net.ParseIP\<close> does not accept.
\<close>

theorem zoned_peer_not_refused: "\<not> remote_refused (Some ''[fe80::1%eth0]:40000'')"
  by (simp add: remote_refused_def SplitHostPort_def ParseIP_def ParseAddr_def parseIPv6_def)

text \<open>GETADDR and SET disagree on a netid that is neither tcp nor udp.\<close>

theorem unknown_netid_not_found:
  "handleGetAddr (RegisterService prog vers (rpcb_protocol ''sctp'') port NewPortmapper)
    (rpcb_args prog vers ''sctp'' uaddr owner) = encodeEmptyString"
  using read_rpcb_args [of "''sctp''" prog vers uaddr owner]
  by (simp add: xdr_text_def handleGetAddr_def rpcb_protocol_def pm_GetPort_table table_RegisterService
      pm_ok_NewPortmapper encodeEmptyString_def)

end
