(* ===== verification/Server.thy ===== *)
theory Server
  imports ServerTheorems Portmapper
begin

text \<open>
  The network server (\<open>server.go\<close>): its options and start, the accounting of connections, the
  accept loop and the loop that serves a connection.  The sockets are the outside world: whether an
  address can be bound, which bytes a peer sends and whether it takes a reply are arguments.  A
  connection is known by a number.  With record marking, the framing of standard clients, a call
  has its arguments in its own record.  Without it the next call starts where the handler of the
  last one stopped reading: how far that is depends on the branch the handler took, and is another
  argument.
\<close>

section \<open>State\<close>

record ServerOptions =
  so_Name :: string
  so_UID :: u32
  so_GID :: u32
  so_ReadOnly :: bool
  so_Port :: int
  so_MountPort :: int
  so_Hostname :: string
  so_Debug :: bool
  so_UsePortmapper :: bool
  so_UseRecordMarking :: bool

text \<open>
  The address of a peer: what \<open>RemoteAddr().String()\<close> gives, and the IP text and port when it is
  a \<open>net.TCPAddr\<close>.
\<close>

record remote_addr =
  ra_text :: string
  ra_tcp :: "(string \<times> int) option"

text \<open>
  The goroutine of a connection: \<open>rc_limiter\<close> is the rate limiter it found when it started.  The
  limiters are objects that \<open>UpdatePolicyOptions\<close> replaces while connections hold on to the one
  they have, so the server keeps the current one's number and the replaced ones.
\<close>

record rpc_conn =
  rc_remote :: remote_addr
  rc_ID :: string
  rc_limiter :: "nat option"
  rc_marked :: bool
  rc_reader :: RecordMarkingReader
  rc_written :: bytes
  rc_closed :: bool

record connectionState =
  lastActivity :: time

record ('fs, 'f) Server =
  srv_options :: ServerOptions
  srv_handler :: "('fs, 'f) AbsfsNFS option"
  srv_listening :: bool
  srv_portmapper :: "Portmapper option"
  srv_writeVerf :: bytes
  srv_idleLoop :: "duration option"
  activeConns :: "(nat, connectionState) gomap"
  connCount :: int
  nextConnID :: u64
  acceptErrs :: int
  srv_done :: bool
  srv_conns :: "(nat, rpc_conn) gomap"
  srv_limiter :: nat
  srv_old_limiters :: "(nat, RateLimiter) gomap"

definition NewServer :: "time \<Rightarrow> ServerOptions \<Rightarrow> ('fs, 'f) Server result" where
  "NewServer now options =
     (if so_Port options < 0 then Inl (ErrText ''invalid port'')
      else
        let options = (if so_Hostname options = [] then options\<lparr>so_Hostname := ''localhost''\<rparr> else options)
        in Inr \<lparr>srv_options = options, srv_handler = None, srv_listening = False, srv_portmapper = None,
                srv_writeVerf = be64 (word_of_int (now - unix_epoch * second)), srv_idleLoop = None,
                activeConns = [], connCount = 0, nextConnID = 0, acceptErrs = 0, srv_done = False, srv_conns = [],
                srv_limiter = 0, srv_old_limiters = []\<rparr>)"

text \<open>The replies of WRITE and COMMIT carry the verifier of the server that holds the handler.\<close>

definition SetHandler :: "('fs, 'f) AbsfsNFS \<Rightarrow> ('fs, 'f) Server \<Rightarrow> ('fs, 'f) Server" where
  "SetHandler h s = s\<lparr>srv_handler := Some (h\<lparr>writeVerf := srv_writeVerf s\<rparr>)\<rparr>"

definition srv_GetPort :: "('fs, 'f) Server \<Rightarrow> int" where
  "srv_GetPort s = so_Port (srv_options s)"

section \<open>Start\<close>

definition minute :: duration where
  "minute = 60 * second"

text \<open>The interval of the idle check when the loop starts, and after a tick.\<close>

definition check_interval :: "TuningOptions \<Rightarrow> duration" where
  "check_interval t =
     (if t_IdleTimeout t > 0 then let half = t_IdleTimeout t div 2 in if half < minute then half else minute
      else minute)"

definition next_interval :: "TuningOptions \<Rightarrow> duration \<Rightarrow> duration" where
  "next_interval t cur =
     (if t_IdleTimeout t > 0 then let new = t_IdleTimeout t div 2 in if new < minute then new else cur
      else cur)"

text \<open>
  \<open>buildTLS\<close> is the outcome of \<open>BuildConfig\<close>, \<open>bindTo\<close> that of \<open>net.Listen\<close> or \<open>tls.Listen\<close> on an
  address: the port that is bound.
\<close>

definition Listen ::
    "(TLSConfig \<Rightarrow> goerr option) \<Rightarrow> (string \<Rightarrow> int result) \<Rightarrow> ('fs, 'f) Server \<Rightarrow> unit result \<times> ('fs, 'f) Server" where
  "Listen buildTLS bindTo s =
     (case srv_handler s of
        None \<Rightarrow> (Inl (ErrText ''no handler set''), s)
      | Some h \<Rightarrow>
          let s = (if t_IdleTimeout (tuning h) > 0 then s\<lparr>srv_idleLoop := Some (check_interval (tuning h))\<rparr> else s);
              addr = so_Hostname (srv_options s) @ '':'' @ itoa (nat (so_Port (srv_options s)))
          in case (case p_TLS (policy h) of
                     Some tls \<Rightarrow> if Enabled tls then buildTLS tls else None
                   | None \<Rightarrow> None) of
               Some e \<Rightarrow> (Inl (Wrap ''failed to build TLS config: '' e), s)
             | None \<Rightarrow>
                 (case bindTo addr of
                    Inl e \<Rightarrow> (Inl (Wrap ''failed to listen: '' e), s)
                  | Inr port \<Rightarrow>
                      (Inr (),
                       s\<lparr>srv_options := (if so_Port (srv_options s) = 0 then (srv_options s)\<lparr>so_Port := port\<rparr>
                                          else srv_options s),
                         srv_listening := True\<rparr>)))"

definition register_services :: "ServerOptions \<Rightarrow> Portmapper \<Rightarrow> Portmapper" where
  "register_services options pm =
     (let nfsPort = word_of_int (so_Port options);
          nfsPort = (if nfsPort = 0 then 2049 else nfsPort);
          pm = RegisterService NFS_PROGRAM NFS_V3 IPPROTO_TCP nfsPort pm;
          mountPort = word_of_int (so_MountPort options);
          mountPort = (if mountPort = 0 then nfsPort else mountPort);
          pm = RegisterService MOUNT_PROGRAM 1 IPPROTO_TCP mountPort pm
      in RegisterService MOUNT_PROGRAM MOUNT_V3 IPPROTO_TCP mountPort pm)"

definition StartWithPortmapper ::
    "bool \<Rightarrow> (TLSConfig \<Rightarrow> goerr option) \<Rightarrow> (string \<Rightarrow> int result) \<Rightarrow> ('fs, 'f) Server \<Rightarrow> unit result \<times> ('fs, 'f) Server" where
  "StartWithPortmapper pm_listen buildTLS bindTo s =
     (if srv_handler s = None then (Inl (ErrText ''no handler set''), s)
      else
        let s = s\<lparr>srv_options := (srv_options s)\<lparr>so_UseRecordMarking := True\<rparr>\<rparr>
        in case pm_Start pm_listen (SetListenAddr (so_Hostname (srv_options s)) NewPortmapper) of
             (Inl e, pm) \<Rightarrow> (Inl (Wrap ''failed to start portmapper: '' e), s\<lparr>srv_portmapper := Some pm\<rparr>)
           | (Inr _, pm) \<Rightarrow>
               (case Listen buildTLS bindTo (s\<lparr>srv_portmapper := Some pm\<rparr>) of
                  (Inl e, s) \<Rightarrow> (Inl e, s\<lparr>srv_portmapper := map_option pm_Stop (srv_portmapper s)\<rparr>)
                | (Inr _, s) \<Rightarrow>
                    (Inr (), s\<lparr>srv_portmapper := map_option (register_services (srv_options s)) (srv_portmapper s)\<rparr>)))"

section \<open>Accounting of connections\<close>

definition srv_isIPAllowed :: "string \<Rightarrow> ('fs, 'f) Server \<Rightarrow> bool" where
  "srv_isIPAllowed clientIP s =
     (case srv_handler s of
        None \<Rightarrow> True
      | Some h \<Rightarrow>
          if length (p_AllowedIPs (policy h)) = 0 then True
          else (case ParseIP clientIP of
                  None \<Rightarrow> False
                | Some ip \<Rightarrow> list_ex (ip_matches (normalizeIP ip)) (p_AllowedIPs (policy h))))"

definition registerConnection :: "nat \<Rightarrow> time \<Rightarrow> ('fs, 'f) Server \<Rightarrow> bool \<times> ('fs, 'f) Server" where
  "registerConnection i now s =
     (case srv_handler s of
        None \<Rightarrow> (True, s)
      | Some h \<Rightarrow>
          if t_MaxConnections (tuning h) > 0 \<and> connCount s \<ge> t_MaxConnections (tuning h) then (False, s)
          else (True, s\<lparr>activeConns := AList.update i \<lparr>lastActivity = now\<rparr> (activeConns s),
                        connCount := connCount s + 1\<rparr>))"

definition unregisterConnection :: "nat \<Rightarrow> ('fs, 'f) Server \<Rightarrow> ('fs, 'f) Server" where
  "unregisterConnection i s =
     (case map_of (activeConns s) i of
        None \<Rightarrow> s
      | Some _ \<Rightarrow> s\<lparr>activeConns := AList.delete i (activeConns s), connCount := connCount s - 1\<rparr>)"

definition updateConnectionActivity :: "nat \<Rightarrow> time \<Rightarrow> ('fs, 'f) Server \<Rightarrow> ('fs, 'f) Server" where
  "updateConnectionActivity i now s =
     (case map_of (activeConns s) i of
        None \<Rightarrow> s
      | Some _ \<Rightarrow> s\<lparr>activeConns := AList.update i \<lparr>lastActivity = now\<rparr> (activeConns s)\<rparr>)"

text \<open>\<open>conn.Close()\<close>: the goroutine of the connection finds it closed at its next read.\<close>

definition close_conn :: "nat \<Rightarrow> ('fs, 'f) Server \<Rightarrow> ('fs, 'f) Server" where
  "close_conn i s =
     (case map_of (srv_conns s) i of
        None \<Rightarrow> s
      | Some c \<Rightarrow> s\<lparr>srv_conns := AList.update i (c\<lparr>rc_closed := True\<rparr>) (srv_conns s)\<rparr>)"

definition close_all :: "nat list \<Rightarrow> ('fs, 'f) Server \<Rightarrow> ('fs, 'f) Server" where
  "close_all is s = fold (\<lambda>i s. unregisterConnection i (close_conn i s)) is s"

definition cleanupIdleConnections :: "time \<Rightarrow> ('fs, 'f) Server \<Rightarrow> ('fs, 'f) Server" where
  "cleanupIdleConnections now s =
     (case srv_handler s of
        None \<Rightarrow> s
      | Some h \<Rightarrow>
          if t_IdleTimeout (tuning h) \<le> 0 then s
          else close_all (map fst (filter (\<lambda>(i, st). now - lastActivity st > t_IdleTimeout (tuning h)) (activeConns s))) s)"

definition closeAllConnections :: "('fs, 'f) Server \<Rightarrow> ('fs, 'f) Server" where
  "closeAllConnections s = close_all (map fst (activeConns s)) s"

definition srv_Stop :: "('fs, 'f) Server \<Rightarrow> ('fs, 'f) Server" where
  "srv_Stop s = closeAllConnections (s\<lparr>srv_done := True, srv_listening := False,
                               srv_portmapper := map_option pm_Stop (srv_portmapper s)\<rparr>)"

section \<open>Accepting\<close>

definition accept_client :: "remote_addr \<Rightarrow> string" where
  "accept_client ra = (case SplitHostPort (ra_text ra) of Some (host, _) \<Rightarrow> host | None \<Rightarrow> ra_text ra)"

text \<open>
  What the accept loop does with a connection, up to the start of its goroutine, which draws its
  number and takes the limiter.  \<open>stream\<close> are the bytes the peer is going to send; without record
  marking they are read from the same place.
\<close>

definition srv_accept :: "nat \<Rightarrow> remote_addr \<Rightarrow> bytes \<Rightarrow> time \<Rightarrow> ('fs, 'f) Server \<Rightarrow> ('fs, 'f) Server" where
  "srv_accept i ra stream now s =
     (let s = s\<lparr>acceptErrs := 0\<rparr> in
      if \<not> srv_isIPAllowed (accept_client ra) s then s
      else
        (case registerConnection i now s of
           (False, s) \<Rightarrow> s
         | (True, s) \<Rightarrow>
             let n = nextConnID s + 1;
                 limiter = Option.bind (srv_handler s) rateLimiter
             in s\<lparr>nextConnID := n,
                  srv_conns := AList.update i
                    \<lparr>rc_remote = ra, rc_ID = ''conn-'' @ itoa (unat n),
                     rc_limiter = (if limiter = None then None else Some (srv_limiter s)), rc_marked = so_UseRecordMarking (srv_options s),
                     rc_reader = NewRecordMarkingReader stream, rc_written = [], rc_closed = False\<rparr>
                    (srv_conns s)\<rparr>))"

text \<open>
  What the loop does with an error of \<open>Accept\<close>: whether it goes on, and how long it sleeps before.
  Deadlines of the listener run out all the time and are no trouble.
\<close>

datatype accept_error = AcceptTimeout | AcceptClosed | AcceptFailed

definition accept_failed :: "accept_error \<Rightarrow> ('fs, 'f) Server \<Rightarrow> bool \<times> duration \<times> ('fs, 'f) Server" where
  "accept_failed err s =
     (if srv_done s then (False, 0, s)
      else case err of
        AcceptTimeout \<Rightarrow> (True, 0, s)
      | AcceptClosed \<Rightarrow> (False, 0, s)
      | AcceptFailed \<Rightarrow>
          if acceptErrs s < 3 then (True, second div 10, s\<lparr>acceptErrs := acceptErrs s + 1\<rparr>) else (True, 0, s))"

section \<open>Serving a connection\<close>

definition get_limiter :: "rpc_conn \<Rightarrow> ('fs, 'f) Server \<Rightarrow> RateLimiter option" where
  "get_limiter c s =
     (case rc_limiter c of
        None \<Rightarrow> None
      | Some k \<Rightarrow> if k = srv_limiter s then Option.bind (srv_handler s) rateLimiter
                  else map_of (srv_old_limiters s) k)"

definition put_limiter :: "rpc_conn \<Rightarrow> RateLimiter \<Rightarrow> ('fs, 'f) Server \<Rightarrow> ('fs, 'f) Server" where
  "put_limiter c rl s =
     (case rc_limiter c of
        None \<Rightarrow> s
      | Some k \<Rightarrow>
          if k = srv_limiter s then s\<lparr>srv_handler := map_option (\<lambda>h. h\<lparr>rateLimiter := Some rl\<rparr>) (srv_handler s)\<rparr>
          else s\<lparr>srv_old_limiters := AList.update k rl (srv_old_limiters s)\<rparr>)"

text \<open>\<open>ReadCall\<close> and \<open>WriteReply\<close> of \<open>recordMarkingConnIO\<close>.\<close>

definition ReadCall :: "RecordMarkingReader \<Rightarrow> (RPCCall \<times> bytes) result \<times> RecordMarkingReader" where
  "ReadCall rd =
     (case ReadRecord rd of
        (Inl e, rd) \<Rightarrow> (Inl e, rd)
      | (Inr data, rd) \<Rightarrow>
          (case DecodeRPCCall data of
             (Inl e, _) \<Rightarrow> (Inl e, rd)
           | (Inr call, remaining) \<Rightarrow> (Inr (call, remaining), rd)))"

definition WriteReply :: "RPCReply \<Rightarrow> bytes option" where
  "WriteReply reply = WriteRecord NewRecordMarkingWriter (EncodeRPCReply reply)"

text \<open>The same of \<open>rawConnIO\<close>, where the arguments are what follows on the connection.\<close>

definition raw_ReadCall :: "bytes \<Rightarrow> (RPCCall \<times> bytes) result \<times> bytes" where
  "raw_ReadCall conn =
     (case DecodeRPCCall conn of
        (Inl e, conn) \<Rightarrow> (Inl e, conn)
      | (Inr call, conn) \<Rightarrow> (Inr (call, conn), conn))"

definition raw_WriteReply :: "RPCReply \<Rightarrow> bytes" where
  "raw_WriteReply reply = EncodeRPCReply reply"

definition conn_ReadCall :: "rpc_conn \<Rightarrow> (RPCCall \<times> bytes) result \<times> rpc_conn" where
  "conn_ReadCall c =
     (if rc_marked c then (case ReadCall (rc_reader c) of (r, rd) \<Rightarrow> (r, c\<lparr>rc_reader := rd\<rparr>))
      else (case raw_ReadCall (rm_r (rc_reader c)) of (r, rest) \<Rightarrow> (r, c\<lparr>rc_reader := (rc_reader c)\<lparr>rm_r := rest\<rparr>\<rparr>)))"

definition conn_WriteReply :: "RPCReply \<Rightarrow> rpc_conn \<Rightarrow> bytes option" where
  "conn_WriteReply reply c = (if rc_marked c then WriteReply reply else Some (raw_WriteReply reply))"

text \<open>The bytes that a handler has read from a connection without record marking.\<close>

definition conn_consume :: "nat \<Rightarrow> rpc_conn \<Rightarrow> rpc_conn" where
  "conn_consume n c =
     (if rc_marked c then c else c\<lparr>rc_reader := (rc_reader c)\<lparr>rm_r := drop n (rm_r (rc_reader c))\<rparr>\<rparr>)"

text \<open>\<open>lookup\<close> is \<open>net.LookupPort\<close>, used for peers that are no TCP address.\<close>

definition auth_context :: "(string \<Rightarrow> int option) \<Rightarrow> remote_addr \<Rightarrow> RPCCredential \<Rightarrow> AuthContext" where
  "auth_context lookup ra cred =
     (let (ip, port) =
        (case ra_tcp ra of
           Some (ip, port) \<Rightarrow> (ip, port)
         | None \<Rightarrow>
             (case SplitHostPort (ra_text ra) of
                Some (host, port) \<Rightarrow> (host, case lookup port of Some p \<Rightarrow> p | None \<Rightarrow> 0)
              | None \<Rightarrow> ([], 0)))
      in \<lparr>ClientIP = ip, ClientPort = port, ctx_Credential = cred, AuthSys = None, ClientCert = None,
          TLSEnabled = False, EffectiveUID = 0, EffectiveGID = 0\<rparr>)"

definition denied_reply :: "RPCMsgHeader \<Rightarrow> RPCReply" where
  "denied_reply hdr = (new_reply hdr)\<lparr>Status := MSG_DENIED\<rparr>"

text \<open>
  The outcomes that the surroundings decide for one turn of the loop: the deadlines and the write
  succeed or not, the drain and timeout choices of \<open>HandleCall\<close>, a worker pool that answers nil
  because a resize dropped the task, the number of bytes a handler reads without record marking,
  and the times of the two updates of the activity.
\<close>

record turn_env =
  te_read_deadline :: bool
  te_write_deadline :: bool
  te_write :: bool
  te_draining :: bool
  te_late :: bool
  te_dropped :: bool
  te_consumed :: nat
  te_now1 :: time
  te_now2 :: time
  te_lookup :: "string \<Rightarrow> int option"

text \<open>The check of the rate limit; true when the request may go on.\<close>

definition allow_request :: "rpc_conn \<Rightarrow> string \<Rightarrow> ('fs, 'f) Server \<Rightarrow> bool \<times> ('fs, 'f) Server" where
  "allow_request c ip s =
     (case (get_limiter c s, srv_handler s) of
        (Some rl, Some h) \<Rightarrow>
          if p_EnableRateLimiting (policy h) then
            (case AllowRequest ip (rc_ID c) (\<lambda>i. clock h (tick h + i)) rl of
               (ok, rl) \<Rightarrow> (ok, put_limiter c rl (s\<lparr>srv_handler := Some (h\<lparr>tick := tick h + 8\<rparr>)\<rparr>)))
          else (True, s)
      | _ \<Rightarrow> (True, s))"

text \<open>Writing a reply: whether the loop goes on, and the connection.\<close>

definition put_reply :: "turn_env \<Rightarrow> RPCReply \<Rightarrow> rpc_conn \<Rightarrow> bool \<times> rpc_conn" where
  "put_reply env reply c =
     (case conn_WriteReply reply c of
        Some out \<Rightarrow> if te_write env then (True, c\<lparr>rc_written := rc_written c @ out\<rparr>) else (False, c)
      | None \<Rightarrow> (False, c))"

text \<open>One turn of \<open>handleConnectionLoop\<close>: the flag tells whether the loop goes on.\<close>

definition conn_turn ::
    "turn_env \<Rightarrow> nat \<Rightarrow> rpc_conn \<Rightarrow> ('fs, 'f) Server \<Rightarrow> bool \<times> rpc_conn \<times> ('fs, 'f) Server" where
  "conn_turn env i c s =
     (if srv_done s \<or> rc_closed c \<or> \<not> te_read_deadline env then (False, c, s)
      else
        (case conn_ReadCall c of
           (Inl _, c) \<Rightarrow> (False, c, s)
         | (Inr (call, body), c) \<Rightarrow>
             let s = updateConnectionActivity i (te_now1 env) s;
                 authCtx = auth_context (te_lookup env) (rc_remote c) (Credential call)
             in case allow_request c (ClientIP authCtx) s of
                  (False, s) \<Rightarrow>
                    if te_write_deadline env
                    then (case put_reply env (denied_reply (call_Header call)) c of (go, c) \<Rightarrow> (go, c, s))
                    else (True, c, s)
                | (True, s) \<Rightarrow>
                    (case srv_handler s of
                       None \<Rightarrow> (False, c, s)
                     | Some h \<Rightarrow>
                         if te_dropped env then (False, c, s)
                         else
                           (case run_state (HandleCall (te_draining env) (te_late env) call body authCtx) h of
                              (Inl _, h) \<Rightarrow> (False, c, s\<lparr>srv_handler := Some h\<rparr>)
                            | (Inr reply, h) \<Rightarrow>
                                let s = s\<lparr>srv_handler := Some h\<rparr>; c = conn_consume (te_consumed env) c
                                in if \<not> te_write_deadline env then (False, c, s)
                                   else
                                     (case put_reply env reply c of
                                        (False, c) \<Rightarrow> (False, c, s)
                                      | (True, c) \<Rightarrow> (True, c, updateConnectionActivity i (te_now2 env) s))))))"

text \<open>The deferred calls of the loop and of its goroutine.\<close>

definition conn_end :: "nat \<Rightarrow> rpc_conn \<Rightarrow> ('fs, 'f) Server \<Rightarrow> ('fs, 'f) Server" where
  "conn_end i c s =
     (let s = (case get_limiter c s of
                 Some rl \<Rightarrow> put_limiter c (CleanupConnection (rc_ID c) rl) s
               | None \<Rightarrow> s)
      in unregisterConnection i (s\<lparr>srv_conns := AList.delete i (srv_conns s)\<rparr>))"

definition srv_turn :: "turn_env \<Rightarrow> nat \<Rightarrow> ('fs, 'f) Server \<Rightarrow> ('fs, 'f) Server" where
  "srv_turn env i s =
     (case map_of (srv_conns s) i of
        None \<Rightarrow> s
      | Some c \<Rightarrow>
          (case conn_turn env i c s of
             (True, c, s) \<Rightarrow> s\<lparr>srv_conns := AList.update i c (srv_conns s)\<rparr>
           | (False, c, s) \<Rightarrow> conn_end i c s))"

section \<open>Exporting\<close>

text \<open>\<open>AbsfsNFS.Export\<close>: the server object afterwards, and the network server that was started.\<close>

definition export_options :: "bool \<Rightarrow> int \<Rightarrow> ServerOptions" where
  "export_options ro port =
     \<lparr>so_Name = ''absfs'', so_UID = 0, so_GID = 0, so_ReadOnly = ro, so_Port = port, so_MountPort = 0,
      so_Hostname = ''localhost'', so_Debug = False, so_UsePortmapper = False, so_UseRecordMarking = False\<rparr>"

definition Export ::
    "time \<Rightarrow> (TLSConfig \<Rightarrow> goerr option) \<Rightarrow> (string \<Rightarrow> int result) \<Rightarrow> string \<Rightarrow> int \<Rightarrow> ('fs, 'f) AbsfsNFS \<Rightarrow>
     ('fs, 'f) Server result \<times> ('fs, 'f) AbsfsNFS" where
  "Export now buildTLS bindTo mount port h =
     (if mount = '''' then (Inl (ErrText ''empty mount path''), h)
      else if port < 0 then (Inl (ErrText ''invalid port''), h)
      else
        let h = h\<lparr>mountPath := mount\<rparr>
        in case NewServer now (export_options (p_ReadOnly (policy h)) port) of
             Inl e \<Rightarrow> (Inl e, h)
           | Inr server \<Rightarrow>
               (case Listen buildTLS bindTo (SetHandler h server) of
                  (Inl e, _) \<Rightarrow> (Inl e, h)
                | (Inr _, server) \<Rightarrow> (Inr server, h)))"

section \<open>Updates of the policy\<close>

definition limiter_replaced :: "PolicyOptions \<Rightarrow> bool" where
  "limiter_replaced pol \<longleftrightarrow> p_RateLimitConfig pol \<noteq> None \<or> \<not> p_EnableRateLimiting pol"

definition srv_UpdatePolicy :: "PolicyOptions \<Rightarrow> ('fs, 'f) Server \<Rightarrow> ('fs, 'f) Server" where
  "srv_UpdatePolicy pol s =
     (case srv_handler s of
        None \<Rightarrow> s
      | Some h \<Rightarrow>
          (case run_state (UpdatePolicyOptions pol) h of
             (Some _, h') \<Rightarrow> s\<lparr>srv_handler := Some h'\<rparr>
           | (None, h') \<Rightarrow>
               if limiter_replaced pol
               then s\<lparr>srv_handler := Some h', srv_limiter := srv_limiter s + 1,
                      srv_old_limiters := (case rateLimiter h of
                        Some rl \<Rightarrow> AList.update (srv_limiter s) rl (srv_old_limiters s)
                      | None \<Rightarrow> srv_old_limiters s)\<rparr>
               else s\<lparr>srv_handler := Some h'\<rparr>))"

section \<open>What the network does to a server\<close>

text \<open>Connections arrive and their goroutines take turns in any order, and idle ones are cleaned up.\<close>

inductive net_step :: "('fs, 'f) Server \<Rightarrow> ('fs, 'f) Server \<Rightarrow> bool" where
  accept: "map_of (srv_conns s) i = None \<Longrightarrow> net_step s (srv_accept i ra stream now s)"
| turn: "net_step s (srv_turn env i s)"
| accept_error: "net_step s (snd (snd (accept_failed err s)))"
| idle: "net_step s (cleanupIdleConnections now s)"
| stop: "net_step s (srv_Stop s)"

end
