(* ===== verification/Network.thy ===== *)
theory Network
  imports Server
begin

text \<open>
  What holds of a server on the network: the accounting of its connections, that whatever bytes
  arrive can do no more than the calls they carry, what a client is told, and what the portmapper
  advertises.
\<close>

section \<open>The parts of a turn\<close>

text \<open>The state after the rate limit was checked, which is all that happens when no call is handled.\<close>

definition limited_state :: "turn_env \<Rightarrow> nat \<Rightarrow> rpc_conn \<Rightarrow> RPCCall \<Rightarrow> ('fs, 'f) Server \<Rightarrow> bool \<times> ('fs, 'f) Server" where
  "limited_state env i c call s =
     allow_request c (ClientIP (auth_context (te_lookup env) (rc_remote c) (Credential call)))
       (updateConnectionActivity i (te_now1 env) s)"

lemma conn_turn_cases:
  assumes "conn_turn env i c s = (go, c', s')"
  obtains (idle) "s' = s"
  | (limited) call c1 where "s' = snd (limited_state env i c1 call s)"
  | (handled) call c1 body ctx h r h' where "srv_handler (snd (limited_state env i c1 call s)) = Some h"
      "run_state (HandleCall (te_draining env) (te_late env) call body ctx) h = (r, h')"
      "s' = (snd (limited_state env i c1 call s))\<lparr>srv_handler := Some h'\<rparr> \<or>
       s' = updateConnectionActivity i (te_now2 env) ((snd (limited_state env i c1 call s))\<lparr>srv_handler := Some h'\<rparr>)"
proof (cases "srv_done s \<or> rc_closed c \<or> \<not> te_read_deadline env")
  case True
  with assms show thesis by (intro idle) (simp add: conn_turn_def)
next
  case False
  note start = assms [unfolded conn_turn_def if_not_P [OF False]]
  obtain rc cr where read: "conn_ReadCall c = (rc, cr)" by fastforce
  show thesis
  proof (cases rc)
    case (Inl e)
    with start read show thesis by (intro idle) simp
  next
    case (Inr cb)
    obtain call body where cb: "cb = (call, body)" by fastforce
    let ?c = "cr"
    obtain ok s2 where lim: "limited_state env i ?c call s = (ok, s2)" by fastforce
    note start = start [unfolded read Inr cb prod.case sum.case Let_def, folded limited_state_def, unfolded lim prod.case]
    show thesis
    proof (cases "ok \<and> (\<exists>h. srv_handler s2 = Some h) \<and> \<not> te_dropped env")
      case False
      with start have "s' = s2" by (auto split: bool.splits option.splits if_splits prod.splits)
      with lim show thesis by (intro limited [of ?c call]) simp
    next
      case True
      then obtain h where h: "srv_handler s2 = Some h" by blast
      obtain r h' where run: "run_state (HandleCall (te_draining env) (te_late env) call body
          (auth_context (te_lookup env) (rc_remote ?c) (Credential call))) h = (r, h')" by fastforce
      from start True h run have "s' = s2\<lparr>srv_handler := Some h'\<rparr> \<or>
          s' = updateConnectionActivity i (te_now2 env) (s2\<lparr>srv_handler := Some h'\<rparr>)"
        by (auto split: sum.splits if_splits prod.splits bool.splits)
      with h run lim show thesis by (intro handled [of ?c call h]) simp_all
    qed
  qed
qed

section \<open>The accounts\<close>

definition acct :: "('fs, 'f) Server \<Rightarrow> nat list \<times> int \<times> (nat, rpc_conn) gomap" where
  "acct s = (map fst (activeConns s), connCount s, srv_conns s)"

lemma update_keys: "map_of m k = Some w \<Longrightarrow> map fst (AList.update k v m) = map fst m"
  by (induction m) (auto split: if_splits)

lemma acct_activity [simp]: "acct (updateConnectionActivity i now s) = acct s"
  by (simp add: updateConnectionActivity_def acct_def update_keys split: option.splits)

lemma acct_put_limiter [simp]: "acct (put_limiter c rl s) = acct s"
  by (simp add: put_limiter_def acct_def split: option.splits)

lemma acct_handler [simp]: "acct (s\<lparr>srv_handler := h\<rparr>) = acct s"
  by (simp add: acct_def)

lemma acct_limited [simp]: "acct (snd (limited_state env i c call s)) = acct s"
  by (simp add: limited_state_def allow_request_def split: option.splits prod.splits)

lemma acct_conn_turn: "conn_turn env i c s = (go, c', s') \<Longrightarrow> acct s' = acct s"
  by (erule conn_turn_cases) auto

text \<open>Tracked connections are distinct, counted, and each has a goroutine that will unregister it.\<close>

definition acct_ok :: "nat list \<times> int \<times> (nat, rpc_conn) gomap \<Rightarrow> bool" where
  "acct_ok a = (case a of (ks, n, cs) \<Rightarrow> distinct ks \<and> n = int (length ks) \<and> gm_ok cs \<and> set ks \<subseteq> fst ` set cs)"

lemma acct_ok_eq:
  "acct_ok (acct s) \<longleftrightarrow> gm_ok (activeConns s) \<and> connCount s = int (length (activeConns s)) \<and> gm_ok (srv_conns s) \<and>
    fst ` set (activeConns s) \<subseteq> fst ` set (srv_conns s)"
  by (simp add: acct_ok_def acct_def gm_ok_def)

lemma keys_update: "fst ` set (AList.update k v m) = insert k (fst ` set m)"
  using dom_map_of_conv_image_fst [of "AList.update k v m"] by (simp add: update_conv' dom_map_of_conv_image_fst)

lemma keys_delete: "fst ` set (AList.delete k m) = fst ` set m - {k}"
  using dom_map_of_conv_image_fst [of "AList.delete k m"] by (simp add: delete_conv' dom_map_of_conv_image_fst)

lemma map_of_keys: "map_of m k = None \<longleftrightarrow> k \<notin> fst ` set m" "map_of m k = Some v \<Longrightarrow> k \<in> fst ` set m"
  by (auto simp: map_of_eq_None_iff) (metis image_iff map_of_SomeD fst_conv)

lemma acct_ok_unregister:
  assumes "acct_ok (acct s)"
  shows "acct_ok (acct (unregisterConnection i s))"
    and "i \<notin> fst ` set (activeConns (unregisterConnection i s))"
    and "connCount (unregisterConnection i s) \<le> connCount s"
  using assms length_delete_present [of "activeConns s" i]
  by (auto simp: unregisterConnection_def acct_ok_eq keys_delete map_of_keys(1) split: option.splits)

lemma acct_ok_close: "acct_ok (acct s) \<Longrightarrow> acct_ok (acct (close_conn i s)) \<and> connCount (close_conn i s) = connCount s"
  by (auto simp: close_conn_def acct_ok_eq keys_update split: option.splits)

lemma acct_ok_close_all:
  "acct_ok (acct s) \<Longrightarrow> acct_ok (acct (close_all is s)) \<and> connCount (close_all is s) \<le> connCount s"
  unfolding close_all_def
proof (induction "is" arbitrary: s)
  case (Cons i "is")
  have c: "acct_ok (acct (close_conn i s))" "connCount (close_conn i s) = connCount s"
    using acct_ok_close [OF Cons.prems] by simp_all
  note u = acct_ok_unregister [OF c(1), of i]
  from Cons.IH [OF u(1)] u(3) c(2) show ?case by simp
qed simp

lemma acct_ok_end:
  assumes "acct_ok (acct s)"
  shows "acct_ok (acct (conn_end i c s)) \<and> connCount (conn_end i c s) \<le> connCount s"
proof -
  let ?s = "case get_limiter c s of Some rl \<Rightarrow> put_limiter c (CleanupConnection (rc_ID c) rl) s | None \<Rightarrow> s"
  have a: "acct ?s = acct s" by (simp split: option.splits)
  then have ok: "acct_ok (acct ?s)" and cc: "connCount ?s = connCount s"
    using assms by (simp_all add: acct_def)
  let ?t = "?s\<lparr>srv_conns := AList.delete i (srv_conns ?s)\<rparr>"
  have e: "conn_end i c s = unregisterConnection i ?t" by (simp add: conn_end_def Let_def)
  have swap: "unregisterConnection i ?t =
      (unregisterConnection i ?s)\<lparr>srv_conns := AList.delete i (srv_conns (unregisterConnection i ?s))\<rparr>"
    by (simp add: unregisterConnection_def split: option.splits)
  note u = acct_ok_unregister [OF ok, of i]
  have "acct_ok (acct (unregisterConnection i ?t))"
    unfolding swap using u(1,2) by (auto simp: acct_ok_eq keys_delete)
  moreover have "connCount (unregisterConnection i ?t) \<le> connCount s"
    unfolding swap using u(3) cc by simp
  ultimately show ?thesis by (simp add: e)
qed

section \<open>The handler behind the connections\<close>

text \<open>Only three things happen to the handler: a limiter is consulted, the clock is read, a call is handled.\<close>

lemma handler_frames [simp]:
  "srv_handler (updateConnectionActivity i now s) = srv_handler s"
  "srv_handler (unregisterConnection i s) = srv_handler s"
  "srv_handler (close_conn i s) = srv_handler s"
  by (simp_all add: updateConnectionActivity_def unregisterConnection_def close_conn_def split: option.splits)

lemma handler_close_all [simp]: "srv_handler (close_all is s) = srv_handler s"
  unfolding close_all_def by (induction "is" arbitrary: s) simp_all

lemma handler_register: "srv_handler (snd (registerConnection i now s)) = srv_handler s"
  by (simp add: registerConnection_def split: option.splits)

definition has_handler :: "(('fs, 'f) AbsfsNFS \<Rightarrow> bool) \<Rightarrow> ('fs, 'f) Server \<Rightarrow> bool" where
  "has_handler P s \<longleftrightarrow> (\<exists>h. srv_handler s = Some h \<and> P h)"

context serving
begin

lemma P_put_limiter:
  "has_handler P s \<Longrightarrow> has_handler P (put_limiter c rl s)"
  by (auto simp: has_handler_def put_limiter_def P_rateLimiter split: option.splits)

lemma P_limited:
  "has_handler P s \<Longrightarrow> has_handler P (snd (limited_state env i c call s))"
  by (auto simp: limited_state_def allow_request_def intro!: P_put_limiter split: option.splits prod.splits)
    (auto simp: has_handler_def P_tick)

lemma P_conn_turn:
  assumes "has_handler P s" and "conn_turn env i c s = (go, c', s')"
  shows "has_handler P s'"
  using assms(2)
proof (cases rule: conn_turn_cases)
  case (handled call c1 body ctx h r h')
  have "P h" using P_limited [OF assms(1), of env i c1 call] handled(1) by (simp add: has_handler_def)
  then have "P h'" using specD [OF HandleCall_spec _ handled(2)] by blast
  with handled(3) show ?thesis by (auto simp: has_handler_def)
qed (use assms(1) P_limited in auto)

lemma P_conn_end: "has_handler P s \<Longrightarrow> has_handler P (conn_end i c s)"
  using P_put_limiter [of s c] by (auto simp: conn_end_def Let_def has_handler_def split: option.splits)

lemma P_srv_turn:
  assumes "has_handler P s"
  shows "has_handler P (srv_turn env i s)"
proof (cases "map_of (srv_conns s) i")
  case (Some c)
  obtain go c' s' where t: "conn_turn env i c s = (go, c', s')" by (metis prod_cases3)
  from P_conn_turn [OF assms t] have "has_handler P s'" .
  with Some t P_conn_end [of s' i c'] show ?thesis by (cases go) (simp_all add: srv_turn_def has_handler_def)
qed (simp add: srv_turn_def assms)

lemma P_net_step: "net_step s s' \<Longrightarrow> has_handler P s \<Longrightarrow> has_handler P s'"
proof (induction rule: net_step.induct)
  case (accept s i ra stream now)
  let ?s = "s\<lparr>acceptErrs := 0\<rparr>"
  obtain ok s1 where r: "registerConnection i now ?s = (ok, s1)" by fastforce
  then have "srv_handler s1 = srv_handler s" using handler_register [of i now ?s] by simp
  with r accept show ?case by (cases ok) (simp_all add: srv_accept_def Let_def has_handler_def)
next
  case (turn s env i)
  then show ?case by (rule P_srv_turn)
next
  case (accept_error s err)
  then show ?case by (auto simp: accept_failed_def has_handler_def split: accept_error.splits)
next
  case (idle s now)
  then show ?case by (auto simp: cleanupIdleConnections_def has_handler_def)
next
  case (stop s)
  then show ?case by (simp add: srv_Stop_def closeAllConnections_def has_handler_def)
qed

lemma P_net_steps:
  "rtranclp net_step s s' \<Longrightarrow> has_handler P s \<Longrightarrow> has_handler P s'"
  by (induction rule: rtranclp_induct) (auto intro: P_net_step)

end

section \<open>Accounting over time\<close>

lemma acct_ok_accept:
  assumes "acct_ok (acct s)" and "map_of (srv_conns s) i = None"
  shows "acct_ok (acct (srv_accept i ra stream now s)) \<and>
    connCount (srv_accept i ra stream now s) \<le> connCount s + 1 \<and>
    (has_handler (\<lambda>h. t_MaxConnections (tuning h) > 0 \<and> connCount s \<ge> t_MaxConnections (tuning h)) s \<longrightarrow>
      connCount (srv_accept i ra stream now s) = connCount s)"
proof -
  have "map_of (activeConns s) i = None"
    using assms by (auto simp: acct_ok_eq map_of_keys(1))
  with assms show ?thesis
    by (auto simp: srv_accept_def registerConnection_def Let_def acct_ok_eq keys_update length_update_new has_handler_def
        split: option.splits)
qed

lemma acct_ok_net_step:
  assumes "net_step s s'" and "acct_ok (acct s)"
  shows "acct_ok (acct s') \<and>
    (connCount s' \<le> connCount s \<or>
     connCount s' = connCount s + 1 \<and>
     \<not> has_handler (\<lambda>h. t_MaxConnections (tuning h) > 0 \<and> connCount s \<ge> t_MaxConnections (tuning h)) s)"
  using assms
proof (induction rule: net_step.induct)
  case (accept s i ra stream now)
  from acct_ok_accept [OF accept(2,1), of ra stream now] show ?case
    by (cases "connCount (srv_accept i ra stream now s) \<le> connCount s") auto
next
  case (turn s env i)
  show ?case
  proof (cases "map_of (srv_conns s) i")
    case (Some c)
    obtain go c' s1 where t: "conn_turn env i c s = (go, c', s1)" by (metis prod_cases3)
    have a: "acct s1 = acct s" by (rule acct_conn_turn [OF t])
    then have eq: "connCount s1 = connCount s" "srv_conns s1 = srv_conns s" and ok: "acct_ok (acct s1)"
      using turn by (simp_all add: acct_def)
    show ?thesis
    proof (cases go)
      case True
      with t Some eq ok show ?thesis by (auto simp: srv_turn_def acct_ok_eq keys_update)
    next
      case False
      with t Some eq acct_ok_end [OF ok, of i c'] show ?thesis by (simp add: srv_turn_def)
    qed
  qed (simp add: srv_turn_def turn)
next
  case (accept_error s err)
  then show ?case by (simp add: accept_failed_def acct_ok_eq split: accept_error.splits)
next
  case (idle s now)
  show ?case
    using acct_ok_close_all [OF idle] idle by (simp add: cleanupIdleConnections_def split: option.splits)
next
  case (stop s)
  have "acct_ok (acct (s\<lparr>srv_done := True, srv_listening := False, srv_portmapper := map_option pm_Stop (srv_portmapper s)\<rparr>))" using stop by (simp add: acct_ok_eq)
  from acct_ok_close_all [OF this, of "map fst (activeConns s)"] show ?case
    by (simp add: srv_Stop_def closeAllConnections_def)
qed

text \<open>A server that was created, given a handler and put on the network.\<close>

definition listening :: "('fs, 'f) AbsfsNFS \<Rightarrow> ('fs, 'f) Server \<Rightarrow> bool" where
  "listening h s1 \<longleftrightarrow> (\<exists>now opts s0 buildTLS bindTo.
     NewServer now opts = Inr s0 \<and> Listen buildTLS bindTo (SetHandler h s0) = (Inr (), s1))"

lemma Listen_frame:
  assumes "Listen buildTLS bindTo s = (r, s1)"
  shows "srv_handler s1 = srv_handler s" and "acct s1 = acct s" and "srv_portmapper s1 = srv_portmapper s"
    and "r = Inr () \<Longrightarrow> srv_handler s \<noteq> None \<and> (\<exists>port. bindTo (so_Hostname (srv_options s) @ '':'' @ itoa (nat (so_Port (srv_options s)))) = Inr port \<and>
      srv_options s1 = (if so_Port (srv_options s) = 0 then (srv_options s)\<lparr>so_Port := port\<rparr> else srv_options s))"
  using assms unfolding Listen_def Let_def acct_def
  by (auto split: option.splits sum.splits if_split_asm)

lemma listening_state:
  assumes "listening h s1"
  obtains v where "srv_handler s1 = Some (h\<lparr>writeVerf := v\<rparr>)" and "acct s1 = ([], 0, [])"
proof -
  obtain now opts s0 buildTLS bindTo where n: "NewServer now opts = Inr s0"
    and l: "Listen buildTLS bindTo (SetHandler h s0) = (Inr (), s1)"
    using assms by (auto simp: listening_def)
  from n have "acct s0 = ([], 0, [])" by (auto simp: NewServer_def acct_def Let_def split: if_splits)
  with Listen_frame(1,2) [OF l] that [of "srv_writeVerf s0"] show thesis by (simp add: SetHandler_def)
qed

text \<open>What \<open>Export\<close> starts is such a server, without record marking, and the export is only given its path.\<close>

lemma Export_listening:
  assumes "Export now buildTLS bindTo mount port h = (Inr s1, h')"
  shows "listening h' s1 \<and> h' = h\<lparr>mountPath := mount\<rparr> \<and> \<not> so_UseRecordMarking (srv_options s1)"
proof -
  obtain s0 :: "('a, 'b) Server" where n: "NewServer now (export_options (p_ReadOnly (policy h)) port) = Inr s0"
      and l: "Listen buildTLS bindTo (SetHandler h' s0) = (Inr (), s1)" and h': "h' = h\<lparr>mountPath := mount\<rparr>"
    using assms by (auto simp: Export_def Let_def split: if_splits sum.splits prod.splits)
  have "\<not> so_UseRecordMarking (srv_options s0)"
    using n by (auto simp: NewServer_def export_options_def Let_def split: if_splits)
  moreover have "srv_options (SetHandler h' s0) = srv_options s0" by (simp add: SetHandler_def)
  ultimately have "\<not> so_UseRecordMarking (srv_options s1)" using Listen_frame(4) [OF l] by (auto split: if_splits)
  with n l h' show ?thesis unfolding listening_def by blast
qed

section \<open>Safety on the network\<close>

text \<open>
  C7: Connections are accounted for.  From the moment the server listens, whatever connections
  arrive, whatever they send, in whatever order they are served, time out or are closed, the count
  is the number of tracked connections, no connection is tracked twice, every tracked connection
  has a goroutine that will unregister it, and the count stays within the configured maximum.
\<close>

theorem connections_accounted:
  assumes "listening h s1" and "rtranclp net_step s1 s"
  shows "distinct (map fst (activeConns s)) \<and> connCount s = int (length (activeConns s)) \<and>
    fst ` set (activeConns s) \<subseteq> fst ` set (srv_conns s) \<and>
    (t_MaxConnections (tuning h) > 0 \<longrightarrow> connCount s \<le> t_MaxConnections (tuning h))"
proof -
  obtain v where h: "srv_handler s1 = Some (h\<lparr>writeVerf := v\<rparr>)" and a: "acct s1 = ([], 0, [])"
    using listening_state [OF assms(1)] .
  let ?P = "\<lambda>w. tuning w = tuning h \<and> policy w = policy h \<and> ops w = ops h"
  have "has_handler ?P s1" using h by (simp add: has_handler_def)
  then have tun: "rtranclp net_step s1 s' \<Longrightarrow> has_handler ?P s'" for s'
    using serving.P_net_steps [OF config_serving] by blast
  from assms(2) have "acct_ok (acct s) \<and> (t_MaxConnections (tuning h) > 0 \<longrightarrow> connCount s \<le> t_MaxConnections (tuning h))"
  proof (induction rule: rtranclp_induct)
    case base
    have "connCount s1 = 0" using a by (simp add: acct_def)
    then show ?case by (simp add: a, simp add: acct_ok_def)
  next
    case (step y z)
    from acct_ok_net_step [OF step(2)] step(3) tun [OF step(1)] show ?case
      by (auto simp: has_handler_def)
  qed
  then show ?thesis by (auto simp: acct_ok_eq gm_ok_def)
qed

text \<open>
  C5: On the network a read-only export is read-only and the server keeps its invariant.  Whatever
  bytes arrive on whatever connections, cut into whatever records, the exported file system stays
  as it was, as long as closing a file opened for reading changes nothing, and the handles and
  caches stay well formed.
\<close>

theorem network_read_only:
  assumes "listening h s1" and "p_ReadOnly (policy h)" and "read_close_pure (ops h)" and "server_inv h"
    and "rtranclp net_step s1 s"
  shows "\<exists>w. srv_handler s = Some w \<and> fs w = fs h \<and> server_inv w"
proof -
  obtain v where h: "srv_handler s1 = Some (h\<lparr>writeVerf := v\<rparr>)"
    using listening_state [OF assms(1)] .
  have "has_handler (ro_at (ops h) (fs h)) s1" using h assms(2) by (simp add: has_handler_def ro_at_def)
  from serving.P_net_steps [OF ro_serving [OF assms(3)] assms(5) this]
  have ro: "has_handler (ro_at (ops h) (fs h)) s" .
  have "has_handler server_inv s1" using h assms(4) by (simp add: has_handler_def server_inv_def)
  from inv.P_net_steps [OF assms(5) this] ro show ?thesis by (auto simp: has_handler_def ro_at_def)
qed

section \<open>A call over a connection\<close>

lemma default_writer: "NewRecordMarkingWriter = NewRecordMarkingWriterWithSize 1048576"
  by (simp add: NewRecordMarkingWriter_def NewRecordMarkingWriterWithSize_def Let_def)

lemma WriteReply_returns: "\<exists>out. WriteReply reply = Some out"
  using WriteRecord_frame [of NewRecordMarkingWriter "EncodeRPCReply reply"]
  by (simp add: WriteReply_def NewRecordMarkingWriter_def)

text \<open>A turn in which nothing outside goes wrong.\<close>

definition smooth :: "turn_env \<Rightarrow> bool" where
  "smooth env \<longleftrightarrow> te_read_deadline env \<and> te_write_deadline env \<and> te_write env \<and> \<not> te_dropped env"

text \<open>A connection that reads records up to the default size, as every connection with record marking does.\<close>

definition open_conn :: "rpc_conn \<Rightarrow> bool" where
  "open_conn c \<longleftrightarrow> \<not> rc_closed c \<and> rc_marked c \<and> MaxRecordSize (rc_reader c) = 1048576"

lemmas conn_io = conn_ReadCall_def conn_WriteReply_def conn_consume_def

lemma ReadCall_record:
  assumes "WriteRecord (NewRecordMarkingWriterWithSize mf) (encode_call call @ args) = Some wire"
    and "rm_r rd = wire @ rest" and "MaxRecordSize rd = 1048576"
    and "length (encode_call call @ args) \<le> 1048576"
    and "MsgType (call_Header call) = RPC_CALL"
    and "length (cred_Body (Credential call)) \<le> MAX_RPC_AUTH_LENGTH"
    and "length (verf_Body (call_Verifier call)) \<le> MAX_RPC_AUTH_LENGTH"
  shows "\<exists>rd'. ReadCall rd = (Inr (call, args), rd') \<and> rm_r rd' = rest"
proof -
  have "int (length (encode_call call @ args)) \<le> (if MaxRecordSize rd \<le> 0 then 1048576 else MaxRecordSize rd)"
    using assms(3,4) by simp
  from ReadRecord_WriteRecord [OF refl this, of mf] assms(1) obtain rd'
    where "ReadRecord (rd\<lparr>rm_r := wire @ rest\<rparr>) = (Inr (encode_call call @ args), rd')" "rm_r rd' = rest"
    by auto
  moreover have "rd\<lparr>rm_r := wire @ rest\<rparr> = rd" using assms(2) by simp
  ultimately show ?thesis
    using DecodeRPCCall_app [OF assms(5-7), of args] by (simp add: ReadCall_def)
qed

text \<open>
  C6: A call makes it through.  If the bytes waiting on a connection with record marking start with a client's call,
  cut into fragments of any size, of at most a mebibyte and from a client that is not rate limited,
  then the turn of the connection hands exactly that call with exactly its arguments to
  \<open>HandleCall\<close>, leaves the following bytes for the next turn, and writes one record from which the
  client reads back the reply, with its transaction id, status and results.
\<close>

theorem call_over_connection:
  assumes "WriteRecord (NewRecordMarkingWriterWithSize mf) (encode_call call @ args) = Some wire"
    and "rm_r (rc_reader c) = wire @ rest" and "open_conn c" and "smooth env" and "\<not> srv_done s"
    and "length (encode_call call @ args) \<le> 1048576"
    and "MsgType (call_Header call) = RPC_CALL"
    and "length (cred_Body (Credential call)) \<le> MAX_RPC_AUTH_LENGTH"
    and "length (verf_Body (call_Verifier call)) \<le> MAX_RPC_AUTH_LENGTH"
    and "rc_limiter c = None" and "srv_handler s = Some h"
    and "run_state (HandleCall (te_draining env) (te_late env) call args
      (auth_context (te_lookup env) (rc_remote c) (Credential call))) h = (Inr reply, h')"
    and "length (EncodeRPCReply reply) \<le> m" and "0 < m"
    and "length (verf_Body (reply_Verifier reply)) \<le> MAX_RPC_AUTH_LENGTH"
  shows "\<exists>c' s' out. conn_turn env i c s = (True, c', s') \<and> srv_handler s' = Some h' \<and>
    rm_r (rc_reader c') = rest \<and> rc_written c' = rc_written c @ out \<and>
    (\<exists>rd data. ReadRecord ((NewRecordMarkingReader out)\<lparr>MaxRecordSize := int m\<rparr>) = (Inr data, rd) \<and> rm_r rd = [] \<and>
      decode_reply data = (Inr (reply_view_of reply), reply_payload reply))"
proof -
  have big: "MaxRecordSize (rc_reader c) = 1048576" using assms(3) by (simp add: open_conn_def)
  obtain rd' where rd: "ReadCall (rc_reader c) = (Inr (call, args), rd')" "rm_r rd' = rest"
    using ReadCall_record [OF assms(1,2) big assms(6-9)] by blast
  obtain out where out: "WriteReply reply = Some out" using WriteReply_returns by blast
  let ?c = "c\<lparr>rc_reader := rd'\<rparr>" and ?s = "updateConnectionActivity i (te_now1 env) s"
  have lim: "allow_request ?c ip ?s = (True, ?s)" for ip
    using assms(10) by (simp add: allow_request_def get_limiter_def)
  have turn: "conn_turn env i c s =
      (True, ?c\<lparr>rc_written := rc_written c @ out\<rparr>, updateConnectionActivity i (te_now2 env) (?s\<lparr>srv_handler := Some h'\<rparr>))"
    using assms(3,4,5,11,12) rd(1) out
    by (simp add: conn_turn_def conn_io open_conn_def smooth_def lim Let_def put_reply_def)
  have fits: "int (length (EncodeRPCReply reply)) \<le>
      (if MaxRecordSize ((NewRecordMarkingReader [])\<lparr>MaxRecordSize := int m\<rparr>) \<le> 0 then 1048576
       else MaxRecordSize ((NewRecordMarkingReader [])\<lparr>MaxRecordSize := int m\<rparr>))"
    using assms(13,14) by simp
  have "\<exists>rd. ReadRecord ((NewRecordMarkingReader out)\<lparr>MaxRecordSize := int m\<rparr>) = (Inr (EncodeRPCReply reply), rd) \<and> rm_r rd = []"
    using ReadRecord_WriteRecord [OF default_writer fits] out
    by (auto simp: WriteReply_def NewRecordMarkingReader_def dest!: spec [of _ "[]"])
  moreover have "decode_reply (EncodeRPCReply reply) = (Inr (reply_view_of reply), reply_payload reply)"
    using decode_reply_EncodeRPCReply [OF assms(15), of "[]"] by simp
  ultimately show ?thesis using turn rd(2) by auto
qed

text \<open>
  A record of more than a mebibyte ends the connection without an answer.  The arguments of a WRITE
  of the size that FSINFO advertises as \<open>wtmax\<close> do not fit into one.
\<close>

theorem oversized_record_drops_connection:
  assumes "1048576 < length data" and "length data < 2 ^ 31" and "open_conn c"
    and "rm_r (rc_reader c) = frame [data] @ rest"
  shows "\<exists>c'. conn_turn env i c s = (False, c', s)"
proof -
  define n where "n = length data"
  have hdr: "(of_nat n OR LastFragmentFlag) AND NOT LastFragmentFlag = (of_nat n :: u32)"
    using fragment_header_flag(2) assms(2) by (simp add: n_def)
  have u: "uint (of_nat n :: u32) = int n" using assms(2) by (simp add: n_def uint_nat unat_of_nat)
  have "\<exists>e rd. ReadRecord (rc_reader c) = (Inl e, rd)"
    using assms(1,3) unfolding ReadRecord_def Let_def
    by (subst ReadRecord_loop.simps)
      (simp add: assms(4) open_conn_def xdrDecodeUint32_be32 n_def [symmetric] hdr [simplified] u Let_def)
  then show ?thesis using assms(3) by (auto simp: conn_turn_def conn_io open_conn_def ReadCall_def)
qed

text \<open>
  Errors of \<open>Accept\<close> that repeat are waited for three times only.  After that the loop goes on at
  once, although the wait is there to prevent a tight loop.
\<close>

theorem repeated_accept_errors_spin:
  assumes "\<not> srv_done s" and "3 \<le> acceptErrs s"
  shows "accept_failed AcceptFailed s = (True, 0, s)"
  using assms by (simp add: accept_failed_def)

section \<open>Rate limits\<close>

text \<open>A call over the limit is answered with a denial and reaches no procedure.\<close>

theorem limited_call_denied:
  assumes "ReadCall (rc_reader c) = (Inr (call, body), rd)" and "open_conn c" and "smooth env" and "\<not> srv_done s"
    and "limited_state env i (c\<lparr>rc_reader := rd\<rparr>) call s = (False, s')"
  shows "\<exists>c' out. conn_turn env i c s = (True, c', s') \<and> rc_written c' = rc_written c @ out \<and>
    WriteReply (denied_reply (call_Header call)) = Some out \<and>
    map_option fs (srv_handler s') = map_option fs (srv_handler s)"
proof -
  obtain out where out: "WriteReply (denied_reply (call_Header call)) = Some out" using WriteReply_returns by blast
  have "map_option fs (srv_handler s') = map_option fs (srv_handler s)"
    using arg_cong [OF assms(5), of snd]
    by (auto simp: limited_state_def allow_request_def put_limiter_def split: option.splits prod.splits if_splits)
  moreover have "conn_turn env i c s = (True, c\<lparr>rc_reader := rd, rc_written := rc_written c @ out\<rparr>, s')"
    using assms out by (simp add: conn_turn_def conn_io open_conn_def smooth_def limited_state_def put_reply_def)
  ultimately show ?thesis using out by auto
qed

text \<open>
  Without record marking nobody reads the arguments of a call that is denied: the next turn takes
  them for the next call.
\<close>

theorem raw_denied_call_leaves_arguments:
  assumes "DecodeRPCCall (rm_r (rc_reader c)) = (Inr call, args)" and "\<not> rc_marked c" and "\<not> rc_closed c"
    and "smooth env" and "\<not> srv_done s"
    and "limited_state env i (c\<lparr>rc_reader := (rc_reader c)\<lparr>rm_r := args\<rparr>\<rparr>) call s = (False, s')"
  shows "\<exists>c'. conn_turn env i c s = (True, c', s') \<and> rm_r (rc_reader c') = args"
  using assms by (simp add: conn_turn_def conn_io raw_ReadCall_def smooth_def limited_state_def put_reply_def)

text \<open>
  A change of the limits does not reach connections that are open: they hold on to the limiter
  they found when they started, whatever the new policy says.
\<close>

theorem limits_of_open_connections_stay:
  assumes "srv_handler s = Some h" and "rateLimiter h = Some rl" and "rc_limiter c = Some (srv_limiter s)"
    and "p_RateLimitConfig pol \<noteq> None" and "p_Squash pol = p_Squash (policy h)"
  shows "get_limiter c (srv_UpdatePolicy pol s) = Some rl"
proof -
  have "fst (run_state (UpdatePolicyOptions pol) h) = None"
    using assms(4,5) by (auto simp: UpdatePolicyOptions_def run_simps split: option.splits prod.splits)
  then obtain h' where "run_state (UpdatePolicyOptions pol) h = (None, h')" by (cases "run_state (UpdatePolicyOptions pol) h") auto
  with assms show ?thesis
    by (auto simp: srv_UpdatePolicy_def limiter_replaced_def get_limiter_def)
qed

section \<open>What the portmapper advertises\<close>

text \<open>
  C30: A server started with its portmapper is found through it.  When \<open>StartWithPortmapper\<close>
  succeeds on a port between 1 and 65535, a lookup of NFS version 3 over TCP gives the port the
  server listens on, and a lookup of MOUNT version 1 or 3 gives the configured mount port, or the
  NFS port when none is configured.
\<close>

theorem portmapper_advertises:
  assumes "StartWithPortmapper True buildTLS bindTo s = (Inr (), s1)"
    and "0 < srv_GetPort s1" and "srv_GetPort s1 < 65536" and "0 \<le> so_MountPort (srv_options s)" and "so_MountPort (srv_options s) < 65536"
  shows "\<exists>pm. srv_portmapper s1 = Some pm \<and>
    uint (pm_GetPort NFS_PROGRAM NFS_V3 IPPROTO_TCP pm) = srv_GetPort s1 \<and>
    (\<forall>v. v = 1 \<or> v = MOUNT_V3 \<longrightarrow> uint (pm_GetPort MOUNT_PROGRAM v IPPROTO_TCP pm) =
      (if so_MountPort (srv_options s) = 0 then srv_GetPort s1 else so_MountPort (srv_options s))) \<and>
    so_UseRecordMarking (srv_options s1)"
proof -
  let ?s = "s\<lparr>srv_options := (srv_options s)\<lparr>so_UseRecordMarking := True\<rparr>\<rparr>"
  obtain pm where pm: "pm_Start True (SetListenAddr (so_Hostname (srv_options ?s)) NewPortmapper) = (Inr (), pm)"
    by (auto simp: pm_Start_def StartOnPort_def Let_def)
  obtain r s2 where l: "Listen buildTLS bindTo (?s\<lparr>srv_portmapper := Some pm\<rparr>) = (r, s2)" by fastforce
  have r: "r = Inr ()" and s1: "s1 = s2\<lparr>srv_portmapper := map_option (register_services (srv_options s2)) (srv_portmapper s2)\<rparr>"
    using assms(1) pm l by (auto simp: StartWithPortmapper_def Let_def split: if_splits sum.splits)
  note fr = Listen_frame [OF l]
  have port: "srv_GetPort s1 = so_Port (srv_options s2)" by (simp add: s1 srv_GetPort_def)
  have opt: "so_MountPort (srv_options s2) = so_MountPort (srv_options s)" "so_UseRecordMarking (srv_options s2)"
    using fr(4) [OF r] by auto
  have val: "uint (word_of_int p :: u32) = p" if "0 \<le> p" "p < 65536" for p
    using that by (simp add: word_of_int_inverse)
  have nz: "(word_of_int p :: u32) = 0 \<longleftrightarrow> p = 0" if "0 \<le> p" "p < 65536" for p
    using val [OF that] by (metis uint_0_iff)
  show ?thesis
    using assms(2-5) val [of "so_Port (srv_options s2)"] nz [of "so_Port (srv_options s2)"]
      val [of "so_MountPort (srv_options s)"] nz [of "so_MountPort (srv_options s)"]
    by (auto simp: s1 fr(3) opt port register_services_def Let_def pm_GetPort_table table_RegisterService srv_GetPort_def)
qed

section \<open>A sample server on the network\<close>

definition sample_server_options :: ServerOptions where
  "sample_server_options = \<lparr>so_Name = [], so_UID = 0, so_GID = 0, so_ReadOnly = False, so_Port = 2049, so_MountPort = 0,
     so_Hostname = [], so_Debug = False, so_UsePortmapper = True, so_UseRecordMarking = False\<rparr>"

definition sample_created :: "('fs, 'f) AbsfsNFS \<Rightarrow> ('fs, 'f) Server" where
  "sample_created h = (case NewServer 0 sample_server_options of Inr s \<Rightarrow> SetHandler h s)"

definition sample_net :: "('fs, 'f) AbsfsNFS \<Rightarrow> ('fs, 'f) Server" where
  "sample_net h = snd (Listen (\<lambda>_. None) (\<lambda>_. Inr 2049) (sample_created h))"

definition sample_peer :: remote_addr where
  "sample_peer = \<lparr>ra_text = ''10.1.2.3:700'', ra_tcp = Some (''10.1.2.3'', 700)\<rparr>"

definition sample_env :: turn_env where
  "sample_env = \<lparr>te_read_deadline = True, te_write_deadline = True, te_write = True, te_draining = False, te_late = False,
     te_dropped = False, te_consumed = 0, te_now1 = 5, te_now2 = 6, te_lookup = (\<lambda>_. None)\<rparr>"

definition sample_net_call :: RPCCall where
  "sample_net_call = (mem_call 100003 0)\<lparr>Credential := \<lparr>cred_Flavor = 0, cred_Body = []\<rparr>\<rparr>"

lemma sample_created_new: "NewServer 0 sample_server_options = Inr s0 \<Longrightarrow> sample_created h = SetHandler h s0"
  by (simp add: sample_created_def)

lemma sample_created_facts:
  "srv_handler (sample_created h) = Some (h\<lparr>writeVerf := srv_writeVerf (sample_created h)\<rparr>)"
  "srv_conns (sample_created h) = []" "srv_done (sample_created h) = False"
  "so_Port (srv_options (sample_created h)) = 2049" "so_MountPort (srv_options (sample_created h)) = 0"
  by (simp_all add: sample_created_def NewServer_def SetHandler_def sample_server_options_def Let_def)

lemma sample_net_listening:
  fixes h :: "('fs, 'f) AbsfsNFS"
  shows "listening h (sample_net h)"
proof -
  obtain s0 :: "('fs, 'f) Server" where n: "NewServer 0 sample_server_options = Inr s0"
    by (simp add: NewServer_def sample_server_options_def Let_def)
  have "fst (Listen (\<lambda>_. None) (\<lambda>_. Inr 2049) (sample_created h)) = Inr ()"
    by (simp add: Listen_def sample_created_facts(1) Let_def split: option.splits)
  then have "Listen (\<lambda>_. None) (\<lambda>_. Inr 2049) (SetHandler h s0) = (Inr (), sample_net h)"
    by (simp add: sample_net_def sample_created_new [OF n] prod_eq_iff)
  with n show ?thesis unfolding listening_def by blast
qed

lemma sample_net_facts:
  "srv_handler (sample_net h) = Some (h\<lparr>writeVerf := srv_writeVerf (sample_created h)\<rparr>)"
  "srv_conns (sample_net h) = []" "srv_done (sample_net h) = False"
  using Listen_frame(1,2) [of "\<lambda>_. None" "\<lambda>_. Inr 2049" "sample_created h" _ "sample_net h"]
    sample_created_facts [of h]
  by (auto simp: sample_net_def acct_def Listen_def Let_def split: option.splits)

theorem connections_accounted_witness:
  "let s = srv_accept 0 sample_peer [] 3 (sample_net (sample_server sample_options))
   in distinct (map fst (activeConns s)) \<and> connCount s = int (length (activeConns s)) \<and>
      net_step (sample_net (sample_server sample_options)) s"
proof -
  let ?s1 = "sample_net (sample_server sample_options)"
  have "net_step ?s1 (srv_accept 0 sample_peer [] 3 ?s1)"
    by (rule net_step.accept) (simp add: sample_net_facts)
  with connections_accounted [OF sample_net_listening r_into_rtranclp [of net_step, OF this]] show ?thesis
    by (simp add: Let_def)
qed

theorem network_read_only_witness:
  "\<exists>w. srv_handler (srv_turn sample_env 0 (srv_accept 0 sample_peer [1, 2, 3] 3
      (sample_net (sample_server (sample_options\<lparr>o_ReadOnly := True\<rparr>))))) = Some w \<and> fs w = sample_fs"
proof -
  let ?h = "sample_server (sample_options\<lparr>o_ReadOnly := True\<rparr>)"
  have "p_ReadOnly (policy ?h)" "fs ?h = sample_fs" by code_simp+
  moreover have "ops ?h = mem_ops" "server_inv ?h"
    using good_New [OF sample_New, of "sample_options\<lparr>o_ReadOnly := True\<rparr>"] sample_settings
    by (simp_all add: good_state_def)
  moreover have "rtranclp net_step (sample_net ?h) (srv_turn sample_env 0 (srv_accept 0 sample_peer [1, 2, 3] 3 (sample_net ?h)))"
    by (rule converse_rtranclp_into_rtranclp [where r = net_step, OF net_step.accept], simp add: sample_net_facts)
      (rule r_into_rtranclp [where r = net_step], rule net_step.turn)
  ultimately show ?thesis
    using network_read_only [OF sample_net_listening, of ?h] mem_read_close_pure by auto
qed

theorem portmapper_advertises_witness:
  "\<exists>pm. srv_portmapper (snd (StartWithPortmapper True (\<lambda>_. None) (\<lambda>_. Inr 2049) (sample_created (sample_server sample_options)))) = Some pm \<and>
    uint (pm_GetPort 100003 3 6 pm) = 2049"
proof -
  let ?s = "sample_created (sample_server sample_options)"
  obtain r s1 where st: "StartWithPortmapper True (\<lambda>_. None) (\<lambda>_. Inr 2049) ?s = (r, s1)" by fastforce
  then have r: "r = Inr ()" and p: "srv_GetPort s1 = 2049"
    using sample_created_facts [of "sample_server sample_options"]
    by (auto simp: StartWithPortmapper_def Listen_def pm_Start_def StartOnPort_def srv_GetPort_def Let_def split: option.splits)
  from portmapper_advertises [OF st [unfolded r]] p sample_created_facts(5) [of "sample_server sample_options"] st show ?thesis by auto
qed

definition sample_conn :: "bytes \<Rightarrow> rpc_conn" where
  "sample_conn wire = \<lparr>rc_remote = sample_peer, rc_ID = ''conn-1'', rc_limiter = None,
     rc_marked = True, rc_reader = NewRecordMarkingReader wire, rc_written = [], rc_closed = False\<rparr>"

theorem call_over_connection_witness:
  "\<exists>wire c' s'. WriteRecord (NewRecordMarkingWriterWithSize 7) (encode_call sample_net_call @ []) = Some wire \<and>
    conn_turn sample_env 0 (sample_conn (wire @ [1, 2])) (sample_net (sample_server sample_options)) = (True, c', s') \<and>
    rm_r (rc_reader c') = [1, 2]"
proof -
  let ?h = "(sample_server sample_options)\<lparr>writeVerf := srv_writeVerf (sample_created (sample_server sample_options))\<rparr>"
  let ?m = "HandleCall (te_draining sample_env) (te_late sample_env) sample_net_call []
    (auth_context (te_lookup sample_env) sample_peer (Credential sample_net_call))"
  obtain wire where w: "WriteRecord (NewRecordMarkingWriterWithSize 7) (encode_call sample_net_call @ []) = Some wire"
    using WriteRecord_frame [of "NewRecordMarkingWriterWithSize 7"] by (simp add: NewRecordMarkingWriterWithSize_def)
  have "(case fst (run_state ?m ?h) of Inl _ \<Rightarrow> False
      | Inr r \<Rightarrow> length (EncodeRPCReply r) \<le> 100 \<and> length (verf_Body (reply_Verifier r)) \<le> 400)" by code_simp
  then obtain r h' where run: "run_state ?m ?h = (Inr r, h')" and r: "length (EncodeRPCReply r) \<le> 100"
    "length (verf_Body (reply_Verifier r)) \<le> 400"
    by (cases "run_state ?m ?h") (auto split: sum.splits)
  have call: "MsgType (call_Header sample_net_call) = 0" "length (encode_call sample_net_call @ []) \<le> 1048576"
    "length (cred_Body (Credential sample_net_call)) \<le> 400" "length (verf_Body (call_Verifier sample_net_call)) \<le> 400"
    by (simp_all add: sample_net_call_def mem_call_def encode_call_def encode_opaque_auth_def pad_len_def)
  have conn: "rm_r (rc_reader (sample_conn (wire @ [1, 2]))) = wire @ [1, 2]" "open_conn (sample_conn (wire @ [1, 2]))"
    "rc_limiter (sample_conn (wire @ [1, 2])) = None" "rc_remote (sample_conn (wire @ [1, 2])) = sample_peer" "smooth sample_env"
    by (simp_all add: sample_conn_def NewRecordMarkingReader_def open_conn_def smooth_def sample_env_def)
  have run': "run_state (HandleCall (te_draining sample_env) (te_late sample_env) sample_net_call []
      (auth_context (te_lookup sample_env) (rc_remote (sample_conn (wire @ [1, 2]))) (Credential sample_net_call))) ?h = (Inr r, h')"
    using run conn(4) by simp
  have live: "\<not> srv_done (sample_net (sample_server sample_options))" by (simp add: sample_net_facts)
  from call_over_connection [where i = 0, OF w conn(1,2,5) live call(2,1,3,4) conn(3) sample_net_facts(1) run' r(1) _ r(2)] w
  show ?thesis by auto
qed

end
