(* ===== verification/Workspace.thy ===== *)
theory Workspace
  imports Network
begin

text \<open>
  The composed workspace of \<open>examples/composed-workspace/main.go\<close>: one export put together from
  several file systems.  \<open>ComposedFS\<close> routes a call to the file system mounted at the longest
  matching prefix, \<open>BasePathFS\<close> moves a file system below a directory and \<open>ReadOnlyFS\<close> refuses what
  would change it.  All are file systems themselves, so the server is the one of the other
  theories, with them in place of its file system parameter.

  The mounted file systems act on one state, because several of them are views of the same disk.
  An open file carries the methods of the file system it was opened in.  Of the interface
  \<open>absfs.SymlinkFileSystem\<close> the methods are here that the server calls.

  The main results: a name is routed to the longest prefix whatever the order in which Go walks the
  map of mounts, and no client of the workspace can change anything on the disk outside the
  project and the shared directory.
\<close>

section \<open>ReadOnlyFS\<close>

text \<open>Of the flags that the wrapper refuses the server uses only \<open>O_WRONLY\<close>.\<close>

definition ro_OpenFile :: "('fs, 'f) FileSystem \<Rightarrow> 'fs \<Rightarrow> string \<Rightarrow> open_flag \<Rightarrow> 'f result" where
  "ro_OpenFile r s name flag = (if flag = O_WRONLY then Inl ErrPermission else fs_OpenFile r s name flag)"

definition ro_Create :: "'fs \<Rightarrow> string \<Rightarrow> 'f result \<times> 'fs" where
  "ro_Create s name = (Inl ErrPermission, s)"

definition ro_Do :: "'fs \<Rightarrow> fs_call \<Rightarrow> goerr option \<times> 'fs" where
  "ro_Do s c = (Some ErrPermission, s)"

definition NewReadOnlyFS :: "('fs, 'f) FileSystem \<Rightarrow> ('fs, 'f) FileSystem" where
  "NewReadOnlyFS r = r\<lparr>fs_OpenFile := ro_OpenFile r, fs_Create := ro_Create, fs_Do := ro_Do\<rparr>"

section \<open>BasePathFS\<close>

text \<open>\<open>filepath\<close> on a system with \<open>/\<close> as separator.\<close>

definition resolvePath :: "string \<Rightarrow> string \<Rightarrow> string" where
  "resolvePath base name =
     (let clean = path_Clean name
      in if clean = ''.'' \<or> clean = ''/'' then base
         else let clean = (if clean \<noteq> [] \<and> hd clean = CHR ''/'' then tl clean else clean)
              in path_Join base clean)"

text \<open>The call that is passed on; the target of a symbolic link is not changed.\<close>

fun map_call :: "(string \<Rightarrow> string) \<Rightarrow> fs_call \<Rightarrow> fs_call" where
  "map_call g (Remove_call p) = Remove_call (g p)"
| "map_call g (Rename_call p q) = Rename_call (g p) (g q)"
| "map_call g (Mkdir_call p m) = Mkdir_call (g p) m"
| "map_call g (Symlink_call t p) = Symlink_call t (g p)"
| "map_call g (Chmod_call p m) = Chmod_call (g p) m"
| "map_call g (Chown_call p u gr) = Chown_call (g p) u gr"
| "map_call g (Lchown_call p u gr) = Lchown_call (g p) u gr"
| "map_call g (Chtimes_call p a m) = Chtimes_call (g p) a m"
| "map_call g (Truncate_call p n) = Truncate_call (g p) n"

definition base_OpenFile :: "string \<Rightarrow> ('fs, 'f) FileSystem \<Rightarrow> 'fs \<Rightarrow> string \<Rightarrow> open_flag \<Rightarrow> 'f result" where
  "base_OpenFile base b s name flag = fs_OpenFile b s (resolvePath base name) flag"

definition base_Create :: "string \<Rightarrow> ('fs, 'f) FileSystem \<Rightarrow> 'fs \<Rightarrow> string \<Rightarrow> 'f result \<times> 'fs" where
  "base_Create base b s name = fs_Create b s (resolvePath base name)"

definition base_Do :: "string \<Rightarrow> ('fs, 'f) FileSystem \<Rightarrow> 'fs \<Rightarrow> fs_call \<Rightarrow> goerr option \<times> 'fs" where
  "base_Do base b s c = fs_Do b s (map_call (resolvePath base) c)"

definition base_Stat :: "string \<Rightarrow> ('fs, 'f) FileSystem \<Rightarrow> 'fs \<Rightarrow> string \<Rightarrow> FileInfo result" where
  "base_Stat base b s name = fs_Stat b s (resolvePath base name)"

definition base_Lstat :: "string \<Rightarrow> ('fs, 'f) FileSystem \<Rightarrow> 'fs \<Rightarrow> string \<Rightarrow> FileInfo result" where
  "base_Lstat base b s name = fs_Lstat b s (resolvePath base name)"

definition base_Readlink :: "string \<Rightarrow> ('fs, 'f) FileSystem \<Rightarrow> 'fs \<Rightarrow> string \<Rightarrow> string result" where
  "base_Readlink base b s name = fs_Readlink b s (resolvePath base name)"

definition NewBasePathFS :: "('fs, 'f) FileSystem \<Rightarrow> string \<Rightarrow> ('fs, 'f) FileSystem" where
  "NewBasePathFS b base =
     b\<lparr>fs_Lstat := base_Lstat base b, fs_Stat := base_Stat base b, fs_Readlink := base_Readlink base b,
       fs_OpenFile := base_OpenFile base b, fs_Create := base_Create base b, fs_Do := base_Do base b\<rparr>"

section \<open>ComposedFS\<close>

record ('fs, 'f) MountPoint =
  mp_Path :: string
  mp_FS :: "('fs, 'f) FileSystem"
  mp_Info :: string

text \<open>Go walks the map of mounts in an order of its own; the order of the list stands for it.\<close>

record ('fs, 'f) ComposedFS =
  c_mounts :: "(string, ('fs, 'f) MountPoint) gomap"
  c_root :: "('fs, 'f) FileSystem"

definition NewComposedFS :: "('fs, 'f) FileSystem result \<Rightarrow> ('fs, 'f) ComposedFS result" where
  "NewComposedFS memfs_NewFS = (case memfs_NewFS of
     Inl err \<Rightarrow> Inl (Wrap ''failed to create root fs: '' err)
   | Inr r \<Rightarrow> Inr \<lparr>c_mounts = [], c_root = r\<rparr>)"

text \<open>\<open>MkdirAll\<close> of the root file system is a parameter: the server itself never calls it.\<close>

definition Mount ::
    "('fs \<Rightarrow> string \<Rightarrow> u32 \<Rightarrow> goerr option \<times> 'fs) \<Rightarrow> string \<Rightarrow> ('fs, 'f) FileSystem \<Rightarrow> string \<Rightarrow>
     ('fs, 'f) ComposedFS \<times> 'fs \<Rightarrow> (('fs, 'f) ComposedFS \<times> 'fs) result" where
  "Mount mkdirAll path m info = (\<lambda>(c, s). case mkdirAll s path 493 of
     (Some err, _) \<Rightarrow> Inl (Wrap (''failed to create mount point '' @ path @ '': '') err)
   | (None, s) \<Rightarrow> Inr (c\<lparr>c_mounts := AList.update path \<lparr>mp_Path = path, mp_FS = m, mp_Info = info\<rparr> (c_mounts c)\<rparr>, s))"

definition prefix_matches :: "string \<Rightarrow> string \<Rightarrow> bool" where
  "prefix_matches path prefix \<longleftrightarrow>
     path = prefix \<or> length path > length prefix \<and> take (length prefix) path = prefix \<and> path ! length prefix = CHR ''/''"

text \<open>The loop with its variables \<open>bestMount\<close> and \<open>bestPrefix\<close>.\<close>

primrec resolve_loop ::
    "string \<Rightarrow> (string \<times> ('fs, 'f) MountPoint) list \<Rightarrow> ('fs, 'f) MountPoint option \<times> string \<Rightarrow>
     ('fs, 'f) MountPoint option \<times> string" where
  "resolve_loop path [] best = (case best of
     (Some m, bestPrefix) \<Rightarrow>
       (let relPath = drop (length bestPrefix) path in (Some m, if relPath = '''' then ''/'' else relPath))
   | (None, _) \<Rightarrow> (None, path))"
| "resolve_loop path (e # es) best = (case e of (prefix, mount) \<Rightarrow>
     let best = (if prefix_matches path prefix \<and> length prefix > length (snd best) then (Some mount, prefix) else best)
     in if path = prefix then (Some mount, ''/'') else resolve_loop path es best)"

definition resolveMount :: "('fs, 'f) ComposedFS \<Rightarrow> string \<Rightarrow> ('fs, 'f) MountPoint option \<times> string" where
  "resolveMount c path =
     (let path = (if path = '''' then ''/'' else path) in resolve_loop path (c_mounts c) (None, ''''))"

text \<open>The pattern of the methods: the mount with the relative path, or else the root with the name.\<close>

definition on_mount :: "('fs, 'f) ComposedFS \<Rightarrow> string \<Rightarrow> (('fs, 'f) FileSystem \<Rightarrow> string \<Rightarrow> 'r) \<Rightarrow> 'r" where
  "on_mount c name k = (case resolveMount c name of
     (Some mount, relPath) \<Rightarrow> k (mp_FS mount) relPath
   | (None, _) \<Rightarrow> k (c_root c) name)"

type_synonym ('fs, 'f) open_file = "('fs, 'f) FileSystem \<times> 'f"

definition composed_OpenFile ::
    "('fs, 'f) ComposedFS \<Rightarrow> 'fs \<Rightarrow> string \<Rightarrow> open_flag \<Rightarrow> ('fs, 'f) open_file result" where
  "composed_OpenFile c s name flag = on_mount c name (\<lambda>m p. map_sum id (Pair m) (fs_OpenFile m s p flag))"

definition composed_Create :: "('fs, 'f) ComposedFS \<Rightarrow> 'fs \<Rightarrow> string \<Rightarrow> ('fs, 'f) open_file result \<times> 'fs" where
  "composed_Create c s name = on_mount c name (\<lambda>m p. map_prod (map_sum id (Pair m)) id (fs_Create m s p))"

text \<open>The pointers of two mounts are compared by the paths they are mounted at.\<close>

definition composed_Rename :: "('fs, 'f) ComposedFS \<Rightarrow> 'fs \<Rightarrow> string \<Rightarrow> string \<Rightarrow> goerr option \<times> 'fs" where
  "composed_Rename c s oldpath newpath =
     (let (oldMount, oldRel) = resolveMount c oldpath; (newMount, newRel) = resolveMount c newpath
      in if map_option mp_Path oldMount \<noteq> map_option mp_Path newMount
         then (Some (ErrText ''cross-mount rename not supported''), s)
         else case oldMount of
           Some m \<Rightarrow> fs_Do (mp_FS m) s (Rename_call oldRel newRel)
         | None \<Rightarrow> fs_Do (c_root c) s (Rename_call oldpath newpath))"

fun composed_Do :: "('fs, 'f) ComposedFS \<Rightarrow> 'fs \<Rightarrow> fs_call \<Rightarrow> goerr option \<times> 'fs" where
  "composed_Do c s (Mkdir_call name perm) = on_mount c name (\<lambda>m p. fs_Do m s (Mkdir_call p perm))"
| "composed_Do c s (Remove_call name) = on_mount c name (\<lambda>m p. fs_Do m s (Remove_call p))"
| "composed_Do c s (Rename_call oldpath newpath) = composed_Rename c s oldpath newpath"
| "composed_Do c s (Chmod_call name mode) = on_mount c name (\<lambda>m p. fs_Do m s (Chmod_call p mode))"
| "composed_Do c s (Chown_call name uid gid) = on_mount c name (\<lambda>m p. fs_Do m s (Chown_call p uid gid))"
| "composed_Do c s (Chtimes_call name a_time m_time) = on_mount c name (\<lambda>m p. fs_Do m s (Chtimes_call p a_time m_time))"
| "composed_Do c s (Symlink_call oldname newname) = on_mount c newname (\<lambda>m p. fs_Do m s (Symlink_call oldname p))"
| "composed_Do c s (Lchown_call name uid gid) = on_mount c name (\<lambda>m p. fs_Do m s (Lchown_call p uid gid))"
| "composed_Do c s (Truncate_call name n) = on_mount c name (\<lambda>m p. fs_Do m s (Truncate_call p n))"

definition composed_Stat :: "('fs, 'f) ComposedFS \<Rightarrow> 'fs \<Rightarrow> string \<Rightarrow> FileInfo result" where
  "composed_Stat c s name = on_mount c name (\<lambda>m. fs_Stat m s)"

definition composed_Lstat :: "('fs, 'f) ComposedFS \<Rightarrow> 'fs \<Rightarrow> string \<Rightarrow> FileInfo result" where
  "composed_Lstat c s name = on_mount c name (\<lambda>m. fs_Lstat m s)"

definition composed_Readlink :: "('fs, 'f) ComposedFS \<Rightarrow> 'fs \<Rightarrow> string \<Rightarrow> string result" where
  "composed_Readlink c s name = on_mount c name (\<lambda>m. fs_Readlink m s)"

definition composed_ops :: "('fs, 'f) ComposedFS \<Rightarrow> ('fs, ('fs, 'f) open_file) FileSystem" where
  "composed_ops c =
     \<lparr>fs_Lstat = composed_Lstat c, fs_Stat = composed_Stat c, fs_Readlink = composed_Readlink c,
      fs_OpenFile = composed_OpenFile c,
      f_Stat = (\<lambda>s (m, f). f_Stat m s f), f_ReadAt = (\<lambda>s (m, f). f_ReadAt m s f), f_Readdir = (\<lambda>s (m, f). f_Readdir m s f),
      f_WriteAt = (\<lambda>s (m, f). f_WriteAt m s f), f_Close = (\<lambda>s (m, f). f_Close m s f),
      fs_Create = composed_Create c, fs_Do = composed_Do c\<rparr>"

section \<open>The workspace\<close>

text \<open>
  The mounts that \<open>main\<close> makes.  The third-party file systems, \<open>filepath.Abs\<close> and \<open>MkdirAll\<close> are
  parameters; a call of \<open>log.Fatalf\<close> is an error result.
\<close>

record ('fs, 'f) environment =
  env_root :: "('fs, 'f) FileSystem result"
  env_scratch :: "('fs, 'f) FileSystem result"
  env_osfs :: "('fs, 'f) FileSystem result"
  env_Abs :: "string \<Rightarrow> string result"
  env_MkdirAll :: "'fs \<Rightarrow> string \<Rightarrow> u32 \<Rightarrow> goerr option \<times> 'fs"

definition mount_dir ::
    "('fs, 'f) environment \<Rightarrow> string \<Rightarrow> (('fs, 'f) FileSystem \<Rightarrow> ('fs, 'f) FileSystem) \<Rightarrow> string \<Rightarrow> string \<Rightarrow>
     ('fs, 'f) ComposedFS \<times> 'fs \<Rightarrow> (('fs, 'f) ComposedFS \<times> 'fs) result" where
  "mount_dir env dir wrap path label cs =
     (if dir = '''' then Inr cs
      else case env_Abs env dir of
        Inl e \<Rightarrow> Inl e
      | Inr absPath \<Rightarrow> (case env_osfs env of
          Inl e \<Rightarrow> Inl e
        | Inr o_fs \<Rightarrow> Mount (env_MkdirAll env) path (wrap (NewBasePathFS o_fs absPath)) (label @ absPath) cs))"

definition workspace ::
    "('fs, 'f) environment \<Rightarrow> string \<Rightarrow> string \<Rightarrow> string \<Rightarrow> 'fs \<Rightarrow> (('fs, 'f) ComposedFS \<times> 'fs) result" where
  "workspace env projectDir libsDir sharedDir s =
     (case NewComposedFS (env_root env) of Inl e \<Rightarrow> Inl e
      | Inr c \<Rightarrow> (case env_scratch env of Inl e \<Rightarrow> Inl e
      | Inr scratch \<Rightarrow> (case Mount (env_MkdirAll env) ''/scratch'' scratch ''In-memory scratch space'' (c, s) of Inl e \<Rightarrow> Inl e
      | Inr cs \<Rightarrow> (case mount_dir env projectDir id ''/project'' ''Project directory: '' cs of Inl e \<Rightarrow> Inl e
      | Inr cs \<Rightarrow> (case mount_dir env libsDir NewReadOnlyFS ''/libs'' ''Read-only libs: '' cs of Inl e \<Rightarrow> Inl e
      | Inr cs \<Rightarrow> mount_dir env sharedDir id ''/shared'' ''Shared directory: '' cs)))))"

section \<open>Routing\<close>

lemma prefix_matches_iff: "prefix_matches path k \<longleftrightarrow> path = k \<or> (\<exists>r. path = k @ CHR ''/'' # r)"
proof
  assume "prefix_matches path k"
  then show "path = k \<or> (\<exists>r. path = k @ CHR ''/'' # r)"
    unfolding prefix_matches_def using id_take_nth_drop [of "length k" path] by metis
qed (auto simp: prefix_matches_def)

lemma prefix_matches_length: "prefix_matches path k \<Longrightarrow> length k \<le> length path \<and> (length k = length path \<longrightarrow> k = path)"
  by (auto simp: prefix_matches_iff)

text \<open>\<open>routed path es k m rel\<close>: \<open>k\<close> is the longest prefix of \<open>path\<close> in \<open>es\<close>, with its mount and the rest.\<close>

definition routed ::
    "string \<Rightarrow> (string \<times> ('fs, 'f) MountPoint) set \<Rightarrow> ('fs, 'f) MountPoint option \<Rightarrow> string \<Rightarrow> bool" where
  "routed path es m rel \<longleftrightarrow> (case m of
     None \<Rightarrow> rel = path \<and> (\<forall>(k, _) \<in> es. \<not> prefix_matches path k)
   | Some mp \<Rightarrow> (\<exists>k. (k, mp) \<in> es \<and> prefix_matches path k \<and>
       rel = (if path = k then ''/'' else drop (length k) path) \<and>
       (\<forall>(k', _) \<in> es. prefix_matches path k' \<longrightarrow> length k' \<le> length k)))"

definition best_of :: "('fs, 'f) MountPoint option \<times> string \<Rightarrow> (string \<times> ('fs, 'f) MountPoint) set" where
  "best_of best = (case best of (None, _) \<Rightarrow> {} | (Some m, k) \<Rightarrow> {(k, m)})"

lemma resolve_loop_routed:
  assumes "resolve_loop path es best = (m, rel)" and "\<forall>(k, _) \<in> seen \<union> set es. k \<noteq> []"
    and "fst best = None \<Longrightarrow> snd best = []" and "\<forall>(k, _) \<in> best_of best. prefix_matches path k \<and> k \<noteq> path"
    and "\<forall>(k, _) \<in> seen. prefix_matches path k \<longrightarrow> length k \<le> length (snd best)"
    and "best_of best \<subseteq> seen"
  shows "routed path (seen \<union> set es) m rel"
  using assms
proof (induction es arbitrary: best seen)
  case Nil
  show ?case
  proof (cases "fst best")
    case None
    with Nil(1,3) have r: "m = None" "rel = path" and b: "snd best = []" by (cases best; simp)+
    from Nil(2,5) have "\<forall>(k, _) \<in> seen. \<not> prefix_matches path k" unfolding b by fastforce
    with r show ?thesis by (simp add: routed_def)
  next
    case (Some mb)
    then obtain k where b: "best = (Some mb, k)" by (cases best) simp
    with Nil(4,6) have k: "(k, mb) \<in> seen" "prefix_matches path k" "k \<noteq> path" by (auto simp: best_of_def)
    then have "drop (length k) path \<noteq> []" by (auto simp: prefix_matches_iff)
    with Nil(1) have r: "m = Some mb" "rel = drop (length k) path" unfolding b by (auto simp: Let_def)
    from k Nil(5) show ?thesis unfolding r routed_def b by (auto intro!: exI [of _ k])
  qed
next
  case (Cons e es)
  obtain k mk where e: "e = (k, mk)" by fastforce
  show ?case
  proof (cases "path = k")
    case True
    with Cons.prems(1) e have "m = Some mk" "rel = ''/''" by (auto simp: Let_def)
    with True e show ?thesis
      by (auto simp: routed_def prefix_matches_length intro!: exI [of _ k] dest: prefix_matches_length)
        (auto simp: prefix_matches_def)
  next
    case False
    let ?best = "if prefix_matches path k \<and> length k > length (snd best) then (Some mk, k) else best"
    have "routed path (insert (k, mk) seen \<union> set es) m rel"
    proof (rule Cons.IH [of ?best])
      show "resolve_loop path es ?best = (m, rel)" using Cons.prems(1) e False by (simp add: Let_def)
      show "\<forall>(k, _) \<in> insert (k, mk) seen \<union> set es. k \<noteq> []" using Cons.prems(2) e by auto
      show "fst ?best = None \<Longrightarrow> snd ?best = []" using Cons.prems(3) by (simp split: if_splits)
      show "\<forall>(k, _) \<in> best_of ?best. prefix_matches path k \<and> k \<noteq> path"
        using Cons.prems(4) False by (simp add: best_of_def)
      show "\<forall>(k, _) \<in> insert (k, mk) seen. prefix_matches path k \<longrightarrow> length k \<le> length (snd ?best)"
        using Cons.prems(5) by auto
      show "best_of ?best \<subseteq> insert (k, mk) seen" using Cons.prems(6) by (auto simp: best_of_def)
    qed
    then show ?thesis using e by (simp add: insert_commute Un_insert_left)
  qed
qed

lemma resolveMount_routed:
  assumes "resolveMount c path = (m, rel)" and "path \<noteq> []" and "\<forall>(k, _) \<in> set (c_mounts c). k \<noteq> []"
  shows "routed path (set (c_mounts c)) m rel"
  using resolve_loop_routed [of path "c_mounts c" "(None, [])" m rel "{}"] assms
  by (simp add: resolveMount_def best_of_def)

lemma routed_unique:
  assumes r: "routed path (set es) m rel" and r': "routed path (set es) m' rel'" and d: "distinct (map fst es)"
  shows "(m, rel) = (m', rel')"
proof (cases "\<exists>(k, _) \<in> set es. prefix_matches path k")
  case True
  then obtain mp mp' where m: "m = Some mp" "m' = Some mp'"
    using r r' by (cases m; cases m') (auto simp: routed_def)
  obtain k k' where k: "(k, mp) \<in> set es" "(k', mp') \<in> set es" "prefix_matches path k" "prefix_matches path k'"
    and rel: "rel = (if path = k then ''/'' else drop (length k) path)" "rel' = (if path = k' then ''/'' else drop (length k') path)"
    and len: "length k = length k'"
  proof -
    from r obtain k where 1: "(k, mp) \<in> set es" "prefix_matches path k" "rel = (if path = k then ''/'' else drop (length k) path)"
      and l: "\<forall>(k', _) \<in> set es. prefix_matches path k' \<longrightarrow> length k' \<le> length k"
      unfolding m routed_def by auto
    from r' obtain k' where 2: "(k', mp') \<in> set es" "prefix_matches path k'" "rel' = (if path = k' then ''/'' else drop (length k') path)"
      and l': "\<forall>(k, _) \<in> set es. prefix_matches path k \<longrightarrow> length k \<le> length k'"
      unfolding m routed_def by auto
    from l l' 1(1,2) 2(1,2) have "length k = length k'" by (intro le_antisym) auto
    then show thesis by (rule that [OF 1(1) 2(1) 1(2) 2(2) 1(3) 2(3)])
  qed
  have "k = k'" using k(3,4) len by (auto simp: prefix_matches_iff)
  with k(1,2) d rel m show ?thesis by (auto dest: eq_key_imp_eq_value)
next
  case False
  with r r' show ?thesis by (cases m; cases m') (auto simp: routed_def)
qed

lemma routed_meaning:
  assumes "routed path es m rel"
  shows "case m of
      None \<Rightarrow> rel = path \<and> (\<forall>k \<in> fst ` es. path \<noteq> k \<and> (\<nexists>r. path = k @ CHR ''/'' # r))
    | Some mp \<Rightarrow> \<exists>k. (k, mp) \<in> es \<and>
        (path = k \<and> rel = ''/'' \<or> path = k @ rel \<and> (\<exists>r. rel = CHR ''/'' # r)) \<and>
        (\<forall>k' \<in> fst ` es. path = k' \<or> (\<exists>r. path = k' @ CHR ''/'' # r) \<longrightarrow> length k' \<le> length k)"
proof (cases m)
  case None
  with assms show ?thesis by (auto simp: routed_def prefix_matches_iff)
next
  case (Some mp)
  then obtain k where k: "(k, mp) \<in> es" "prefix_matches path k" "rel = (if path = k then ''/'' else drop (length k) path)"
    and l: "\<forall>(k', _) \<in> es. prefix_matches path k' \<longrightarrow> length k' \<le> length k"
    using assms by (auto simp: routed_def)
  from k(2,3) have "path = k \<and> rel = ''/'' \<or> path = k @ rel \<and> (\<exists>r. rel = CHR ''/'' # r)"
    by (auto simp: prefix_matches_iff)
  moreover from l have "\<forall>k' \<in> fst ` es. path = k' \<or> (\<exists>r. path = k' @ CHR ''/'' # r) \<longrightarrow> length k' \<le> length k"
    by (auto simp: prefix_matches_iff)
  ultimately show ?thesis using k(1) Some by auto
qed

section \<open>Names\<close>

lemma join_split: "join_slash (split_slash s) = s"
proof (induction s)
  case (Cons ch s)
  then show ?case by (cases "split_slash s" rule: join_slash.cases) auto
qed simp

text \<open>What follows a prefix of a canonical path is a canonical path.\<close>

lemma canonical_rest:
  assumes "canonical (k @ CHR ''/'' # r)" and "k \<noteq> []"
  shows "canonical (CHR ''/'' # r)"
proof -
  obtain cs where cs: "list_all good_comp cs" "k @ CHR ''/'' # r = abs_path cs"
    using assms(1) by (auto simp: canonical_def)
  have ne: "cs \<noteq> []" using cs(2) assms(2) by (auto simp: abs_path_def append_eq_Cons_conv)
  have "split_slash k @ split_slash r = [] # cs"
    using split_slash_append_slash [of k r] split_slash_append_slash [of "[]" "join_slash cs"] cs ne
    by (simp add: abs_path_def split_join good_no_slash)
  then obtain ks where "cs = ks @ split_slash r" using split_slash_ne [of k] by (cases "split_slash k") auto
  with cs(1) have "list_all good_comp (split_slash r)" by simp
  then show ?thesis unfolding canonical_def abs_path_def
    by (intro exI [of _ "split_slash r"]) (simp add: join_split)
qed

lemma routed_canonical:
  assumes "routed path es (Some m) rel" and "canonical path" and "\<forall>(k, _) \<in> es. k \<noteq> []"
  shows "canonical rel \<and> m \<in> snd ` es"
proof -
  obtain k where k: "(k, m) \<in> es" "prefix_matches path k" "rel = (if path = k then ''/'' else drop (length k) path)"
    using assms(1) by (auto simp: routed_def)
  with assms(2,3) canonical_rest [of k] show ?thesis by (force simp: prefix_matches_iff)
qed

text \<open>\<open>below base q\<close>: the directory \<open>base\<close> or something below it.\<close>

definition below :: "string \<Rightarrow> string \<Rightarrow> bool" where
  "below base q \<longleftrightarrow> (\<exists>bs cs. list_all good_comp (bs @ cs) \<and> base = abs_path bs \<and> q = abs_path (bs @ cs))"

lemma join_slash_append: "a \<noteq> [] \<Longrightarrow> b \<noteq> [] \<Longrightarrow> join_slash (a @ b) = join_slash a @ ''/'' @ join_slash b"
proof (induction a rule: join_slash.induct)
  case (2 c)
  then show ?case by (cases b) auto
qed auto

lemma resolvePath_below:
  assumes "canonical base" and "name \<noteq> []" and "hd name = CHR ''/''"
  shows "below base (resolvePath base name)"
proof -
  obtain bs where bs: "list_all good_comp bs" "base = abs_path bs" using assms(1) by (auto simp: canonical_def)
  obtain cs where cs: "list_all good_comp cs" "path_Clean name = abs_path cs"
    using path_Clean_canonical [OF assms(2,3)] by (auto simp: canonical_def)
  show ?thesis
  proof (cases "cs = []")
    case True
    with cs have "resolvePath base name = base" by (simp add: resolvePath_def abs_path_def)
    with bs show ?thesis unfolding below_def by (intro exI [of _ bs] exI [of _ "[]"]) simp
  next
    case False
    have jne: "join_slash cs \<noteq> []" using False cs(1) by (cases cs rule: join_slash.cases) (auto simp: good_comp_def)
    have "path_Clean (abs_path bs @ ''/'' @ join_slash cs) = abs_path (bs @ cs)"
    proof (cases "bs = []")
      case True
      have "split_slash (''//'' @ join_slash cs) = [[], []] @ cs"
        using False cs(1) by (simp add: split_join good_no_slash)
      with True cs(1) show ?thesis
        by (simp add: path_Clean_def abs_path_def clean_step_def fold_clean_good)
    next
      case b: False
      have "abs_path bs @ ''/'' @ join_slash cs = abs_path (bs @ cs)"
        using b False by (simp add: abs_path_def join_slash_append)
      with bs(1) cs(1) path_Clean_abs_path [of "bs @ cs"] show ?thesis by simp
    qed
    then have "resolvePath base name = abs_path (bs @ cs)"
      using bs cs jne by (simp add: resolvePath_def abs_path_def path_Join_eq)
    with bs cs show ?thesis unfolding below_def by (intro exI [of _ bs] exI [of _ cs]) simp
  qed
qed

text \<open>A name without a leading slash is not confined.  The server never uses one.\<close>

theorem relative_name_escapes: "resolvePath ''/srv/p'' ''../q'' = ''/srv/q''"
  by code_simp

section \<open>What the wrappers leave alone\<close>

lemma survives_mono: "survives G o0 I \<Longrightarrow> (\<And>p. H p \<Longrightarrow> G p) \<Longrightarrow> survives H o0 I"
  unfolding survives_def opened_at_def by (auto simp: list_all_iff) blast+

lemma survives_parts:
  assumes "survives G o0 I" and "I s"
  shows "G p \<Longrightarrow> I (snd (fs_Create o0 s p))"
    and "list_all G (call_paths c) \<Longrightarrow> I (snd (fs_Do o0 s c))"
    and "opened_at G o0 f flag \<Longrightarrow> I (snd (f_Close o0 s f))"
    and "opened_at G o0 f O_WRONLY \<Longrightarrow> I (snd (f_WriteAt o0 s f data off))"
  using assms by (auto simp: survives_def)

text \<open>Closing a file that was opened for reading leaves every state as it is.\<close>

definition closes_pure :: "('fs, 'f) FileSystem \<Rightarrow> bool" where
  "closes_pure o0 \<longleftrightarrow> (\<forall>s p f s'. fs_OpenFile o0 s p O_RDONLY = Inr f \<longrightarrow> snd (f_Close o0 s' f) = s')"

lemma closes_pure_base: "closes_pure b \<Longrightarrow> closes_pure (NewBasePathFS b base)"
  by (simp add: closes_pure_def NewBasePathFS_def base_OpenFile_def)

lemma read_only_survives: "closes_pure r \<Longrightarrow> survives G (NewReadOnlyFS r) I"
  unfolding survives_def opened_at_def closes_pure_def
  by (auto simp: NewReadOnlyFS_def ro_OpenFile_def ro_Create_def ro_Do_def split: if_splits) (metis open_flag.exhaust)+

lemma call_paths_map_call: "call_paths (map_call g c) = map g (call_paths c)"
  by (cases c) simp_all

lemma base_methods:
  "fs_OpenFile (NewBasePathFS b base) = base_OpenFile base b" "fs_Create (NewBasePathFS b base) = base_Create base b"
  "fs_Do (NewBasePathFS b base) = base_Do base b"
  "f_Close (NewBasePathFS b base) = f_Close b" "f_WriteAt (NewBasePathFS b base) = f_WriteAt b"
  by (simp_all add: NewBasePathFS_def)

lemma base_survives:
  assumes "survives (below base) b I" and "canonical base"
  shows "survives canonical (NewBasePathFS b base) I"
proof -
  have r: "canonical p \<Longrightarrow> below base (resolvePath base p)" for p
    using resolvePath_below [OF assms(2)] canonical_ne by blast
  then have c: "list_all canonical ps \<Longrightarrow> list_all (below base) (map (resolvePath base) ps)" for ps
    by (simp add: list_all_iff)
  have "opened_at canonical (NewBasePathFS b base) f flag \<Longrightarrow> opened_at (below base) b f flag" for f flag
    using r by (auto simp: opened_at_def base_methods base_OpenFile_def base_Create_def)
  then have "opened_at canonical (NewBasePathFS b base) f flag \<Longrightarrow> I s \<Longrightarrow>
      I (snd (f_Close b s f)) \<and> (flag = O_WRONLY \<longrightarrow> (\<forall>data off. I (snd (f_WriteAt b s f data off))))" for s f flag
    using survives_parts(3,4) [OF assms(1)] by blast
  with r c show ?thesis
    unfolding survives_def
    by (auto simp: base_methods base_Create_def base_Do_def call_paths_map_call
        intro: survives_parts(1,2) [OF assms(1)])
qed

section \<open>Composition\<close>

text \<open>Every file system of the composition, and no mount at the empty path.\<close>

definition all_parts :: "(('fs, 'f) FileSystem \<Rightarrow> bool) \<Rightarrow> ('fs, 'f) ComposedFS \<Rightarrow> bool" where
  "all_parts Q c \<longleftrightarrow> Q (c_root c) \<and> (\<forall>(k, m) \<in> set (c_mounts c). k \<noteq> [] \<and> Q (mp_FS m))"

lemma resolve_part:
  assumes "all_parts Q c" and "canonical name"
  shows "case resolveMount c name of (None, rel) \<Rightarrow> rel = name \<and> Q (c_root c)
    | (Some m, rel) \<Rightarrow> canonical rel \<and> Q (mp_FS m)"
proof -
  obtain m rel where r: "resolveMount c name = (m, rel)" by fastforce
  have ne: "\<forall>(k, _) \<in> set (c_mounts c). k \<noteq> []" using assms(1) by (auto simp: all_parts_def)
  have rt: "routed name (set (c_mounts c)) m rel"
    using resolveMount_routed [OF r _ ne] canonical_ne [OF assms(2)] by simp
  show ?thesis
  proof (cases m)
    case None
    with rt r assms(1) show ?thesis by (simp add: routed_def all_parts_def)
  next
    case (Some mp)
    with routed_canonical [OF _ assms(2) ne, of mp rel] rt r assms(1) show ?thesis
      by (auto simp: all_parts_def)
  qed
qed

lemma on_mount_part:
  assumes "all_parts Q c" and "canonical name"
  obtains m p where "Q m" and "canonical p" and "on_mount c name k = k m p"
  using resolve_part [OF assms] assms(2) that
  by (auto simp: on_mount_def split: prod.splits option.splits)

lemma composed_Do_keeps:
  fixes c :: "('fs, 'f) ComposedFS"
  assumes parts: "all_parts (\<lambda>m. survives canonical m I) c" and s: "I s"
    and paths: "list_all canonical (call_paths call)"
  shows "I (snd (composed_Do c s call))"
proof -
  have route: "I (snd (on_mount c p (\<lambda>m q. fs_Do m s (g q))))"
    if p: "canonical p" and g: "\<And>q. call_paths (g q) = [q]" for p g
  proof -
    obtain m :: "('fs, 'f) FileSystem" and q where m: "survives canonical m I" "canonical q"
      and e: "on_mount c p (\<lambda>m q. fs_Do m s (g q)) = fs_Do m s (g q)"
      by (rule on_mount_part [OF parts p, where k = "\<lambda>m q. fs_Do m s (g q)"])
    show ?thesis unfolding e using survives_parts(2) [OF m(1) s, of "g q"] m(2) g by simp
  qed
  have rename: "I (snd (composed_Rename c s p q))" if "canonical p" "canonical q" for p q
    using resolve_part [OF parts that(1)] resolve_part [OF parts that(2)] that s
    by (auto simp: composed_Rename_def survives_parts(2) [where G = canonical and I = I, OF _ s]
        split: prod.splits option.splits)
  show ?thesis
    using paths by (cases call) (simp_all add: rename route)
qed

lemma composed_opened:
  assumes parts: "all_parts Q c" and "opened_at canonical (composed_ops c) (m, f) flag"
  shows "Q m \<and> opened_at canonical m f flag"
proof -
  from assms(2) obtain s p where p: "canonical p"
    and opened: "composed_OpenFile c s p flag = Inr (m, f) \<or> flag = O_WRONLY \<and> fst (composed_Create c s p) = Inr (m, f)"
    by (auto simp: opened_at_def composed_ops_def)
  from opened show ?thesis
  proof
    assume a: "composed_OpenFile c s p flag = Inr (m, f)"
    obtain m' q where "Q m'" "canonical q"
      "composed_OpenFile c s p flag = map_sum id (Pair m') (fs_OpenFile m' s q flag)"
      unfolding composed_OpenFile_def by (rule on_mount_part [OF parts p])
    with a show ?thesis by (cases "fs_OpenFile m' s q flag") (auto simp: opened_at_def)
  next
    assume a: "flag = O_WRONLY \<and> fst (composed_Create c s p) = Inr (m, f)"
    obtain m' q where "Q m'" "canonical q"
      "composed_Create c s p = map_prod (map_sum id (Pair m')) id (fs_Create m' s q)"
      unfolding composed_Create_def by (rule on_mount_part [OF parts p])
    with a show ?thesis by (cases "fst (fs_Create m' s q)") (auto simp: opened_at_def)
  qed
qed

lemma composed_survives:
  assumes parts: "all_parts (\<lambda>m. survives canonical m I) c"
  shows "survives canonical (composed_ops c) I"
proof -
  have "I (snd (composed_Create c s p))" if s: "I s" and p: "canonical p" for s p
  proof -
    obtain m q where m: "survives canonical m I" "canonical q"
      and e: "composed_Create c s p = map_prod (map_sum id (Pair m)) id (fs_Create m s q)"
      unfolding composed_Create_def by (rule on_mount_part [OF parts p])
    show ?thesis using survives_parts(1) [OF m(1) s m(2)] by (simp add: e)
  qed
  moreover have "I (snd (f_Close m s f)) \<and> (flag = O_WRONLY \<longrightarrow> (\<forall>data off. I (snd (f_WriteAt m s f data off))))"
    if s: "I s" and f: "opened_at canonical (composed_ops c) (m, f) flag" for s m f flag
  proof -
    from composed_opened [OF parts f] have m: "survives canonical m I" and f: "opened_at canonical m f flag" by simp_all
    from survives_parts(3) [OF m s f] survives_parts(4) [OF m s] f show ?thesis by auto
  qed
  ultimately show ?thesis
    unfolding survives_def using composed_Do_keeps [OF parts]
    by (simp add: composed_ops_def split_paired_all)
qed

lemma set_update_subset: "set (AList.update k v al) \<subseteq> insert (k, v) (set al)"
  by (induction al) auto

lemma Mount_parts:
  assumes "Mount mkdirAll path m info (c, s) = Inr (c', s')" and "all_parts Q c" and "Q m" and "path \<noteq> []"
  shows "all_parts Q c'"
  using assms set_update_subset [of path "\<lparr>mp_Path = path, mp_FS = m, mp_Info = info\<rparr>" "c_mounts c"]
  by (fastforce simp: Mount_def all_parts_def split: prod.splits option.splits)

lemma mount_dir_parts:
  assumes "mount_dir env dir wrap path label (c, s) = Inr (c', s')" and "all_parts Q c" and "path \<noteq> []"
    and "\<And>base o_fs. dir \<noteq> [] \<Longrightarrow> env_Abs env dir = Inr base \<Longrightarrow> env_osfs env = Inr o_fs \<Longrightarrow>
      Q (wrap (NewBasePathFS o_fs base))"
  shows "all_parts Q c'"
  using assms by (auto simp: mount_dir_def intro: Mount_parts split: if_splits sum.splits)

text \<open>The paths on the disk that are meant to be writable.\<close>

definition writable_area :: "('fs, 'f) environment \<Rightarrow> string list \<Rightarrow> string \<Rightarrow> bool" where
  "writable_area env dirs q \<longleftrightarrow> (\<exists>dir base. dir \<in> set dirs \<and> dir \<noteq> [] \<and> env_Abs env dir = Inr base \<and> below base q)"

lemma workspace_parts:
  assumes ws: "workspace env projectDir libsDir sharedDir s0 = Inr (c, s)"
    and "env_root env = Inr r" "Q r" and "env_scratch env = Inr t" "Q t"
    and ro: "\<And>base o_fs. env_Abs env libsDir = Inr base \<Longrightarrow> env_osfs env = Inr o_fs \<Longrightarrow> Q (NewReadOnlyFS (NewBasePathFS o_fs base))"
    and rw: "\<And>dir base o_fs. dir \<in> set [projectDir, sharedDir] \<Longrightarrow> dir \<noteq> [] \<Longrightarrow> env_Abs env dir = Inr base \<Longrightarrow>
      env_osfs env = Inr o_fs \<Longrightarrow> Q (NewBasePathFS o_fs base)"
  shows "all_parts Q c"
proof -
  obtain c1 s1 c2 s2 c3 s3 where
      1: "Mount (env_MkdirAll env) ''/scratch'' t ''In-memory scratch space'' (\<lparr>c_mounts = [], c_root = r\<rparr>, s0) = Inr (c1, s1)"
    and 2: "mount_dir env projectDir id ''/project'' ''Project directory: '' (c1, s1) = Inr (c2, s2)"
    and 3: "mount_dir env libsDir NewReadOnlyFS ''/libs'' ''Read-only libs: '' (c2, s2) = Inr (c3, s3)"
    and 4: "mount_dir env sharedDir id ''/shared'' ''Shared directory: '' (c3, s3) = Inr (c, s)"
    using ws assms(2,4) by (auto simp: workspace_def NewComposedFS_def split: sum.splits)
  have "all_parts Q c1" by (rule Mount_parts [OF 1]) (simp_all add: all_parts_def assms(3,5))
  then have "all_parts Q c2" by (rule mount_dir_parts [OF 2]) (simp_all add: rw [of projectDir])
  then have "all_parts Q c3" by (rule mount_dir_parts [OF 3]) (simp_all add: ro)
  then show ?thesis by (rule mount_dir_parts [OF 4]) (simp_all add: rw [of sharedDir])
qed

text \<open>
  C8: The clients of the composed workspace change nothing on the disk outside the project and the
  shared directory.  Take any property of the disk, and of the two in-memory file systems, that
  only a change at or below these two directories could destroy: it holds in every state that the
  server reaches, whatever arrives on its connections.  The library directory is outside, as long
  as it does not lie in one of the two: its read-only view passes no change on.
\<close>

theorem workspace_confined:
  assumes "workspace env projectDir libsDir sharedDir s0 = Inr (c, s)"
    and "New (composed_ops c) s ncpu clk verf newLogger opts = Inr h"
    and "listening h s1" and "rtranclp net_step s1 s2"
    and "env_root env = Inr r" "survives canonical r I" and "env_scratch env = Inr t" "survives canonical t I"
    and "env_osfs env = Inr o_fs" "survives (writable_area env [projectDir, sharedDir]) o_fs I" "closes_pure o_fs"
    and "\<And>dir base. env_Abs env dir = Inr base \<Longrightarrow> canonical base" and "I s"
  shows "\<exists>w. srv_handler s2 = Some w \<and> I (fs w)"
proof -
  have "all_parts (\<lambda>m. survives canonical m I) c"
  proof (rule workspace_parts [OF assms(1,5,6,7,8)])
    fix dir base o_fs'
    assume d: "dir \<in> set [projectDir, sharedDir]" "dir \<noteq> []" "env_Abs env dir = Inr base" "env_osfs env = Inr o_fs'"
    then have "survives (below base) o_fs' I"
      using survives_mono [OF assms(10)] assms(9) by (auto simp: writable_area_def)
    with assms(12) d(3) show "survives canonical (NewBasePathFS o_fs' base) I" by (intro base_survives)
  qed (use assms(9,11) in \<open>auto intro: read_only_survives closes_pure_base\<close>)
  then have sv: "survives canonical (composed_ops c) I" by (rule composed_survives)
  have h: "ops h = composed_ops c" "fs h = s" "nodes_canonical (fileMap h)"
    using good_New [OF assms(2)] assms(2) by (auto simp: good_state_def server_inv_def New_def Let_def split: if_splits option.splits sum.splits)
  obtain v where "srv_handler s1 = Some (h\<lparr>writeVerf := v\<rparr>)" using listening_state [OF assms(3)] .
  then have "has_handler (confined_at (composed_ops c) I) s1"
    using h assms(13) by (simp add: has_handler_def confined_at_def)
  from serving.P_net_steps [OF confined_serving [OF sv] assms(4) this] show ?thesis
    by (auto simp: has_handler_def confined_at_def)
qed

text \<open>
  C29: A name of the workspace is routed to the mount with the longest path that is the name or a
  directory above it, and what is left of the name is looked up there; a name below no mount goes to
  the root file system as it is.  The order in which the map of mounts is walked does not matter.
\<close>

theorem mount_resolution:
  assumes "resolveMount c path = (m, rel)" and "path \<noteq> []" and "[] \<notin> fst ` set (c_mounts c)"
    and "distinct (map fst (c_mounts c))" and "set (c_mounts c') = set (c_mounts c)"
  shows "(case m of
      None \<Rightarrow> rel = path \<and> (\<forall>k \<in> fst ` set (c_mounts c). path \<noteq> k \<and> (\<nexists>r. path = k @ CHR ''/'' # r))
    | Some mp \<Rightarrow> \<exists>k. (k, mp) \<in> set (c_mounts c) \<and>
        (path = k \<and> rel = ''/'' \<or> path = k @ rel \<and> (\<exists>r. rel = CHR ''/'' # r)) \<and>
        (\<forall>k' \<in> fst ` set (c_mounts c). path = k' \<or> (\<exists>r. path = k' @ CHR ''/'' # r) \<longrightarrow> length k' \<le> length k)) \<and>
    resolveMount c' path = (m, rel)"
proof -
  have ne: "\<forall>(k, _) \<in> set (c_mounts c). k \<noteq> []" using assms(3) by force
  have r: "routed path (set (c_mounts c)) m rel" using resolveMount_routed [OF assms(1,2) ne] .
  obtain m' rel' where c': "resolveMount c' path = (m', rel')" by fastforce
  have r': "routed path (set (c_mounts c)) m' rel'"
    using resolveMount_routed [OF c' assms(2)] ne assms(5) by simp
  have "(m', rel') = (m, rel)" by (rule routed_unique [OF r' r assms(4)])
  with c' routed_meaning [OF r] show ?thesis by simp
qed

section \<open>A sample workspace\<close>

text \<open>A state of three parts, the disk and the two in-memory file systems, each an instance of the
  in-memory file system of the other examples.\<close>

definition part_ops :: "('w \<Rightarrow> 's) \<Rightarrow> ('s \<Rightarrow> 'w \<Rightarrow> 'w) \<Rightarrow> ('s, 'f) FileSystem \<Rightarrow> ('w, 'f) FileSystem" where
  "part_ops get put m =
     \<lparr>fs_Lstat = (\<lambda>w. fs_Lstat m (get w)), fs_Stat = (\<lambda>w. fs_Stat m (get w)), fs_Readlink = (\<lambda>w. fs_Readlink m (get w)),
      fs_OpenFile = (\<lambda>w. fs_OpenFile m (get w)),
      f_Stat = (\<lambda>w. f_Stat m (get w)), f_ReadAt = (\<lambda>w. f_ReadAt m (get w)), f_Readdir = (\<lambda>w. f_Readdir m (get w)),
      f_WriteAt = (\<lambda>w f d n. map_prod id (\<lambda>s. put s w) (f_WriteAt m (get w) f d n)),
      f_Close = (\<lambda>w f. map_prod id (\<lambda>s. put s w) (f_Close m (get w) f)),
      fs_Create = (\<lambda>w p. map_prod id (\<lambda>s. put s w) (fs_Create m (get w) p)),
      fs_Do = (\<lambda>w c. map_prod id (\<lambda>s. put s w) (fs_Do m (get w) c))\<rparr>"

type_synonym sample_world = "memfs \<times> memfs \<times> memfs"

definition sample_disk :: "(sample_world, string) FileSystem" where
  "sample_disk = part_ops fst (\<lambda>d w. (d, snd w)) mem_ops"

definition sample_workspace_env :: "(sample_world, string) environment" where
  "sample_workspace_env =
     \<lparr>env_root = Inr (part_ops (\<lambda>w. fst (snd w)) (\<lambda>r w. (fst w, r, snd (snd w))) mem_ops),
      env_scratch = Inr (part_ops (\<lambda>w. snd (snd w)) (\<lambda>t w. (fst w, fst (snd w), t)) mem_ops),
      env_osfs = Inr sample_disk,
      env_Abs = (\<lambda>d. Inr (path_Clean (''/home/'' @ d))),
      env_MkdirAll = (\<lambda>w p m. (None, (fst w, AList.update p (MemDir m 0) (fst (snd w)), snd (snd w))))\<rparr>"

definition sample_world :: sample_world where
  "sample_world =
     ([(''/'', MemDir 493 0), (''/etc'', MemFile [7] 420 0), (''/home/work'', MemDir 493 0)], [(''/'', MemDir 493 0)], [(''/'', MemDir 493 0)])"

definition sample_workspace :: "(sample_world, string) ComposedFS \<times> sample_world" where
  "sample_workspace = (case workspace sample_workspace_env ''work'' ''lib'' '''' sample_world of Inr cs \<Rightarrow> cs)"

definition sample_workspace_server :: "(sample_world, (sample_world, string) open_file) AbsfsNFS" where
  "sample_workspace_server =
     (case New (composed_ops (fst sample_workspace)) (snd sample_workspace) 4 sample_clock [1, 2, 3, 4, 5, 6, 7, 8] (\<lambda>_. None) sample_options of
        Inr h \<Rightarrow> h)"

lemma part_survives_other:
  assumes "\<And>w s. J (put s w) = J w"
  shows "survives G (part_ops get put m) J"
  using assms by (auto simp: survives_def part_ops_def)

lemma part_survives:
  assumes "survives G m J" and "\<And>w s. get (put s w) = s"
  shows "survives G (part_ops get put m) (\<lambda>w. J (get w))"
proof -
  have "opened_at G (part_ops get put m) f flag \<Longrightarrow> opened_at G m f flag" for f flag
    by (auto simp: opened_at_def part_ops_def)
  then have "J (get w) \<Longrightarrow> opened_at G (part_ops get put m) f flag \<Longrightarrow> J (snd (f_Close m (get w) f)) \<and>
      (flag = O_WRONLY \<longrightarrow> (\<forall>data off. J (snd (f_WriteAt m (get w) f data off))))" for w f flag
    using survives_parts(3,4) [OF assms(1)] by blast
  then have "\<forall>w f flag. J (get w) \<longrightarrow> opened_at G (part_ops get put m) f flag \<longrightarrow>
      J (get (snd (f_Close (part_ops get put m) w f))) \<and>
      (flag = O_WRONLY \<longrightarrow> (\<forall>data off. J (get (snd (f_WriteAt (part_ops get put m) w f data off)))))"
    by (simp add: part_ops_def assms(2))
  with survives_parts(1,2) [OF assms(1)] show ?thesis
    unfolding survives_def by (simp add: part_ops_def assms(2))
qed

lemma below_append: "below base q \<Longrightarrow> \<exists>r. q = base @ r"
proof -
  assume "below base q"
  then obtain bs cs where "base = abs_path bs" "q = abs_path (bs @ cs)" by (auto simp: below_def)
  then show ?thesis
    by (cases "bs = [] \<or> cs = []") (auto simp: abs_path_def join_slash_append)
qed

lemma sample_workspace_built:
  "workspace sample_workspace_env ''work'' ''lib'' '''' sample_world = Inr (fst sample_workspace, snd sample_workspace)"
  "New (composed_ops (fst sample_workspace)) (snd sample_workspace) 4 sample_clock [1, 2, 3, 4, 5, 6, 7, 8] (\<lambda>_. None) sample_options =
     Inr sample_workspace_server"
proof -
  show ws: "workspace sample_workspace_env ''work'' ''lib'' '''' sample_world = Inr (fst sample_workspace, snd sample_workspace)"
    by (simp add: sample_workspace_def workspace_def mount_dir_def Mount_def NewComposedFS_def sample_workspace_env_def)
  have "fs_Stat (composed_ops (fst sample_workspace)) (snd sample_workspace) ''/'' = Inr (mem_info ''/'' (MemDir 493 0))"
    by (simp add: sample_workspace_def workspace_def mount_dir_def Mount_def NewComposedFS_def sample_workspace_env_def sample_world_def
        composed_ops_def composed_Stat_def on_mount_def resolveMount_def prefix_matches_def part_ops_def mem_ops_def mem_Lstat_def)
  moreover have "valid_squash ''none''" by code_simp
  ultimately show "New (composed_ops (fst sample_workspace)) (snd sample_workspace) 4 sample_clock [1, 2, 3, 4, 5, 6, 7, 8] (\<lambda>_. None)
      sample_options = Inr sample_workspace_server"
    using sample_settings by (simp add: sample_workspace_server_def New_def Let_def option_defaults_def)
qed

theorem workspace_confined_witness:
  "\<exists>w. srv_handler (srv_turn sample_env 0 (srv_accept 0 sample_peer [1, 2, 3] 3 (sample_net sample_workspace_server))) = Some w \<and>
    map_of (fst (fs w)) ''/etc'' = Some (MemFile [7] 420 0)"
proof -
  let ?I = "\<lambda>w :: sample_world. map_of (fst w) ''/etc'' = Some (MemFile [7] 420 0)"
  let ?area = "writable_area sample_workspace_env [''work'', '''']"
  have "path_Clean ''/home/work'' = ''/home/work''" by code_simp
  then have "\<not> ?area ''/etc''"
    by (auto simp: writable_area_def sample_workspace_env_def dest: below_append)
  then have "survives ?area sample_disk ?I"
    unfolding sample_disk_def
    using part_survives [OF mem_survives [of ?area "''/etc''"], where get = fst and put = "\<lambda>d w. (d, snd w)"] by simp
  moreover have "rtranclp net_step (sample_net sample_workspace_server)
      (srv_turn sample_env 0 (srv_accept 0 sample_peer [1, 2, 3] 3 (sample_net sample_workspace_server)))"
    by (rule converse_rtranclp_into_rtranclp [where r = net_step, OF net_step.accept], simp add: sample_net_facts)
      (rule r_into_rtranclp [where r = net_step], rule net_step.turn)
  moreover have "closes_pure sample_disk"
    by (simp add: closes_pure_def sample_disk_def part_ops_def mem_ops_def)
  moreover have "?I (snd sample_workspace)" by code_simp
  ultimately show ?thesis
    using workspace_confined [OF sample_workspace_built sample_net_listening, where I = ?I]
    by (simp add: sample_workspace_env_def part_survives_other path_Clean_canonical)
qed

definition sample_routing :: "(memfs, string) ComposedFS" where
  "sample_routing =
     \<lparr>c_mounts = map (\<lambda>p. (p, \<lparr>mp_Path = p, mp_FS = mem_ops, mp_Info = []\<rparr>)) [''/a'', ''/a/b'', ''/ab''], c_root = mem_ops\<rparr>"

theorem mount_resolution_witness:
  "resolveMount (sample_routing\<lparr>c_mounts := rev (c_mounts sample_routing)\<rparr>) ''/a/b/c'' =
     (Some \<lparr>mp_Path = ''/a/b'', mp_FS = mem_ops, mp_Info = []\<rparr>, ''/c'')"
proof -
  have "resolveMount sample_routing ''/a/b/c'' = (Some \<lparr>mp_Path = ''/a/b'', mp_FS = mem_ops, mp_Info = []\<rparr>, ''/c'')"
    by (simp add: resolveMount_def sample_routing_def prefix_matches_def Let_def)
  moreover have "[] \<notin> fst ` set (c_mounts sample_routing)" "distinct (map fst (c_mounts sample_routing))"
    by (simp_all add: sample_routing_def)
  ultimately show ?thesis
    using mount_resolution [of sample_routing "''/a/b/c''" _ _ "sample_routing\<lparr>c_mounts := rev (c_mounts sample_routing)\<rparr>"]
    by simp
qed

end
