(* ===== verification/Metrics.thy ===== *)
theory Metrics
  imports Cache Auth "HOL-Library.Signed_Division" "HOL-Library.Multiset"
begin

text \<open>
  The metrics collector (\<open>metrics.go\<close>, \<open>metrics_api.go\<close>): counters, the ring buffers of recent
  latencies and results, the statistics over them and the health check.  Hit rates are exact
  quotients instead of \<open>float64\<close>.  The two places where floating point decides something are exact
  as written here: \<open>int(float64(n-1) * 0.95)\<close> is \<open>(n - 1) * 19 div 20\<close> for the sample counts up to
  1000, and a quotient of counts exceeds one half in \<open>float64\<close> just when it does.
\<close>

section \<open>State\<close>

record NFSMetrics =
  TotalOperations :: u64
  ReadOperations :: u64
  WriteOperations :: u64
  LookupOperations :: u64
  GetAttrOperations :: u64
  CreateOperations :: u64
  RemoveOperations :: u64
  RenameOperations :: u64
  MkdirOperations :: u64
  RmdirOperations :: u64
  ReaddirOperations :: u64
  AccessOperations :: u64
  AvgReadLatency :: duration
  AvgWriteLatency :: duration
  MaxReadLatency :: duration
  MaxWriteLatency :: duration
  P95ReadLatency :: duration
  P95WriteLatency :: duration
  CacheHitRate :: rat
  AttrCacheSize :: nat
  AttrCacheCapacity :: int
  DirCacheHitRate :: rat
  NegativeCacheSize :: nat
  NegativeCacheHitRate :: rat
  ActiveConnections :: int
  TotalConnections :: u64
  RejectedConnections :: u64
  TLSHandshakes :: u64
  TLSHandshakeFailures :: u64
  TLSClientCertProvided :: u64
  TLSClientCertValidated :: u64
  TLSClientCertRejected :: u64
  TLSSessionReused :: u64
  TLSVersion12 :: u64
  TLSVersion13 :: u64
  ErrorCount :: u64
  AuthFailures :: u64
  AccessViolations :: u64
  StaleHandles :: u64
  ResourceErrors :: u64
  RateLimitExceeded :: u64
  ReadTimeouts :: u64
  WriteTimeouts :: u64
  LookupTimeouts :: u64
  ReaddirTimeouts :: u64
  CreateTimeouts :: u64
  RemoveTimeouts :: u64
  RenameTimeouts :: u64
  HandleTimeouts :: u64
  TotalTimeouts :: u64
  StartTime :: time
  UptimeSeconds :: int

record MetricsCollector =
  metrics :: NFSMetrics
  attrCacheHits :: u64
  attrCacheMisses :: u64
  dirCacheHits :: u64
  dirCacheMisses :: u64
  negativeCacheHits :: u64
  negativeCacheMisses :: u64
  readLatencies :: "duration list"
  readLatIdx :: nat
  readLatLen :: nat
  writeLatencies :: "duration list"
  writeLatIdx :: nat
  writeLatLen :: nat
  maxLatencySamples :: nat
  recentResults :: "bool list"
  recentResultsIdx :: nat
  recentResultsCap :: nat
  recentResultsLen :: nat

definition zero_metrics :: "time \<Rightarrow> NFSMetrics" where
  "zero_metrics now =
     \<lparr>TotalOperations = 0, ReadOperations = 0, WriteOperations = 0, LookupOperations = 0, GetAttrOperations = 0,
      CreateOperations = 0, RemoveOperations = 0, RenameOperations = 0, MkdirOperations = 0, RmdirOperations = 0,
      ReaddirOperations = 0, AccessOperations = 0, AvgReadLatency = 0, AvgWriteLatency = 0, MaxReadLatency = 0,
      MaxWriteLatency = 0, P95ReadLatency = 0, P95WriteLatency = 0, CacheHitRate = 0, AttrCacheSize = 0,
      AttrCacheCapacity = 0, DirCacheHitRate = 0, NegativeCacheSize = 0, NegativeCacheHitRate = 0,
      ActiveConnections = 0, TotalConnections = 0, RejectedConnections = 0, TLSHandshakes = 0,
      TLSHandshakeFailures = 0, TLSClientCertProvided = 0, TLSClientCertValidated = 0, TLSClientCertRejected = 0,
      TLSSessionReused = 0, TLSVersion12 = 0, TLSVersion13 = 0, ErrorCount = 0, AuthFailures = 0,
      AccessViolations = 0, StaleHandles = 0, ResourceErrors = 0, RateLimitExceeded = 0, ReadTimeouts = 0,
      WriteTimeouts = 0, LookupTimeouts = 0, ReaddirTimeouts = 0, CreateTimeouts = 0, RemoveTimeouts = 0,
      RenameTimeouts = 0, HandleTimeouts = 0, TotalTimeouts = 0, StartTime = now, UptimeSeconds = 0\<rparr>"

abbreviation (input) latencyCap :: nat where "latencyCap \<equiv> 1000"

definition NewMetricsCollector :: "time \<Rightarrow> MetricsCollector" where
  "NewMetricsCollector now =
     \<lparr>metrics = zero_metrics now, attrCacheHits = 0, attrCacheMisses = 0, dirCacheHits = 0, dirCacheMisses = 0,
      negativeCacheHits = 0, negativeCacheMisses = 0, readLatencies = replicate latencyCap 0, readLatIdx = 0,
      readLatLen = 0, writeLatencies = replicate latencyCap 0, writeLatIdx = 0, writeLatLen = 0,
      maxLatencySamples = latencyCap, recentResults = replicate latencyCap False, recentResultsIdx = 0,
      recentResultsCap = latencyCap, recentResultsLen = 0\<rparr>"

section \<open>Counters\<close>

definition count_operation :: "string \<Rightarrow> NFSMetrics \<Rightarrow> NFSMetrics" where
  "count_operation opType m =
     (let m = m\<lparr>TotalOperations := TotalOperations m + 1\<rparr>
      in if opType = ''READ'' then m\<lparr>ReadOperations := ReadOperations m + 1\<rparr>
         else if opType = ''WRITE'' then m\<lparr>WriteOperations := WriteOperations m + 1\<rparr>
         else if opType = ''LOOKUP'' then m\<lparr>LookupOperations := LookupOperations m + 1\<rparr>
         else if opType = ''GETATTR'' then m\<lparr>GetAttrOperations := GetAttrOperations m + 1\<rparr>
         else if opType = ''CREATE'' then m\<lparr>CreateOperations := CreateOperations m + 1\<rparr>
         else if opType = ''REMOVE'' then m\<lparr>RemoveOperations := RemoveOperations m + 1\<rparr>
         else if opType = ''RENAME'' then m\<lparr>RenameOperations := RenameOperations m + 1\<rparr>
         else if opType = ''MKDIR'' then m\<lparr>MkdirOperations := MkdirOperations m + 1\<rparr>
         else if opType = ''RMDIR'' then m\<lparr>RmdirOperations := RmdirOperations m + 1\<rparr>
         else if opType = ''READDIR'' then m\<lparr>ReaddirOperations := ReaddirOperations m + 1\<rparr>
         else if opType = ''ACCESS'' then m\<lparr>AccessOperations := AccessOperations m + 1\<rparr>
         else m)"

definition IncrementOperationCount :: "string \<Rightarrow> MetricsCollector \<Rightarrow> MetricsCollector" where
  "IncrementOperationCount opType c = c\<lparr>metrics := count_operation opType (metrics c)\<rparr>"

definition count_error :: "string \<Rightarrow> NFSMetrics \<Rightarrow> NFSMetrics" where
  "count_error errorType m =
     (let m = m\<lparr>ErrorCount := ErrorCount m + 1\<rparr>
      in if errorType = ''AUTH'' then m\<lparr>AuthFailures := AuthFailures m + 1\<rparr>
         else if errorType = ''ACCESS'' then m\<lparr>AccessViolations := AccessViolations m + 1\<rparr>
         else if errorType = ''STALE'' then m\<lparr>StaleHandles := StaleHandles m + 1\<rparr>
         else if errorType = ''RESOURCE'' then m\<lparr>ResourceErrors := ResourceErrors m + 1\<rparr>
         else if errorType = ''RATELIMIT'' then m\<lparr>RateLimitExceeded := RateLimitExceeded m + 1\<rparr>
         else m)"

definition RecordError :: "string \<Rightarrow> MetricsCollector \<Rightarrow> MetricsCollector" where
  "RecordError errorType c = c\<lparr>metrics := count_error errorType (metrics c)\<rparr>"

definition RecordRateLimitExceeded :: "MetricsCollector \<Rightarrow> MetricsCollector" where
  "RecordRateLimitExceeded c = c\<lparr>metrics := (metrics c)\<lparr>RateLimitExceeded := RateLimitExceeded (metrics c) + 1\<rparr>\<rparr>"

definition count_timeout :: "string \<Rightarrow> NFSMetrics \<Rightarrow> NFSMetrics" where
  "count_timeout opType m =
     (let m = m\<lparr>TotalTimeouts := TotalTimeouts m + 1\<rparr>
      in if opType = ''READ'' then m\<lparr>ReadTimeouts := ReadTimeouts m + 1\<rparr>
         else if opType = ''WRITE'' then m\<lparr>WriteTimeouts := WriteTimeouts m + 1\<rparr>
         else if opType = ''LOOKUP'' then m\<lparr>LookupTimeouts := LookupTimeouts m + 1\<rparr>
         else if opType = ''READDIR'' then m\<lparr>ReaddirTimeouts := ReaddirTimeouts m + 1\<rparr>
         else if opType = ''CREATE'' then m\<lparr>CreateTimeouts := CreateTimeouts m + 1\<rparr>
         else if opType = ''REMOVE'' then m\<lparr>RemoveTimeouts := RemoveTimeouts m + 1\<rparr>
         else if opType = ''RENAME'' then m\<lparr>RenameTimeouts := RenameTimeouts m + 1\<rparr>
         else if opType = ''HANDLE'' then m\<lparr>HandleTimeouts := HandleTimeouts m + 1\<rparr>
         else m)"

definition RecordTimeout :: "string \<Rightarrow> MetricsCollector \<Rightarrow> MetricsCollector" where
  "RecordTimeout opType c = c\<lparr>metrics := count_timeout opType (metrics c)\<rparr>"

definition RecordConnection :: "MetricsCollector \<Rightarrow> MetricsCollector" where
  "RecordConnection c =
     c\<lparr>metrics := (metrics c)\<lparr>TotalConnections := TotalConnections (metrics c) + 1,
                              ActiveConnections := ActiveConnections (metrics c) + 1\<rparr>\<rparr>"

definition RecordConnectionClosed :: "MetricsCollector \<Rightarrow> MetricsCollector" where
  "RecordConnectionClosed c =
     (if ActiveConnections (metrics c) > 0
      then c\<lparr>metrics := (metrics c)\<lparr>ActiveConnections := ActiveConnections (metrics c) - 1\<rparr>\<rparr> else c)"

definition RecordRejectedConnection :: "MetricsCollector \<Rightarrow> MetricsCollector" where
  "RecordRejectedConnection c = c\<lparr>metrics := (metrics c)\<lparr>RejectedConnections := RejectedConnections (metrics c) + 1\<rparr>\<rparr>"

definition RecordTLSHandshake :: "MetricsCollector \<Rightarrow> MetricsCollector" where
  "RecordTLSHandshake c = c\<lparr>metrics := (metrics c)\<lparr>TLSHandshakes := TLSHandshakes (metrics c) + 1\<rparr>\<rparr>"

definition RecordTLSHandshakeFailure :: "MetricsCollector \<Rightarrow> MetricsCollector" where
  "RecordTLSHandshakeFailure c =
     c\<lparr>metrics := (metrics c)\<lparr>TLSHandshakeFailures := TLSHandshakeFailures (metrics c) + 1\<rparr>\<rparr>"

definition RecordTLSClientCert :: "bool \<Rightarrow> MetricsCollector \<Rightarrow> MetricsCollector" where
  "RecordTLSClientCert validated c =
     (let m = (metrics c)\<lparr>TLSClientCertProvided := TLSClientCertProvided (metrics c) + 1\<rparr>
      in c\<lparr>metrics :=
           (if validated then m\<lparr>TLSClientCertValidated := TLSClientCertValidated m + 1\<rparr>
            else m\<lparr>TLSClientCertRejected := TLSClientCertRejected m + 1\<rparr>)\<rparr>)"

definition RecordTLSSessionReused :: "MetricsCollector \<Rightarrow> MetricsCollector" where
  "RecordTLSSessionReused c = c\<lparr>metrics := (metrics c)\<lparr>TLSSessionReused := TLSSessionReused (metrics c) + 1\<rparr>\<rparr>"

definition RecordTLSVersion :: "u16 \<Rightarrow> MetricsCollector \<Rightarrow> MetricsCollector" where
  "RecordTLSVersion version c =
     (if version = 0x0303 then c\<lparr>metrics := (metrics c)\<lparr>TLSVersion12 := TLSVersion12 (metrics c) + 1\<rparr>\<rparr>
      else if version = 0x0304 then c\<lparr>metrics := (metrics c)\<lparr>TLSVersion13 := TLSVersion13 (metrics c) + 1\<rparr>\<rparr>
      else c)"

section \<open>Hit rates\<close>

text \<open>The new rate, or the old one while nothing was counted; the total wraps like the counters.\<close>

definition hit_rate :: "u64 \<Rightarrow> u64 \<Rightarrow> rat \<Rightarrow> rat" where
  "hit_rate nhits nmisses old =
     (let total = nhits + nmisses in if total > 0 then of_nat (unat nhits) / of_nat (unat total) else old)"

definition updateCacheHitRate :: "MetricsCollector \<Rightarrow> MetricsCollector" where
  "updateCacheHitRate c =
     c\<lparr>metrics := (metrics c)\<lparr>CacheHitRate := hit_rate (attrCacheHits c) (attrCacheMisses c) (CacheHitRate (metrics c))\<rparr>\<rparr>"

definition updateDirCacheHitRate :: "MetricsCollector \<Rightarrow> MetricsCollector" where
  "updateDirCacheHitRate c =
     c\<lparr>metrics := (metrics c)\<lparr>DirCacheHitRate := hit_rate (dirCacheHits c) (dirCacheMisses c) (DirCacheHitRate (metrics c))\<rparr>\<rparr>"

definition updateNegativeCacheHitRate :: "MetricsCollector \<Rightarrow> MetricsCollector" where
  "updateNegativeCacheHitRate c =
     c\<lparr>metrics := (metrics c)\<lparr>NegativeCacheHitRate :=
       hit_rate (negativeCacheHits c) (negativeCacheMisses c) (NegativeCacheHitRate (metrics c))\<rparr>\<rparr>"

definition RecordAttrCacheHit :: "MetricsCollector \<Rightarrow> MetricsCollector" where
  "RecordAttrCacheHit c = updateCacheHitRate (c\<lparr>attrCacheHits := attrCacheHits c + 1\<rparr>)"

definition RecordAttrCacheMiss :: "MetricsCollector \<Rightarrow> MetricsCollector" where
  "RecordAttrCacheMiss c = updateCacheHitRate (c\<lparr>attrCacheMisses := attrCacheMisses c + 1\<rparr>)"

definition RecordDirCacheHit :: "MetricsCollector \<Rightarrow> MetricsCollector" where
  "RecordDirCacheHit c = updateDirCacheHitRate (c\<lparr>dirCacheHits := dirCacheHits c + 1\<rparr>)"

definition RecordDirCacheMiss :: "MetricsCollector \<Rightarrow> MetricsCollector" where
  "RecordDirCacheMiss c = updateDirCacheHitRate (c\<lparr>dirCacheMisses := dirCacheMisses c + 1\<rparr>)"

definition RecordNegativeCacheHit :: "MetricsCollector \<Rightarrow> MetricsCollector" where
  "RecordNegativeCacheHit c = updateNegativeCacheHitRate (c\<lparr>negativeCacheHits := negativeCacheHits c + 1\<rparr>)"

definition RecordNegativeCacheMiss :: "MetricsCollector \<Rightarrow> MetricsCollector" where
  "RecordNegativeCacheMiss c = updateNegativeCacheHitRate (c\<lparr>negativeCacheMisses := negativeCacheMisses c + 1\<rparr>)"

text \<open>\<open>server.attrCache\<close> as the collector finds it; \<open>now\<close> for the uptime.\<close>

definition updateCacheMetrics :: "AttrCache option \<Rightarrow> MetricsCollector \<Rightarrow> MetricsCollector" where
  "updateCacheMetrics ac c =
     (case ac of
        None \<Rightarrow> c
      | Some a \<Rightarrow>
          (case AttrCache_Stats a of (sz, cap) \<Rightarrow>
             c\<lparr>metrics := (metrics c)\<lparr>AttrCacheSize := sz, AttrCacheCapacity := cap,
                                      NegativeCacheSize := NegativeStats a\<rparr>\<rparr>))"

definition GetMetrics :: "AttrCache option \<Rightarrow> time \<Rightarrow> MetricsCollector \<Rightarrow> NFSMetrics \<times> MetricsCollector" where
  "GetMetrics ac now c =
     (let c = updateCacheMetrics ac c;
          c = c\<lparr>metrics := (metrics c)\<lparr>UptimeSeconds := (now - StartTime (metrics c)) sdiv second\<rparr>\<rparr>
      in (metrics c, c))"

section \<open>Ring buffers\<close>

text \<open>A write at the next position of a ring: the buffer, the position, and the entries written.\<close>

definition ring_put :: "nat \<Rightarrow> 'a \<Rightarrow> 'a list \<times> nat \<times> nat \<Rightarrow> 'a list \<times> nat \<times> nat" where
  "ring_put cap x r =
     (case r of (buf, idx, len) \<Rightarrow>
        (buf[idx := x], (idx + 1) mod cap, if len < cap then len + 1 else len))"

definition sortDurations :: "duration list \<Rightarrow> duration list" where
  "sortDurations durations = sort durations"

definition updateLatencyStats :: "duration list \<Rightarrow> duration \<times> duration \<Rightarrow> duration \<times> duration" where
  "updateLatencyStats samples st =
     (let n = length samples
      in if n = 0 then st
         else
           let sum = fold (\<lambda>d s. wrap64 (s + d)) samples 0;
               avg = sum sdiv int n;
               p95 = (if n \<ge> 20 then sortDurations samples ! ((n - 1) * 19 div 20) else snd st)
           in (avg, p95))"

definition RecordLatency :: "string \<Rightarrow> duration \<Rightarrow> MetricsCollector \<Rightarrow> MetricsCollector" where
  "RecordLatency opType d c =
     (if opType = ''READ'' then
        let m = metrics c;
            m = (if d > MaxReadLatency m then m\<lparr>MaxReadLatency := d\<rparr> else m);
            (buf, idx, len) = ring_put (maxLatencySamples c) d (readLatencies c, readLatIdx c, readLatLen c);
            (avg, p95) = updateLatencyStats (take len buf) (AvgReadLatency m, P95ReadLatency m)
        in c\<lparr>readLatencies := buf, readLatIdx := idx, readLatLen := len,
             metrics := m\<lparr>AvgReadLatency := avg, P95ReadLatency := p95\<rparr>\<rparr>
      else if opType = ''WRITE'' then
        let m = metrics c;
            m = (if d > MaxWriteLatency m then m\<lparr>MaxWriteLatency := d\<rparr> else m);
            (buf, idx, len) = ring_put (maxLatencySamples c) d (writeLatencies c, writeLatIdx c, writeLatLen c);
            (avg, p95) = updateLatencyStats (take len buf) (AvgWriteLatency m, P95WriteLatency m)
        in c\<lparr>writeLatencies := buf, writeLatIdx := idx, writeLatLen := len,
             metrics := m\<lparr>AvgWriteLatency := avg, P95WriteLatency := p95\<rparr>\<rparr>
      else c)"

definition RecordOperationResult :: "bool \<Rightarrow> MetricsCollector \<Rightarrow> MetricsCollector" where
  "RecordOperationResult isError c =
     (let (buf, idx, len) = ring_put (recentResultsCap c) isError (recentResults c, recentResultsIdx c, recentResultsLen c)
      in c\<lparr>recentResults := buf, recentResultsIdx := idx, recentResultsLen := len\<rparr>)"

definition IsHealthy :: "MetricsCollector \<Rightarrow> bool" where
  "IsHealthy c =
     (let n = recentResultsLen c;
          errors = length (filter id (take n (recentResults c)))
      in if n > 0 \<and> 2 * errors > n then False
         else \<not> (P95ReadLatency (metrics c) > 5 * second \<or> P95WriteLatency (metrics c) > 5 * second))"

section \<open>Recording an operation\<close>

text \<open>The classification of an error by its text, \<open>err.Error()\<close>, and for permissions by \<open>errors.Is\<close>.\<close>

definition isStaleFileHandle :: "string \<Rightarrow> bool" where
  "isStaleFileHandle msg \<longleftrightarrow>
     strings_Contains msg ''stale'' \<or> strings_Contains msg ''ESTALE'' \<or>
     strings_Contains msg ''no such file or directory'' \<or> strings_Contains msg ''file handle''"

definition isAuthError :: "goerr \<Rightarrow> string \<Rightarrow> bool" where
  "isAuthError err msg \<longleftrightarrow>
     errors_Is err ErrPermission \<or> strings_Contains msg ''permission denied'' \<or> strings_Contains msg ''EACCES'' \<or>
     strings_Contains msg ''EPERM'' \<or> strings_Contains msg ''authentication'' \<or> strings_Contains msg ''unauthorized''"

definition isResourceError :: "string \<Rightarrow> bool" where
  "isResourceError msg \<longleftrightarrow>
     list_ex (strings_Contains msg)
       [''no space left'', ''ENOSPC'', ''ENOMEM'', ''out of memory'', ''too many'', ''EMFILE'', ''ENFILE'',
        ''quota exceeded'', ''resource'', ''limit'']"

text \<open>\<open>RecordOperationStart\<close> counts the operation and returns the function to call at its end.\<close>

definition RecordOperationStart :: "string \<Rightarrow> MetricsCollector \<Rightarrow> MetricsCollector" where
  "RecordOperationStart opType c = IncrementOperationCount opType c"

definition operation_end ::
    "bool \<Rightarrow> string \<Rightarrow> duration \<Rightarrow> (goerr \<times> string) option \<Rightarrow> MetricsCollector \<Rightarrow> MetricsCollector" where
  "operation_end readOnly opType elapsed err c =
     (let c = RecordOperationResult (err \<noteq> None) c;
          c = (if opType = ''READ'' \<or> opType = ''WRITE'' then RecordLatency opType elapsed c else c)
      in case err of
           None \<Rightarrow> c
         | Some (e, msg) \<Rightarrow>
             RecordError
               (if readOnly \<and> opType = ''WRITE'' then ''ACCESS''
                else if isStaleFileHandle msg then ''STALE''
                else if isAuthError e msg then ''AUTH''
                else if isResourceError msg then ''RESOURCE''
                else ''UNKNOWN'') c)"

text \<open>The methods of the server object, which work without a collector.\<close>

definition nfs_GetMetrics :: "AttrCache option \<Rightarrow> time \<Rightarrow> MetricsCollector option \<Rightarrow> NFSMetrics \<times> MetricsCollector option" where
  "nfs_GetMetrics ac now mc =
     (case mc of
        None \<Rightarrow> (zero_metrics now, None)
      | Some c \<Rightarrow> map_prod id Some (GetMetrics ac now c))"

definition nfs_IsHealthy :: "MetricsCollector option \<Rightarrow> bool" where
  "nfs_IsHealthy mc = (case mc of None \<Rightarrow> True | Some c \<Rightarrow> IsHealthy c)"

section \<open>A ring holds the most recent entries\<close>

definition recent :: "nat \<Rightarrow> 'a list \<Rightarrow> 'a list" where
  "recent n xs = drop (length xs - n) xs"

text \<open>The ring after the entries \<open>xs\<close>: where each of the recent ones is.\<close>

definition ring_of :: "nat \<Rightarrow> 'a list \<Rightarrow> 'a list \<times> nat \<times> nat \<Rightarrow> bool" where
  "ring_of cap xs r \<longleftrightarrow>
     (case r of (buf, idx, len) \<Rightarrow>
        length buf = cap \<and> idx = length xs mod cap \<and> len = min (length xs) cap \<and>
        (\<forall>j. length xs - cap \<le> j \<and> j < length xs \<longrightarrow> buf ! (j mod cap) = xs ! j))"

lemma ring_of_new: "0 < cap \<Longrightarrow> ring_of cap [] (replicate cap a, 0, 0)"
  by (simp add: ring_of_def)

lemma mod_window: "0 < cap \<Longrightarrow> j < n \<Longrightarrow> n < j + cap \<Longrightarrow> j mod cap \<noteq> n mod cap" for j n cap :: nat
proof
  assume a: "0 < cap" "j < n" "n < j + cap" "j mod cap = n mod cap"
  then have "cap dvd n - j" by (metis mod_eq_dvd_iff_nat less_imp_le)
  with a show False by (auto dest: dvd_imp_le)
qed

lemma ring_of_put:
  assumes "0 < cap" and "ring_of cap xs r"
  shows "ring_of cap (xs @ [x]) (ring_put cap x r)"
proof -
  obtain buf idx len where r: "r = (buf, idx, len)" by (cases r) auto
  have "(buf[idx := x]) ! (j mod cap) = (xs @ [x]) ! j" if "length xs + 1 - cap \<le> j" "j < length xs + 1" for j
  proof (cases "j = length xs")
    case True
    with assms show ?thesis by (simp add: r ring_of_def)
  next
    case False
    with that have j: "j < length xs" "length xs < j + cap" by auto
    with mod_window [OF assms(1) j] assms(2) that show ?thesis by (auto simp: r ring_of_def nth_append)
  qed
  with assms show ?thesis by (auto simp: r ring_of_def ring_put_def mod_Suc)
qed

lemma ring_of_fold:
  "0 < cap \<Longrightarrow> ring_of cap xs r \<Longrightarrow> ring_of cap (xs @ ys) (fold (ring_put cap) ys r)"
proof (induction ys arbitrary: xs r)
  case (Cons y ys)
  from Cons.IH [OF Cons.prems(1) ring_of_put [OF Cons.prems]] show ?case by simp
qed simp

lemma ring_of_contents:
  assumes "0 < cap" and "ring_of cap xs (buf, idx, len)"
  shows "mset (take len buf) = mset (recent cap xs)" and "len = length (recent cap xs)"
proof -
  show len: "len = length (recent cap xs)" using assms by (auto simp: ring_of_def recent_def)
  have buf: "length buf = cap" and at: "\<And>j. length xs - cap \<le> j \<Longrightarrow> j < length xs \<Longrightarrow> buf ! (j mod cap) = xs ! j"
    using assms(2) by (auto simp: ring_of_def)
  show "mset (take len buf) = mset (recent cap xs)"
  proof (cases "length xs \<le> cap")
    case True
    then have "take len buf = xs"
      using at buf len by (intro nth_equalityI) (auto simp: recent_def)
    with True show ?thesis by (simp add: recent_def)
  next
    case False
    define d where "d = length xs - cap"
    have n: "length xs = d + cap" using False by (simp add: d_def)
    have perm: "bij_betw (\<lambda>i. (d + i) mod cap) {..<cap} {..<cap}"
    proof (rule bij_betwI')
      fix i k assume ik: "i \<in> {..<cap}" "k \<in> {..<cap}"
      show "((d + i) mod cap = (d + k) mod cap) = (i = k)"
        using ik mod_window [OF assms(1), of "d + i" "d + k"] mod_window [OF assms(1), of "d + k" "d + i"]
        by (cases i k rule: linorder_cases) auto
    next
      fix k assume k: "k \<in> {..<cap}"
      let ?i = "(k + (cap - d mod cap)) mod cap"
      have "(d + ?i) mod cap = (d mod cap + (k + (cap - d mod cap))) mod cap"
        by (simp add: mod_add_left_eq mod_add_right_eq)
      also have "\<dots> = (k + cap) mod cap"
      proof -
        have "d mod cap + (k + (cap - d mod cap)) = k + cap"
          using mod_less_divisor [OF assms(1), of d] by simp
        then show ?thesis by simp
      qed
      also have "\<dots> = k" using k by simp
      finally show "\<exists>i\<in>{..<cap}. k = (d + i) mod cap" using assms(1) by (intro bexI [of _ ?i]) auto
    qed (use assms(1) in auto)
    have "mset (recent cap xs) = image_mset (\<lambda>i. xs ! (d + i)) (mset_set {..<cap})"
    proof -
      have "recent cap xs = map (\<lambda>i. xs ! (d + i)) [0..<cap]"
        unfolding recent_def d_def [symmetric] by (rule nth_equalityI) (simp_all add: n)
      then show ?thesis by (simp add: lessThan_atLeast0)
    qed
    also have "\<dots> = image_mset (\<lambda>i. buf ! ((d + i) mod cap)) (mset_set {..<cap})"
      by (rule image_mset_cong) (use at n in auto)
    also have "\<dots> = image_mset (\<lambda>i. buf ! i) (image_mset (\<lambda>i. (d + i) mod cap) (mset_set {..<cap}))"
      by (simp add: image_mset.compositionality comp_def)
    also have "image_mset (\<lambda>i. (d + i) mod cap) (mset_set {..<cap}) = mset_set {..<cap}"
      using perm by (simp add: image_mset_mset_set bij_betw_def)
    also have "image_mset (\<lambda>i. buf ! i) (mset_set {..<cap}) = mset buf"
    proof -
      have "mset buf = mset (map (\<lambda>i. buf ! i) [0..<cap])" using buf map_nth [of buf] by simp
      then show ?thesis by (simp add: lessThan_atLeast0)
    qed
    finally show ?thesis using len buf n by (simp add: recent_def)
  qed
qed

section \<open>Statistics over a history\<close>

datatype metric_event = ReadLatency duration | WriteLatency duration | OpResult bool

primrec record_event :: "metric_event \<Rightarrow> MetricsCollector \<Rightarrow> MetricsCollector" where
  "record_event (ReadLatency d) c = RecordLatency ''READ'' d c"
| "record_event (WriteLatency d) c = RecordLatency ''WRITE'' d c"
| "record_event (OpResult b) c = RecordOperationResult b c"

definition reads :: "metric_event list \<Rightarrow> duration list" where
  "reads es = concat (map (\<lambda>e. case e of ReadLatency d \<Rightarrow> [d] | _ \<Rightarrow> []) es)"

definition writes :: "metric_event list \<Rightarrow> duration list" where
  "writes es = concat (map (\<lambda>e. case e of WriteLatency d \<Rightarrow> [d] | _ \<Rightarrow> []) es)"

definition outcomes :: "metric_event list \<Rightarrow> bool list" where
  "outcomes es = concat (map (\<lambda>e. case e of OpResult b \<Rightarrow> [b] | _ \<Rightarrow> []) es)"

definition p95_of :: "duration list \<Rightarrow> duration" where
  "p95_of xs = (if length xs \<ge> 20 then sort xs ! ((length xs - 1) * 19 div 20) else 0)"

definition avg_of :: "duration list \<Rightarrow> duration" where
  "avg_of xs = (if xs = [] then 0 else wrap64 (sum_list xs) sdiv int (length xs))"

lemma wrap64_add: "wrap64 (wrap64 a + b) = wrap64 (a + b)"
  by (simp add: wrap64_def)

lemma fold_wrap64: "fold (\<lambda>d s. wrap64 (s + d)) xs (wrap64 a) = wrap64 (a + sum_list xs)"
  by (induction xs arbitrary: a) (simp_all add: wrap64_add add.assoc)

lemma sort_by_mset: "mset xs = mset ys \<Longrightarrow> sort xs = sort ys" for xs ys :: "int list"
  by (metis sorted_list_of_multiset_mset)

lemma sum_by_mset: "mset xs = mset ys \<Longrightarrow> sum_list xs = sum_list ys" for xs ys :: "int list"
  by (metis sum_mset_sum_list)

lemma updateLatencyStats_recent:
  assumes "mset samples = mset xs" and "samples \<noteq> []" and "length xs < 20 \<Longrightarrow> snd st = 0"
  shows "updateLatencyStats samples st = (avg_of xs, p95_of xs)"
proof -
  have len: "length samples = length xs" by (rule mset_eq_length [OF assms(1)])
  have "fold (\<lambda>d s. wrap64 (s + d)) samples 0 = wrap64 (sum_list xs)"
    using fold_wrap64 [of samples 0] sum_by_mset [OF assms(1)] by (simp add: wrap64_def)
  with assms(2,3) len sort_by_mset [OF assms(1)] show ?thesis
    by (auto simp: updateLatencyStats_def avg_of_def p95_of_def sortDurations_def Let_def)
qed

text \<open>What the collector holds after the events \<open>es\<close>.\<close>

definition metrics_of :: "metric_event list \<Rightarrow> MetricsCollector \<Rightarrow> bool" where
  "metrics_of es c \<longleftrightarrow>
     maxLatencySamples c = 1000 \<and> recentResultsCap c = 1000 \<and>
     ring_of 1000 (reads es) (readLatencies c, readLatIdx c, readLatLen c) \<and>
     ring_of 1000 (writes es) (writeLatencies c, writeLatIdx c, writeLatLen c) \<and>
     ring_of 1000 (outcomes es) (recentResults c, recentResultsIdx c, recentResultsLen c) \<and>
     AvgReadLatency (metrics c) = avg_of (recent 1000 (reads es)) \<and>
     P95ReadLatency (metrics c) = p95_of (recent 1000 (reads es)) \<and>
     MaxReadLatency (metrics c) = foldr max (reads es) 0 \<and>
     AvgWriteLatency (metrics c) = avg_of (recent 1000 (writes es)) \<and>
     P95WriteLatency (metrics c) = p95_of (recent 1000 (writes es)) \<and>
     MaxWriteLatency (metrics c) = foldr max (writes es) 0"

lemma foldr_max_snoc: "foldr max (xs @ [x]) a = (if x > foldr max xs a then x else foldr max xs a)" for x :: int
proof -
  have "foldr max (xs @ [x]) a = max x (foldr max xs a)" by (induction xs) (simp_all add: max.left_commute)
  also have "max x y = (if x > y then x else y)" for y by (simp add: max_def)
  finally show ?thesis .
qed

lemma ring_stats:
  assumes "ring_of 1000 xs (buf, idx, len)" and "ring_put 1000 x (buf, idx, len) = (buf', idx', len')"
    and "snd st = p95_of (recent 1000 xs)"
  shows "updateLatencyStats (take len' buf') st = (avg_of (recent 1000 (xs @ [x])), p95_of (recent 1000 (xs @ [x])))"
proof -
  have r: "ring_of 1000 (xs @ [x]) (buf', idx', len')"
    using ring_of_put [OF _ assms(1), of x] assms(2) by simp
  have m: "mset (take len' buf') = mset (recent 1000 (xs @ [x]))" by (rule ring_of_contents(1) [OF _ r]) simp
  have "recent 1000 (xs @ [x]) \<noteq> []" by (simp add: recent_def)
  then have "take len' buf' \<noteq> []" using m by (metis mset_zero_iff)
  moreover have "snd st = 0" if "length (recent 1000 (xs @ [x])) < 20"
  proof -
    from that have "length xs < 20" by (auto simp: recent_def)
    with assms(3) show ?thesis by (simp add: recent_def p95_of_def)
  qed
  ultimately show ?thesis by (rule updateLatencyStats_recent [OF m])
qed

lemma event_lists [simp]:
  "reads (es @ [ReadLatency d]) = reads es @ [d]" "writes (es @ [ReadLatency d]) = writes es"
  "outcomes (es @ [ReadLatency d]) = outcomes es" "reads (es @ [WriteLatency d]) = reads es"
  "writes (es @ [WriteLatency d]) = writes es @ [d]" "outcomes (es @ [WriteLatency d]) = outcomes es"
  "reads (es @ [OpResult b]) = reads es" "writes (es @ [OpResult b]) = writes es"
  "outcomes (es @ [OpResult b]) = outcomes es @ [b]"
  by (simp_all add: reads_def writes_def outcomes_def)

lemma metrics_of_event:
  assumes "metrics_of es c"
  shows "metrics_of (es @ [e]) (record_event e c)"
proof (cases e)
  case (ReadLatency d)
  obtain buf idx len where p: "ring_put 1000 d (readLatencies c, readLatIdx c, readLatLen c) = (buf, idx, len)"
    by (metis prod_cases3)
  have r: "ring_of 1000 (reads es) (readLatencies c, readLatIdx c, readLatLen c)" using assms by (simp add: metrics_of_def)
  have r': "ring_of 1000 (reads es @ [d]) (buf, idx, len)" using ring_of_put [OF _ r, of d] p by simp
  from assms r' ring_stats [OF r p] ReadLatency p show ?thesis
    by (auto simp: metrics_of_def RecordLatency_def Let_def foldr_max_snoc simp del: foldr_append)
next
  case (WriteLatency d)
  obtain buf idx len where p: "ring_put 1000 d (writeLatencies c, writeLatIdx c, writeLatLen c) = (buf, idx, len)"
    by (metis prod_cases3)
  have r: "ring_of 1000 (writes es) (writeLatencies c, writeLatIdx c, writeLatLen c)" using assms by (simp add: metrics_of_def)
  have r': "ring_of 1000 (writes es @ [d]) (buf, idx, len)" using ring_of_put [OF _ r, of d] p by simp
  from assms r' ring_stats [OF r p] WriteLatency p show ?thesis
    by (auto simp: metrics_of_def RecordLatency_def Let_def foldr_max_snoc simp del: foldr_append)
next
  case (OpResult b)
  have r: "ring_of 1000 (outcomes es) (recentResults c, recentResultsIdx c, recentResultsLen c)"
    using assms by (simp add: metrics_of_def)
  from assms ring_of_put [OF _ r, of b] OpResult show ?thesis
    by (auto simp: metrics_of_def RecordOperationResult_def Let_def split: prod.splits)
qed

lemma metrics_of_history: "metrics_of es (fold record_event es (NewMetricsCollector now))"
proof (induction es rule: rev_induct)
  case Nil
  then show ?case
    by (simp add: metrics_of_def NewMetricsCollector_def zero_metrics_def reads_def writes_def outcomes_def
        ring_of_new recent_def avg_of_def p95_of_def)
next
  case (snoc e es)
  then show ?case by (simp add: metrics_of_event)
qed

section \<open>Properties\<close>

text \<open>
  C31: The latency statistics and the health check are those of the most recent thousand entries.
  After any history of latencies and results, average and 95th percentile are computed over the
  last 1000 reads or writes, the maximum over all of them, and the server counts as healthy just
  when at most half of the last 1000 results are errors and neither percentile is above five seconds.
  With fewer than twenty latencies the percentile is 0, so that they never make a server unhealthy.
\<close>

theorem metrics_over_recent_history:
  "let c = fold record_event es (NewMetricsCollector now); m = metrics c
   in AvgReadLatency m = avg_of (recent 1000 (reads es)) \<and> P95ReadLatency m = p95_of (recent 1000 (reads es)) \<and>
      MaxReadLatency m = foldr max (reads es) 0 \<and>
      AvgWriteLatency m = avg_of (recent 1000 (writes es)) \<and> P95WriteLatency m = p95_of (recent 1000 (writes es)) \<and>
      MaxWriteLatency m = foldr max (writes es) 0 \<and>
      (IsHealthy c \<longleftrightarrow>
        2 * length (filter id (recent 1000 (outcomes es))) \<le> length (recent 1000 (outcomes es)) \<and>
        p95_of (recent 1000 (reads es)) \<le> 5 * second \<and> p95_of (recent 1000 (writes es)) \<le> 5 * second)"
proof -
  define c where "c = fold record_event es (NewMetricsCollector now)"
  have h: "metrics_of es c" unfolding c_def by (rule metrics_of_history)
  then have r: "ring_of 1000 (outcomes es) (recentResults c, recentResultsIdx c, recentResultsLen c)"
    by (simp add: metrics_of_def)
  have l: "recentResultsLen c = length (recent 1000 (outcomes es))" by (rule ring_of_contents(2) [OF _ r]) simp
  have "mset (take (recentResultsLen c) (recentResults c)) = mset (recent 1000 (outcomes es))"
    by (rule ring_of_contents(1) [OF _ r]) simp
  then have e: "length (filter id (take (recentResultsLen c) (recentResults c))) = length (filter id (recent 1000 (outcomes es)))"
    by (metis mset_filter size_mset)
  from h l e show ?thesis
    unfolding c_def [symmetric] Let_def by (auto simp: metrics_of_def IsHealthy_def Let_def)
qed

end
