(* ===== verification/FileData.thy ===== *)
theory FileData
  imports ServerTheorems
begin

text \<open>
  What READ, WRITE and the attribute procedures return when the file system keeps its contract: a
  regular file is a byte sequence that is read and written at an offset.
\<close>

section \<open>The contract of a file system with regular files\<close>

text \<open>
  \<open>content\<close> gives the bytes of the regular files.  The laws are those of \<open>io.ReaderAt\<close> and
  \<open>io.WriterAt\<close>: reading returns the bytes there are and \<open>EOF\<close> when they are fewer than asked for;
  writing replaces a range, and fills a gap with zeros; closing and setting times keep the bytes.
\<close>

definition read_contract :: "('fs, 'f) FileSystem \<Rightarrow> ('fs \<Rightarrow> string \<Rightarrow> bytes option) \<Rightarrow> bool" where
  "read_contract o0 content \<longleftrightarrow>
     (\<forall>s p d. content s p = Some d \<longrightarrow>
        (\<exists>f info. fs_OpenFile o0 s p O_RDONLY = Inr f \<and> f_Stat o0 s f = Inr info \<and>
           fi_Size info = int (length d) \<and> snd (f_Close o0 s f) = s \<and>
           (\<forall>n off. 0 \<le> off \<longrightarrow> f_ReadAt o0 s f n off =
              (take n (drop (nat off) d), if length (drop (nat off) d) < n then Some EOF else None))) \<and>
        (\<exists>info. fs_Lstat o0 s p = Inr info \<and> fi_Size info = int (length d)))"

definition write_contract :: "('fs, 'f) FileSystem \<Rightarrow> ('fs \<Rightarrow> string \<Rightarrow> bytes option) \<Rightarrow> bool" where
  "write_contract o0 content \<longleftrightarrow>
     (\<forall>s p d. content s p = Some d \<longrightarrow>
        (\<exists>f. fs_OpenFile o0 s p O_WRONLY = Inr f \<and>
           (\<forall>data off. 0 \<le> off \<longrightarrow>
              fst (f_WriteAt o0 s f data off) = (int (length data), None) \<and>
              content (snd (f_WriteAt o0 s f data off)) = (content s)(p := Some (splice d (nat off) data))) \<and>
           (\<forall>s'. content (snd (f_Close o0 s' f)) = content s'))) \<and>
     (\<forall>s p a m. content (snd (fs_Do o0 s (Chtimes_call p a m))) = content s)"

definition mem_content :: "memfs \<Rightarrow> string \<Rightarrow> bytes option" where
  "mem_content s p = (case map_of s p of Some (MemFile d _ _) \<Rightarrow> Some d | _ \<Rightarrow> None)"

lemma mem_contract: "read_contract mem_ops mem_content" "write_contract mem_ops mem_content"
proof -
  show "read_contract mem_ops mem_content"
    by (auto simp: read_contract_def mem_ops_def mem_content_def mem_Lstat_def split: option.splits mem_node.splits)
  have "mem_content (snd (mem_change s p (set_mtime t))) = mem_content s" for s p t
    by (rule ext) (auto simp: mem_content_def mem_change_def update_conv' split: option.splits mem_node.splits)
  then show "write_contract mem_ops mem_content"
    by (auto simp: write_contract_def mem_ops_def mem_content_def [abs_def] mem_WriteAt_def update_conv' fun_eq_iff
        split: option.splits mem_node.splits)
qed

section \<open>Attributes\<close>

text \<open>A step that changes only the caches and the clock.\<close>

definition quiet :: "('fs, 'f) AbsfsNFS \<Rightarrow> ('fs, 'f) AbsfsNFS \<Rightarrow> bool" where
  "quiet w w' \<longleftrightarrow> (\<exists>t c d. w' = w\<lparr>tick := t, attrCache := c, dirCache := d\<rparr>)"

lemma quiet_simps [simp]:
  "quiet w w' \<Longrightarrow> fs w' = fs w" "quiet w w' \<Longrightarrow> ops w' = ops w" "quiet w w' \<Longrightarrow> fileMap w' = fileMap w"
  "quiet w w' \<Longrightarrow> policy w' = policy w" "quiet w w' \<Longrightarrow> tuning w' = tuning w"
  "quiet w w' \<Longrightarrow> cells w' = cells w" "quiet w w' \<Longrightarrow> clock w' = clock w"
  "quiet w w' \<Longrightarrow> rateLimiter w' = rateLimiter w" "quiet w w' \<Longrightarrow> writeVerf w' = writeVerf w"
  by (auto simp: quiet_def)

lemma quiet_refl: "quiet w w"
  unfolding quiet_def by (rule exI [of _ "tick w"], rule exI [of _ "attrCache w"], rule exI [of _ "dirCache w"]) simp

lemma not_valid_copy:
  assumes "0 \<le> t"
  shows "\<not> (snd (fst (AttrCache_Get p now1 now2 c)) \<and>
    (case fst (fst (AttrCache_Get p now1 now2 c)) of Some a \<Rightarrow> IsValid a t | None \<Rightarrow> False))"
  using assms by (auto simp: AttrCache_Get_def IsValid_def copy_attrs_def split: option.splits if_splits)

lemma quietI: "quiet w (w\<lparr>tick := t, attrCache := c\<rparr>)" "quiet w (w\<lparr>tick := t\<rparr>)"
  unfolding quiet_def
  by (rule exI [of _ t], rule exI [of _ c], rule exI [of _ "dirCache w"], simp)
    (rule exI [of _ t], rule exI [of _ "attrCache w"], rule exI [of _ "dirCache w"], simp)

lemma getattr_run:
  assumes "\<forall>n. 0 \<le> clock w n"
  shows "fst (run_state (GetAttr node) w) =
      (case fs_Lstat (ops w) (fs w) (n_path node) of
         Inl e \<Rightarrow> Inl (Wrap (''getattr: failed to stat '' @ n_path node) e)
       | Inr info \<Rightarrow> Inr (attrs_from_info info (fnv64a (n_path node)) (Uid (cells w (n_cell node)))
           (Gid (cells w (n_cell node))) (clock w (tick w + 3))))" (is ?result)
    and "quiet w (snd (run_state (GetAttr node) w))" (is ?quiet)
proof -
  obtain x y c where g: "AttrCache_Get (n_path node) (clock w (tick w)) (clock w (tick w + 1)) (attrCache w) = ((x, y), c)"
    by (cases "AttrCache_Get (n_path node) (clock w (tick w)) (clock w (tick w + 1)) (attrCache w)") auto
  let ?w = "w\<lparr>tick := tick w + 2, attrCache := c\<rparr>"
  have c: "run_state (cache_Get (n_path node)) w = ((x, y), ?w)"
    by (simp only: run_cache g Let_def fst_conv snd_conv)
  have nv: "\<not> (y \<and> (case x of Some a \<Rightarrow> IsValid a (clock w (Suc (Suc (tick w)))) | None \<Rightarrow> False))"
    using not_valid_copy [of "clock w (Suc (Suc (tick w)))" "n_path node" "clock w (tick w)" "clock w (tick w + 1)" "attrCache w"]
      assms g by simp
  have "run_state (GetAttr node) w =
    (case fs_Lstat (ops w) (fs w) (n_path node) of
       Inl e \<Rightarrow> (Inl (Wrap (''getattr: failed to stat '' @ n_path node) e), w\<lparr>tick := tick w + 3, attrCache := c\<rparr>)
     | Inr info \<Rightarrow>
         let attrs = attrs_from_info info (fnv64a (n_path node)) (Uid (cells w (n_cell node)))
           (Gid (cells w (n_cell node))) (clock w (tick w + 3))
         in (Inr attrs, w\<lparr>tick := tick w + 5,
               attrCache := AttrCache_Put (n_path node) attrs (clock w (tick w + 4)) c\<rparr>))"
    using nv
    by (cases y; cases "fs_Lstat (ops w) (fs w) (n_path node)")
      (simp_all add: GetAttr_def c run_attempt run_time run_fs run_nodes run_cache(2) Let_def eval_nat_numeral)
  then show ?result ?quiet
    by (simp_all add: quietI Let_def split: sum.split)
qed

text \<open>
  C15: Attributes are always fresh.  \<open>GetAttr\<close> answers with what the file system says at that
  moment, with the owner kept in the node: it consults the attribute cache first, but the copies that
  the cache gives out have no validity time left, so no hit is ever used.
\<close>

theorem getattr_is_fresh:
  assumes "\<forall>n. 0 \<le> clock w n"
  shows "fst (run_state (GetAttr node) w) =
      (case fs_Lstat (ops w) (fs w) (n_path node) of
         Inl e \<Rightarrow> Inl (Wrap (''getattr: failed to stat '' @ n_path node) e)
       | Inr info \<Rightarrow> Inr (attrs_from_info info (fnv64a (n_path node)) (Uid (cells w (n_cell node)))
           (Gid (cells w (n_cell node))) (clock w (tick w + 3)))) \<and>
    quiet w (snd (run_state (GetAttr node) w))"
  using getattr_run [OF assms] by simp

lemma New_fields:
  "New o_fs s ncpu clk verf newLogger options = Inr w \<Longrightarrow> clock w = clk \<and> fs w = s \<and> ops w = o_fs \<and> writeVerf w = verf"
  by (auto simp: New_def Let_def split: if_splits option.splits sum.splits)

lemma sample_clock_nonneg: "0 \<le> clock (sample_server sample_options) n"
  using New_fields [OF sample_New [OF sample_settings]] by (simp add: sample_clock_def)

theorem getattr_is_fresh_witness:
  "on_success (\<lambda>a. Size a = 5 \<and> Mode a = 420)
     (fst (run_state (GetAttr \<lparr>n_path = ''/a'', n_cell = 0\<rparr>) (sample_server sample_options)))"
proof -
  let ?w = "sample_server sample_options"
  have "fs_Lstat (ops ?w) (fs ?w) ''/a'' = Inr \<lparr>fi_Name = ''a'', fi_Size = 5, fi_Mode = 420, fi_ModTime = 7\<rparr>"
    by code_simp
  moreover have "\<forall>n. 0 \<le> clock ?w n" using sample_clock_nonneg by blast
  ultimately show ?thesis
    using getattr_is_fresh [of ?w "\<lparr>n_path = ''/a'', n_cell = 0\<rparr>"]
    by (simp add: on_success_def attrs_from_info_def Refresh_def)
qed

section \<open>Reading\<close>

definition read_window :: "TuningOptions \<Rightarrow> int \<Rightarrow> int \<Rightarrow> bytes \<Rightarrow> bytes" where
  "read_window t off cnt d = take (nat (min cnt (t_TransferSize t))) (drop (nat off) d)"

definition in_time :: "(TimeoutConfig \<Rightarrow> duration) \<Rightarrow> ('fs, 'f) AbsfsNFS \<Rightarrow> bool" where
  "in_time limit w \<longleftrightarrow> clock w (tick w + 1) < clock w (tick w) + limit (the (t_Timeouts (tuning w)))"

lemma read_contractE:
  assumes "read_contract o0 content" "content s p = Some d"
  obtains f info info' where "fs_OpenFile o0 s p O_RDONLY = Inr f" "f_Stat o0 s f = Inr info"
    "fi_Size info = int (length d)" "snd (f_Close o0 s f) = s"
    "\<And>n off. 0 \<le> off \<Longrightarrow> f_ReadAt o0 s f n off =
       (take n (drop (nat off) d), if length (drop (nat off) d) < n then Some EOF else None)"
    "fs_Lstat o0 s p = Inr info'" "fi_Size info' = int (length d)"
  using assms unfolding read_contract_def by meson

lemma Read_run:
  assumes "read_contract (ops w) content" "content (fs w) (n_path node) = Some d"
    and "0 \<le> off" "0 \<le> cnt" "in_time ReadTimeout w"
  shows "run_state (Read node off cnt) w = (Inr (read_window (tuning w) off cnt d), w\<lparr>tick := tick w + 2\<rparr>)"
proof -
  obtain f info info' where f: "fs_OpenFile (ops w) (fs w) (n_path node) O_RDONLY = Inr f"
      "f_Stat (ops w) (fs w) f = Inr info" "fi_Size info = int (length d)" "snd (f_Close (ops w) (fs w) f) = fs w"
    and r: "\<And>n off. 0 \<le> off \<Longrightarrow> f_ReadAt (ops w) (fs w) f n off =
       (take n (drop (nat off) d), if length (drop (nat off) d) < n then Some EOF else None)"
    by (rule read_contractE [OF assms(1,2)]) blast
  have t: "\<not> clock w (Suc (tick w)) \<ge> clock w (tick w) + ReadTimeout (the (t_Timeouts (tuning w)))"
    using assms(5) by (simp add: in_time_def)
  define c where "c = (if cnt > t_TransferSize (tuning w) then t_TransferSize (tuning w) else cnt)"
  have w: "read_window (tuning w) off cnt d = take (nat c) (drop (nat off) d)"
    by (simp add: read_window_def c_def min_def)
  have clip: "take (nat (if c > int (length d) - off then int (length d) - off else c)) (drop (nat off) d)
      = take (nat c) (drop (nat off) d)"
    using assms(3) by simp
  have closed: "w\<lparr>tick := k, fs := fs w\<rparr> = w\<lparr>tick := k\<rparr>" for k by simp
  show ?thesis
  proof (cases "int (length d) \<le> off")
    case True
    then have "take (nat c) (drop (nat off) d) = []" by simp
    with True assms(3,4) f t show ?thesis
      by (simp add: w Read_def run_simps c_def [symmetric] Let_def closed cong: exec_cong)
  next
    case False
    with assms(3,4) f t r clip show ?thesis
      by (simp add: w Read_def run_simps c_def [symmetric] Let_def closed cong: exec_cong)
  qed
qed

lemma rate_limited_small [run_simps]: "run_state (rate_limited False ip op) w = (False, w)"
  by (simp add: rate_limited_def run_simps split: option.split)

lemma run_with_node:
  "Get (fileMap w) h = Some (NodeFile node) \<Longrightarrow> run_state (with_node h stale k) w = run_state (k node) w"
  by (simp add: with_node_def run_common)

lemma no_overflow:
  assumes "unat off < 2 ^ 63"
  shows "\<not> range_overflows off cnt"
proof -
  have "unat (0xFFFFFFFFFFFFFFFF - ucast cnt :: u64) = 0xFFFFFFFFFFFFFFFF - unat cnt"
    using unat_u32_less [of cnt] by (subst unat_sub) (simp_all add: word_le_nat_alt unat_widen)
  then show ?thesis
    using assms unat_u32_less [of cnt] by (simp add: range_overflows_def word_less_nat_alt)
qed

lemma handleRead_run:
  assumes "read_contract (ops w) content" and "Get (fileMap w) h = Some (NodeFile node)"
    and "content (fs w) (n_path node) = Some d" and "length d < 2 ^ 62" and "unat off < 2 ^ 62"
    and "unat cnt \<le> 65536" and "in_time ReadTimeout w" and "\<forall>n. 0 \<le> clock w n"
    and "data = take (min (unat cnt) (nat (t_TransferSize (tuning w)))) (drop (unat off) d)"
  shows "(\<exists>attrs w'. run_state (handleRead (xdrEncodeFileHandle h @ xdrEncodeUint64 off @ xdrEncodeUint32 cnt @ rest)
        reply authCtx) w =
      (set_data reply (xdrEncodeUint32 NFS_OK @ encodePostOpAttr attrs @ xdrEncodeUint32 (of_nat (length data)) @
         xdrEncodeUint32 (if unat off + length data \<ge> length d then 1 else 0) @
         xdrEncodeUint32 (of_nat (length data)) @ data @ replicate (pad_len (length data)) 0), w') \<and>
      Size attrs = int (length d) \<and> fs w' = fs w) \<and>
    (0 < unat cnt \<and> 0 < t_TransferSize (tuning w) \<and> unat off < length d \<longrightarrow> data \<noteq> [])"
proof -
  have o: "\<not> range_overflows off cnt" "sint off = int (unat off)"
    using assms(5) by (simp_all add: no_overflow sint_small)
  have c: "cnt > 65536 \<longleftrightarrow> False" using assms(6) by (simp add: word_less_nat_alt)
  have "read_window (tuning w) (int (unat off)) (uint cnt) d = data"
    using min_of_mono [of nat "uint cnt" "t_TransferSize (tuning w)"]
    by (simp add: assms(9) read_window_def monoI nat_mono)
  with Read_run [OF assms(1,3) _ _ assms(7), of "int (unat off)" "uint cnt"]
  have r: "run_state (Read node (uint off) (uint cnt)) w = (Inr data, w\<lparr>tick := tick w + 2\<rparr>)" by simp
  let ?w = "w\<lparr>tick := tick w + 2\<rparr>"
  obtain info where i: "fs_Lstat (ops w) (fs w) (n_path node) = Inr info" "fi_Size info = int (length d)"
    by (rule read_contractE [OF assms(1,3)]) blast
  obtain attrs w' where g: "run_state (GetAttr node) ?w = (Inr attrs, w')" "Size attrs = int (length d)" "fs w' = fs w"
    using getattr_run [of ?w node] assms(8) i
    by (cases "run_state (GetAttr node) ?w") (auto simp: attrs_from_info_def Refresh_def)
  have "length data \<le> length d" by (simp add: assms(9))
  then have e: "wrap64 (int (unat off) + int (length data)) \<ge> Size attrs \<longleftrightarrow> unat off + length data \<ge> length d"
    using assms(4,5) g(2) wrap64_small [of "int (unat off) + int (length data)"]
    by (simp del: of_nat_unat add: of_nat_add [symmetric] del: of_nat_add)
  have "run_state (handleRead (xdrEncodeFileHandle h @ xdrEncodeUint64 off @ xdrEncodeUint32 cnt @ rest) reply authCtx) w
      = (set_data reply (read_reply attrs off data), w')"
    using o c g(1) by (simp add: handleRead_def read_simps run_simps run_with_node [OF assms(2)] r cong: exec_cong)
  moreover have "0 < unat cnt \<and> 0 < t_TransferSize (tuning w) \<and> unat off < length d \<longrightarrow> data \<noteq> []"
    by (simp add: assms(9))
  ultimately show ?thesis
    using g(2,3) e o by (auto simp: read_reply_def encodePostOpAttr_def)
qed

text \<open>
  C10: READ returns the bytes of the file.  For a file of the file system that a handle stands for, a
  READ of up to 64 KiB answers with exactly the bytes from the offset on, as many as were asked for, as
  the transfer size allows and as there are; the end-of-file flag says whether they reach the
  end of the file, and the attributes carry its size.  At least one byte comes back when there is
  one, so a client that reads on gets to the end.  The file system stays as it is.
\<close>

theorem read_returns_content:
  assumes "read_contract (ops w) content" and "Get (fileMap w) h = Some (NodeFile node)"
    and "content (fs w) (n_path node) = Some d" and "length d < 2 ^ 62" and "unat off < 2 ^ 62"
    and "unat cnt \<le> 65536" and "in_time ReadTimeout w" and "\<forall>n. 0 \<le> clock w n"
    and "data = take (min (unat cnt) (nat (t_TransferSize (tuning w)))) (drop (unat off) d)"
  shows "(\<exists>attrs w'. run_state (handleRead (xdrEncodeFileHandle h @ xdrEncodeUint64 off @ xdrEncodeUint32 cnt @ rest)
        reply authCtx) w =
      (set_data reply (xdrEncodeUint32 NFS_OK @ encodePostOpAttr attrs @ xdrEncodeUint32 (of_nat (length data)) @
         xdrEncodeUint32 (if unat off + length data \<ge> length d then 1 else 0) @
         xdrEncodeUint32 (of_nat (length data)) @ data @ replicate (pad_len (length data)) 0), w') \<and>
      Size attrs = int (length d) \<and> fs w' = fs w) \<and>
    (0 < unat cnt \<and> 0 < t_TransferSize (tuning w) \<and> unat off < length d \<longrightarrow> data \<noteq> [])"
  using handleRead_run [OF assms] .

text \<open>A server on which a handle for the file \<open>/a\<close> has been given out.\<close>

definition sample_open :: "(memfs, string) AbsfsNFS" where
  "sample_open = (sample_server sample_options)
     \<lparr>fileMap := snd (Allocate newFileMap (NodeFile \<lparr>n_path = ''/a'', n_cell = 0\<rparr>))\<rparr>"

lemma sample_open_facts:
  "ops sample_open = mem_ops" "0 \<le> clock sample_open n" "mem_content (fs sample_open) ''/a'' = Some [104, 101, 108, 108, 111]"
  "Get (fileMap sample_open) 1 = Some (NodeFile \<lparr>n_path = ''/a'', n_cell = 0\<rparr>)"
  "t_TransferSize (tuning sample_open) = 65536" "\<not> p_ReadOnly (policy sample_open)"
  using New_fields [OF sample_New [OF sample_settings]]
  by (simp add: sample_open_def sample_clock_def) (simp add: sample_open_def sample_clock_nonneg, code_simp+)

theorem read_returns_content_witness:
  "\<exists>attrs w'. run_state (handleRead (xdrEncodeFileHandle 1 @ xdrEncodeUint64 3 @ xdrEncodeUint32 10 @ [])
      (new_reply (call_Header (mem_call 100003 6))) sample_ctx) sample_open =
    (set_data (new_reply (call_Header (mem_call 100003 6)))
      (xdrEncodeUint32 NFS_OK @ encodePostOpAttr attrs @ xdrEncodeUint32 2 @ xdrEncodeUint32 1 @ xdrEncodeUint32 2 @
       [108, 111, 0, 0]), w') \<and> Size attrs = 5"
proof -
  let ?d = "[104, 101, 108, 108, 111] :: bytes"
  have t: "in_time ReadTimeout sample_open" by code_simp
  have d: "[108, 111] = take (min (unat (10 :: u32)) (nat (t_TransferSize (tuning sample_open)))) (drop (unat (3 :: u64)) ?d)"
    by (simp add: sample_open_facts(5))
  have pad: "replicate (pad_len (length ([108, 111] :: bytes))) 0 = ([0, 0] :: bytes)"
    and eof: "unat (3 :: u64) + length ([108, 111] :: bytes) \<ge> length ?d" by code_simp+
  have c: "read_contract (ops sample_open) mem_content" "mem_content (fs sample_open) (n_path \<lparr>n_path = ''/a'', n_cell = 0\<rparr>) = Some ?d"
    "\<forall>n. 0 \<le> clock sample_open n"
    using mem_contract(1) sample_open_facts(1-3) by simp_all
  have n: "length ?d < 2 ^ 62" "unat (3 :: u64) < 2 ^ 62" "unat (10 :: u32) \<le> 65536" by simp_all
  have two: "(of_nat (length ([108, 111] :: bytes)) :: u32) = 2" by simp
  note r = read_returns_content [OF c(1) sample_open_facts(4) c(2) n t c(3) d, of "[]"
      "new_reply (call_Header (mem_call 100003 6))" sample_ctx, THEN conjunct1]
  have "int (length ?d) = 5" by simp
  with r [unfolded pad two if_P [OF eof]] show ?thesis by (metis append_Cons append_Nil)
qed

section \<open>Writing\<close>

text \<open>Two readings of the clock in a row are closer together than the time an operation has.\<close>

definition prompt :: "(TimeoutConfig \<Rightarrow> duration) \<Rightarrow> ('fs, 'f) AbsfsNFS \<Rightarrow> bool" where
  "prompt limit w \<longleftrightarrow> (\<forall>n. clock w (Suc n) < clock w n + limit (the (t_Timeouts (tuning w))))"

definition same_setup :: "('fs, 'f) AbsfsNFS \<Rightarrow> ('fs, 'f) AbsfsNFS \<Rightarrow> bool" where
  "same_setup w w' \<longleftrightarrow> ops w' = ops w \<and> fileMap w' = fileMap w \<and> tuning w' = tuning w \<and> policy w' = policy w \<and>
     clock w' = clock w \<and> writeVerf w' = writeVerf w"

lemma same_setup_trans: "same_setup w w1 \<Longrightarrow> same_setup w1 w2 \<Longrightarrow> same_setup w w2"
  by (simp add: same_setup_def)

lemma quiet_same_setup: "quiet w w' \<Longrightarrow> same_setup w w'"
  by (simp add: same_setup_def)

lemma Write_run:
  assumes "write_contract (ops w) content" "content (fs w) (n_path node) = Some d"
    and "0 \<le> off" "\<not> p_ReadOnly (policy w)" "prompt WriteTimeout w" "int (length data) \<le> t_TransferSize (tuning w)"
  shows "fst (run_state (Write node off data) w) = (int (length data), None)"
    and "content (fs (snd (run_state (Write node off data) w))) =
      (content (fs w))(n_path node := Some (splice d (nat off) data))"
    and "same_setup w (snd (run_state (Write node off data) w))"
proof -
  obtain f where f: "fs_OpenFile (ops w) (fs w) (n_path node) O_WRONLY = Inr f"
      "\<And>s'. content (snd (f_Close (ops w) s' f)) = content s'"
    and wr: "fst (f_WriteAt (ops w) (fs w) f data off) = (int (length data), None)"
      "content (snd (f_WriteAt (ops w) (fs w) f data off)) = (content (fs w))(n_path node := Some (splice d (nat off) data))"
    and ct: "\<And>s p a m. content (snd (fs_Do (ops w) s (Chtimes_call p a m))) = content s"
    using assms(1-3) unfolding write_contract_def by meson
  have t: "\<not> clock w (Suc (tick w)) \<ge> clock w (tick w) + WriteTimeout (the (t_Timeouts (tuning w)))"
    using assms(5) by (simp add: prompt_def not_le)
  let ?w = "w\<lparr>tick := tick w + 3, attrCache := AttrCache_Invalidate (n_path node) (attrCache w),
    fs := snd (fs_Do (ops w) (snd (f_WriteAt (ops w) (fs w) f data off)) (Chtimes_call (n_path node)
      (clock w (tick w + 2)) (clock w (tick w + 2))))\<rparr>"
  show "fst (run_state (Write node off data) w) = (int (length data), None)"
    and "content (fs (snd (run_state (Write node off data) w))) =
      (content (fs w))(n_path node := Some (splice d (nat off) data))"
    and "same_setup w (snd (run_state (Write node off data) w))"
    using assms(3,4,6) f wr ct t
    by (cases "fs_Stat (ops w) (fs ?w) (n_path node)";
        simp add: Write_def run_simps Let_def same_setup_def eval_nat_numeral cong: exec_cong)+
qed

lemma GetAttr_ok:
  assumes "\<forall>n. 0 \<le> clock w n" "read_contract (ops w) content" "content (fs w) (n_path node) = Some d"
  obtains attrs w' where "run_state (GetAttr node) w = (Inr attrs, w')" "quiet w w'" "Size attrs = int (length d)"
proof -
  obtain info where "fs_Lstat (ops w) (fs w) (n_path node) = Inr info" "fi_Size info = int (length d)"
    by (rule read_contractE [OF assms(2,3)]) blast
  with getattr_run [OF assms(1), of node] that show ?thesis
    by (cases "run_state (GetAttr node) w") (auto simp: attrs_from_info_def Refresh_def)
qed

lemma max_write_size_ge:
  assumes "int n \<le> t_TransferSize t" "t_TransferSize t < 2 ^ 32" "0 < t_TransferSize t" "n < 2 ^ 32"
  shows "\<not> (of_nat n :: u32) > max_write_size t"
proof -
  have "unat (word_of_int (t_TransferSize t) :: u32) = nat (t_TransferSize t)"
    using assms(2,3) by (simp add: unsigned_of_int take_bit_int_eq_self)
  moreover have "unat (of_nat n :: u32) = n" using assms(4) by (simp add: unsigned_of_nat take_bit_nat_eq_self)
  ultimately show ?thesis
    using assms(1,3) unat_eq_zero [of "word_of_int (t_TransferSize t) :: u32"]
    by (auto simp: max_write_size_def Let_def word_less_nat_alt)
qed

lemma splice_read: "take (length data) (drop off (splice d off data)) = data"
  by (cases "off \<le> length d") simp_all

lemma length_splice_le: "length (splice d off data) \<le> off + length d + length data"
  by simp

definition write_args :: "u64 \<Rightarrow> u64 \<Rightarrow> u32 \<Rightarrow> bytes \<Rightarrow> bytes" where
  "write_args h off how data =
     xdrEncodeFileHandle h @ xdrEncodeUint64 off @ xdrEncodeUint32 (of_nat (length data)) @ xdrEncodeUint32 how @
     xdrEncodeUint32 (of_nat (length data)) @ data"

lemma handleWrite_run:
  assumes "read_contract (ops w) content" "write_contract (ops w) content"
    and "Get (fileMap w) h = Some (NodeFile node)" "content (fs w) (n_path node) = Some d"
    and "unat off < 2 ^ 62" "length data \<le> 65536" "int (length data) \<le> t_TransferSize (tuning w)"
    and "0 < t_TransferSize (tuning w)" "t_TransferSize (tuning w) < 2 ^ 32"
    and "\<not> p_ReadOnly (policy w)" "prompt WriteTimeout w" "\<forall>n. 0 \<le> clock w n"
  obtains pre post w' where
    "run_state (handleWrite (write_args h off how data @ rest) reply authCtx) w =
       (set_data reply (xdrEncodeUint32 NFS_OK @ encodeWccData pre post @
          xdrEncodeUint32 (of_nat (length data)) @ xdrEncodeUint32 2 @ writeVerf w), w')"
    "content (fs w') = (content (fs w))(n_path node := Some (splice d (unat off) data))" "same_setup w w'"
    "Size pre = int (length d)" "Size post = int (length (splice d (unat off) data))"
proof -
  have n: "unat (of_nat (length data) :: u32) = length data"
    using assms(6) by (simp add: unsigned_of_nat take_bit_nat_eq_self)
  have o: "\<not> range_overflows off (of_nat (length data))" "sint off = uint off"
    using assms(5) by (simp_all add: no_overflow sint_small)
  have c: "(of_nat (length data) :: u32) > 65536 \<longleftrightarrow> False" using assms(6) by (simp add: word_less_nat_alt n)
  have m: "\<not> (of_nat (length data) :: u32) > max_write_size (tuning w)"
    using max_write_size_ge [OF assms(7,9,8)] assms(6) by simp
  obtain pre w1 where g1: "run_state (GetAttr node) w = (Inr pre, w1)" "quiet w w1" "Size pre = int (length d)"
    by (rule GetAttr_ok [OF assms(12,1,4)])
  obtain w2 where w: "run_state (Write node (uint off) data) w1 = ((int (length data), None), w2)"
      "content (fs w2) = (content (fs w))(n_path node := Some (splice d (unat off) data))" "same_setup w1 w2"
    using Write_run [of w1 content node d "uint off" data] assms(2,4,10,11,7) g1(2)
    by (cases "run_state (Write node (uint off) data) w1") (auto simp: prompt_def)
  have s2: "same_setup w w2" using quiet_same_setup [OF g1(2)] w(3) by (rule same_setup_trans)
  obtain post w3 where g2: "run_state (GetAttr node) w2 = (Inr post, w3)" "quiet w2 w3"
      "Size post = int (length (splice d (unat off) data))"
    by (rule GetAttr_ok [of w2 content node "splice d (unat off) data"]) (use assms(1,12) s2 w(2) in \<open>auto simp: same_setup_def\<close>)
  have "run_state (handleWrite (write_args h off how data @ rest) reply authCtx) w =
       (set_data reply (xdrEncodeUint32 NFS_OK @ encodeWccData pre post @
          xdrEncodeUint32 (of_nat (length data)) @ xdrEncodeUint32 2 @ writeVerf w), w3)"
    using assms(10) o c m n g1(1) w(1) g2(1,2) s2
    by (simp add: handleWrite_def write_args_def read_simps run_simps run_with_node [OF assms(3)] same_setup_def
        rd_full_append cong: exec_cong)
  moreover have "content (fs w3) = (content (fs w))(n_path node := Some (splice d (unat off) data))"
    using g2(2) w(2) by simp
  moreover have "same_setup w w3" using s2 quiet_same_setup [OF g2(2)] by (rule same_setup_trans)
  ultimately show thesis using that g1(3) g2(3) by blast
qed

text \<open>
  C9: What WRITE stores, READ returns.  On an export that is not read-only, and when neither operation
  runs into its time limit, a WRITE of up to 64 KiB and no more than the transfer size to a file behind
  a handle is answered with the full count, a commitment to stable storage and the sizes of the file
  before and after; it replaces exactly the range it names and leaves all other files alone.  A READ of
  the same range afterwards answers with the bytes that were written.
\<close>

theorem write_then_read:
  assumes "read_contract (ops w) content" and "write_contract (ops w) content"
    and "Get (fileMap w) h = Some (NodeFile node)" and "content (fs w) (n_path node) = Some d"
    and "unat off < 2 ^ 60" and "length d < 2 ^ 60" and "length data \<le> 65536"
    and "int (length data) \<le> t_TransferSize (tuning w)"
    and "0 < t_TransferSize (tuning w)" and "t_TransferSize (tuning w) < 2 ^ 32"
    and "\<not> p_ReadOnly (policy w)" and "prompt WriteTimeout w" and "prompt ReadTimeout w" and "\<forall>n. 0 \<le> clock w n"
  shows "\<exists>pre post w1 attrs eof w2.
    run_state (handleWrite (write_args h off how data @ rest) reply authCtx) w =
       (set_data reply (xdrEncodeUint32 NFS_OK @ encodeWccData pre post @
          xdrEncodeUint32 (of_nat (length data)) @ xdrEncodeUint32 2 @ writeVerf w), w1) \<and>
    Size pre = int (length d) \<and> Size post = int (length (splice d (unat off) data)) \<and>
    content (fs w1) = (content (fs w))(n_path node := Some (splice d (unat off) data)) \<and>
    run_state (handleRead (xdrEncodeFileHandle h @ xdrEncodeUint64 off @ xdrEncodeUint32 (of_nat (length data)) @ rest')
        reply' authCtx') w1 =
      (set_data reply' (xdrEncodeUint32 NFS_OK @ encodePostOpAttr attrs @ xdrEncodeUint32 (of_nat (length data)) @
         xdrEncodeUint32 eof @ xdrEncodeUint32 (of_nat (length data)) @ data @ replicate (pad_len (length data)) 0), w2) \<and>
    fs w2 = fs w1"
proof -
  let ?d = "splice d (unat off) data"
  have off: "unat off < 2 ^ 62" using assms(5) by simp
  have n: "unat (of_nat (length data) :: u32) = length data"
    using assms(7) by (simp add: unsigned_of_nat take_bit_nat_eq_self)
  obtain pre post w1 where wr: "run_state (handleWrite (write_args h off how data @ rest) reply authCtx) w =
       (set_data reply (xdrEncodeUint32 NFS_OK @ encodeWccData pre post @
          xdrEncodeUint32 (of_nat (length data)) @ xdrEncodeUint32 2 @ writeVerf w), w1)"
    "content (fs w1) = (content (fs w))(n_path node := Some ?d)" "same_setup w w1"
    "Size pre = int (length d)" "Size post = int (length ?d)"
    by (rule handleWrite_run [OF assms(1-4) off assms(7-12,14)])
  have len: "length ?d < 2 ^ 62"
    using assms(5-7) length_splice_le [of d "unat off" data] by (simp del: splice.simps)
  have same: "read_contract (ops w1) content" "Get (fileMap w1) h = Some (NodeFile node)"
      "content (fs w1) (n_path node) = Some ?d" "in_time ReadTimeout w1" "\<forall>n. 0 \<le> clock w1 n"
    using assms(1,3,13,14) wr(2,3) by (simp_all add: same_setup_def in_time_def prompt_def del: splice.simps)
  have cnt: "unat (of_nat (length data) :: u32) \<le> 65536" using assms(7) by (simp only: n)
  have "tuning w1 = tuning w" using wr(3) by (simp add: same_setup_def)
  then have "min (length data) (nat (t_TransferSize (tuning w1))) = length data"
    using assms(8) by (intro min_absorb1) (simp add: le_nat_iff)
  then have "data = take (min (unat (of_nat (length data) :: u32)) (nat (t_TransferSize (tuning w1)))) (drop (unat off) ?d)"
    by (simp only: n splice_read)
  note rd = handleRead_run [OF same(1-3) len off cnt same(4,5) this, of rest' reply' authCtx', THEN conjunct1]
  from rd wr show ?thesis by blast
qed

lemma sample_open_prompt: "prompt WriteTimeout sample_open" "prompt ReadTimeout sample_open"
proof -
  have "clock sample_open n = 1000 + int n" for n
    using New_fields [OF sample_New [OF sample_settings]] by (simp add: sample_open_def sample_clock_def)
  moreover have "1 < WriteTimeout (the (t_Timeouts (tuning sample_open)))" "1 < ReadTimeout (the (t_Timeouts (tuning sample_open)))"
    by code_simp+
  ultimately show "prompt WriteTimeout sample_open" "prompt ReadTimeout sample_open" by (simp_all add: prompt_def)
qed

theorem write_then_read_witness:
  "\<exists>w1. mem_content (fs w1) ''/a'' = Some [104, 101, 33, 34, 111] \<and>
     snd (run_state (handleWrite (write_args 1 2 0 [33, 34] @ []) (new_reply (call_Header (mem_call 100003 7))) sample_ctx)
       sample_open) = w1"
proof -
  let ?d = "[104, 101, 108, 108, 111] :: bytes" and ?r = "new_reply (call_Header (mem_call 100003 7))"
  have c: "read_contract (ops sample_open) mem_content" "write_contract (ops sample_open) mem_content"
      "mem_content (fs sample_open) (n_path \<lparr>n_path = ''/a'', n_cell = 0\<rparr>) = Some ?d" "\<forall>n. 0 \<le> clock sample_open n"
    using mem_contract sample_open_facts(1-3) by simp_all
  have n: "unat (2 :: u64) < 2 ^ 60" "length ?d < 2 ^ 60" "length ([33, 34] :: bytes) \<le> 65536"
      "int (length ([33, 34] :: bytes)) \<le> t_TransferSize (tuning sample_open)" "0 < t_TransferSize (tuning sample_open)"
      "t_TransferSize (tuning sample_open) < 2 ^ 32"
    by (simp_all add: sample_open_facts(5))
  have "splice ?d (unat (2 :: u64)) [33, 34] = [104, 101, 33, 34, 111]" by simp
  with write_then_read [OF c(1,2) sample_open_facts(4) c(3) n sample_open_facts(6) sample_open_prompt c(4),
      of 0 "[]" ?r sample_ctx "[]" ?r sample_ctx]
  show ?thesis by (auto simp del: splice.simps)
qed

end
