(* ===== verification/NodeFile.thy ===== *)
theory NodeFile
  imports FileData
begin

text \<open>
  A node as an open file (\<open>nfs_node.go\<close>): \<open>NFSNode\<close> implements \<open>absfs.File\<close> by opening its path
  for every call.  Here are the methods that use what the file system interface of the model offers;
  \<open>Truncate\<close>, the one that the server calls, is with the operations.  Shown is that a node is a
  file: what is written at an offset is read back there, its recorded attributes lose their
  validity, and a listing has no dot entries.
\<close>

section \<open>Methods\<close>

definition node_Close :: "NFSNode \<Rightarrow> ('fs, 'f, goerr option) op" where
  "node_Close node = State_Monad.return None"

definition node_ReadAt :: "NFSNode \<Rightarrow> nat \<Rightarrow> int \<Rightarrow> ('fs, 'f, bytes \<times> goerr option) op" where
  "node_ReadAt node n off =
     attempt (OpenFile (n_path node) O_RDONLY) (\<lambda>err. State_Monad.return ([], Some err)) (\<lambda>f. do {
       r \<leftarrow> file_ReadAt f n off;
       file_Close f;
       State_Monad.return r })"

definition node_WriteAt :: "NFSNode \<Rightarrow> bytes \<Rightarrow> int \<Rightarrow> ('fs, 'f, int \<times> goerr option) op" where
  "node_WriteAt node p off =
     attempt (OpenFile (n_path node) O_WRONLY) (\<lambda>err. State_Monad.return (0, Some err)) (\<lambda>f. do {
       r \<leftarrow> file_WriteAt f p off;
       (if snd r = None then update_attrs node Invalidate else skip);
       file_Close f;
       State_Monad.return r })"

definition node_Name :: "NFSNode \<Rightarrow> string" where
  "node_Name node = (if n_path node = ''/'' then ''/'' else path_Base (n_path node))"

text \<open>With a negative count, which asks for all entries.\<close>

definition node_Readdir :: "NFSNode \<Rightarrow> ('fs, 'f, FileInfo list result) op" where
  "node_Readdir node =
     attempt (OpenFile (n_path node) O_RDONLY) (\<lambda>err. State_Monad.return (Inl err)) (\<lambda>f. do {
       r \<leftarrow> file_Readdir f;
       file_Close f;
       State_Monad.return (map_sum id (filter (\<lambda>e. fi_Name e \<noteq> ''.'' \<and> fi_Name e \<noteq> ''..'')) r) })"

definition node_Readdirnames :: "NFSNode \<Rightarrow> ('fs, 'f, string list result) op" where
  "node_Readdirnames node = do { r \<leftarrow> node_Readdir node; State_Monad.return (map_sum id (map fi_Name) r) }"

definition node_Stat :: "NFSNode \<Rightarrow> ('fs, 'f, FileInfo result) op" where
  "node_Stat node = Stat (n_path node)"

definition node_Sync :: "NFSNode \<Rightarrow> ('fs, 'f, goerr option) op" where
  "node_Sync node = do {
     r \<leftarrow> Stat (n_path node);
     State_Monad.return (case r of Inl err \<Rightarrow> Some err | Inr _ \<Rightarrow> None) }"

definition node_Chmod :: "NFSNode \<Rightarrow> u32 \<Rightarrow> ('fs, 'f, goerr option) op" where
  "node_Chmod node mode = do { update_attrs node Invalidate; call_fs (Chmod_call (n_path node) mode) }"

definition node_Chown :: "NFSNode \<Rightarrow> int \<Rightarrow> int \<Rightarrow> ('fs, 'f, goerr option) op" where
  "node_Chown node uid gid = do { update_attrs node Invalidate; call_fs (Chown_call (n_path node) uid gid) }"

definition node_Chtimes :: "NFSNode \<Rightarrow> time \<Rightarrow> time \<Rightarrow> ('fs, 'f, goerr option) op" where
  "node_Chtimes node a m = do { update_attrs node Invalidate; call_fs (Chtimes_call (n_path node) a m) }"

section \<open>A node is a file\<close>

lemma node_WriteAt_run:
  assumes "write_contract (ops w) content" and "content (fs w) (n_path node) = Some d" and "0 \<le> off"
  shows "\<exists>w'. run_state (node_WriteAt node p off) w = ((int (length p), None), w') \<and> ops w' = ops w \<and>
    content (fs w') = (content (fs w))(n_path node := Some (splice d (nat off) p)) \<and>
    validUntil (cells w' (n_cell node)) = 0"
proof -
  obtain f where f: "fs_OpenFile (ops w) (fs w) (n_path node) O_WRONLY = Inr f"
    and wr: "fst (f_WriteAt (ops w) (fs w) f p off) = (int (length p), None)"
      "content (snd (f_WriteAt (ops w) (fs w) f p off)) = (content (fs w))(n_path node := Some (splice d (nat off) p))"
    and cl: "\<And>s'. content (snd (f_Close (ops w) s' f)) = content s'"
    using assms unfolding write_contract_def by blast
  obtain s1 where s1: "f_WriteAt (ops w) (fs w) f p off = ((int (length p), None), s1)"
    using wr(1) by (cases "f_WriteAt (ops w) (fs w) f p off") auto
  obtain e s2 where s2: "f_Close (ops w) s1 f = (e, s2)" by fastforce
  show ?thesis
    using f s1 s2 wr(2) cl [of s1]
    by (simp add: node_WriteAt_def attempt_def update_attrs_def run_simps Invalidate_def)
qed

lemma node_ReadAt_run:
  assumes "read_contract (ops w) content" and "content (fs w) (n_path node) = Some d" and "0 \<le> off"
  shows "run_state (node_ReadAt node n off) w =
    ((take n (drop (nat off) d), if length (drop (nat off) d) < n then Some EOF else None), w)"
proof -
  obtain f where f: "fs_OpenFile (ops w) (fs w) (n_path node) O_RDONLY = Inr f" "snd (f_Close (ops w) (fs w) f) = fs w"
    "f_ReadAt (ops w) (fs w) f n off = (take n (drop (nat off) d), if length (drop (nat off) d) < n then Some EOF else None)"
    using read_contractE [OF assms(1,2)] assms(3) by metis
  obtain e where "f_Close (ops w) (fs w) f = (e, fs w)" using f(2) by (cases "f_Close (ops w) (fs w) f") auto
  with f(1,3) show ?thesis by (simp add: node_ReadAt_def attempt_def run_simps)
qed

text \<open>What is written through a node is read back through it, and its recorded attributes are no longer valid.\<close>

theorem node_write_then_read:
  assumes "read_contract (ops w) content" and "write_contract (ops w) content"
    and "content (fs w) (n_path node) = Some d" and "0 \<le> off"
  shows "\<exists>w'. run_state (node_WriteAt node p off) w = ((int (length p), None), w') \<and>
    run_state (node_ReadAt node (length p) off) w' = ((p, None), w') \<and> (\<forall>now \<ge> 0. \<not> IsValid (cells w' (n_cell node)) now)"
proof -
  obtain w' where w': "run_state (node_WriteAt node p off) w = ((int (length p), None), w')" "ops w' = ops w"
      "content (fs w') = (content (fs w))(n_path node := Some (splice d (nat off) p))" "validUntil (cells w' (n_cell node)) = 0"
    using node_WriteAt_run [OF assms(2,3,4)] by blast
  note sp = splice_read [of p "nat off" d]
  from arg_cong [OF sp, of length] have "length p \<le> length (drop (nat off) (splice d (nat off) p))" by simp
  with sp node_ReadAt_run [of w' content node "splice d (nat off) p" off "length p"] assms(1,4) w' show ?thesis
    by (simp add: IsValid_def)
qed

text \<open>A listing through a node has no entry for the directory itself or its parent.\<close>

theorem node_listing_no_dots:
  assumes "run_state (node_Readdirnames node) w = (Inr names, w')"
  shows "''.'' \<notin> set names \<and> ''..'' \<notin> set names"
  using assms
  by (auto simp: node_Readdirnames_def node_Readdir_def attempt_def run_simps map_sum_def split: sum.splits prod.splits)

end
