(* ===== verification/Replies.thy ===== *)
theory Replies
  imports MemFS
begin

text \<open>
  The shape of replies.  Every answer to a call carries the header of the call, and its results are
  a sequence of XDR units: the length of the data is a multiple of four, whatever the procedure and
  whatever the outcome.
\<close>

section \<open>Well-formed replies\<close>

definition aligned :: "bytes \<Rightarrow> bool" where
  "aligned bs \<longleftrightarrow> 4 dvd length bs"

definition wf_reply :: "RPCReply \<Rightarrow> RPCReply \<Rightarrow> bool" where
  "wf_reply r0 r \<longleftrightarrow> reply_Header r = reply_Header r0 \<and> Status r = Status r0 \<and>
     reply_Verifier r = reply_Verifier r0 \<and>
     (case Data r of DataNil \<Rightarrow> True | DataBytes b \<Rightarrow> aligned b | _ \<Rightarrow> False)"

lemma aligned_basic [wire_simps]:
  "aligned []" "aligned (xdrEncodeUint32 v)" "aligned (xdrEncodeUint64 u)"
  "aligned (encodeFileAttributes a)" "aligned (encodeWccAttr a)"
  "aligned (xdrEncodeFileHandle h)"
  by (simp_all add: aligned_def xdrEncodeFileHandle_def)

lemma aligned_append [wire_simps]: "aligned xs \<Longrightarrow> aligned ys \<Longrightarrow> aligned (xs @ ys)"
  by (simp add: aligned_def)

lemma aligned_padded [wire_simps]: "aligned (data @ replicate (pad_len (length data)) 0)"
  using pad_len_aligned [of "length data"] by (simp add: aligned_def dvd_eq_mod_eq_0)

lemma aligned_string [wire_simps]: "aligned (xdrEncodeString s)"
  using pad_len_aligned [of "length s"]
  by (simp add: aligned_def dvd_eq_mod_eq_0 length_xdrEncodeString add.assoc mod_add_right_eq)

lemma aligned_structures [wire_simps]:
  "aligned (encodeWccData a b)" "aligned (encodePostOpAttr a)" "aligned encodeNoPostOpAttr"
  "aligned (read_reply a off data)" "aligned (readdir_entry i e)" "aligned (readdirplus_entry i e h)"
  by (simp_all add: encodeWccData_def encodePostOpAttr_def encodeNoPostOpAttr_def read_reply_def
      readdir_entry_def readdirplus_entry_def wire_simps del: append_assoc)

lemma wf_reply_intros [simp]:
  "wf_reply r (set_data r b) \<longleftrightarrow> aligned b"
  "wf_reply r (nfsErrorReply r st)" "wf_reply r (nfsErrorWithPostOp r st)" "wf_reply r (nfsErrorWithWcc r st)"
  "wf_reply r (nfsErrorWithPostOpAndWcc r st)" "wf_reply r (nfsErrorWithDoubleWcc r st)"
  "wf_reply r (new_object_reply r h a1 a2 a3)"
  by (simp_all add: wf_reply_def set_data_def nfsErrorReply_def nfsErrorWithPostOp_def nfsErrorWithWcc_def
      nfsErrorWithPostOpAndWcc_def nfsErrorWithDoubleWcc_def new_object_reply_def wire_simps)

lemma wf_reply_status [simp]: "Data r = DataNil \<Longrightarrow> wf_reply r (r\<lparr>AcceptStatus := st\<rparr>)" "Data r = DataNil \<Longrightarrow> wf_reply r r"
  by (simp_all add: wf_reply_def)

section \<open>Every procedure answers with a well-formed reply\<close>

text \<open>The write verifier has eight bytes from the start of the server on; no step changes it.\<close>

abbreviation verf8 :: "('fs, 'f) AbsfsNFS \<Rightarrow> bool" where
  "verf8 w \<equiv> length (writeVerf w) = 8"

interpretation verf: serving verf8 "\<lambda>_. True" "\<lambda>_ _. True"
  by unfold_locales (auto simp: on_success_def split: sum.splits)

lemma asks_verf:
  "spec verf8 (asks writeVerf) aligned" "spec (writable verf8) (asks writeVerf) aligned"
  by (auto intro!: spec_asks simp: aligned_def writable_def)

lemma aligned_readdir_header: "length v = 8 \<Longrightarrow> aligned (readdir_header a v)"
  by (simp add: readdir_header_def aligned_def)

lemma aligned_readdir_loop:
  "aligned buf \<Longrightarrow> aligned (fst (readdir_loop cookie mx i es buf))"
  by (induction cookie mx i es buf rule: readdir_loop.induct) (simp_all add: aligned_append aligned_structures)

lemma aligned_readdir_body: "length v = 8 \<Longrightarrow> aligned (readdir_body a v cookie cnt es)"
  using aligned_readdir_loop [OF aligned_readdir_header [of v a], of cookie "readdir_max cnt" 0 es]
  by (cases "readdir_loop cookie (readdir_max cnt) 0 es (readdir_header a v)")
    (simp add: readdir_body_def aligned_append aligned_basic)

lemma readdirplus_loop_aligned:
  "aligned buf \<Longrightarrow> spec verf8 (readdirplus_loop cookie mx i k nodes buf) (\<lambda>r. aligned (fst r))"
proof (induction nodes arbitrary: i k buf)
  case (Cons node nodes)
  show ?case
    unfolding readdirplus_loop.simps using Cons.prems
    by (intro verf.spec_flow Cons.IH; simp add: wire_simps)
qed (simp add: spec_return)

lemma rd_full_length: "rd_full n body = (Inr v, rest) \<Longrightarrow> length v = n"
  by (auto simp: rd_full_def split: if_splits)

lemmas reading_flow = verf.spec_flow verf.spec_ops
lemmas writing_flow = asks_verf [THEN spec_bind] verf.rw.spec_flow verf.rw.spec_ops verf.write_flow verf.write_ops

lemma attrs_and_constants_wf:
  "aligned xs \<Longrightarrow> spec verf8 (attrs_and_constants xs body reply ctx) (wf_reply reply)"
  unfolding attrs_and_constants_def by (intro reading_flow; simp add: wire_simps)

lemma reading_wf:
  "spec verf8 (handleGetattr body reply ctx) (wf_reply reply)"
  "spec verf8 (handleAccess body reply ctx) (wf_reply reply)"
  "spec verf8 (handleReadlink body reply ctx) (wf_reply reply)"
  "spec verf8 (handleRead body reply ctx) (wf_reply reply)"
  "spec verf8 (handleLookup body reply ctx) (wf_reply reply)"
  unfolding handleGetattr_def handleAccess_def handleReadlink_def handleRead_def handleLookup_def
  by (intro reading_flow; simp add: wire_simps)+

lemma listing_wf:
  "spec verf8 (handleReaddir body reply ctx) (wf_reply reply)"
  "spec verf8 (handleReaddirplus body reply ctx) (wf_reply reply)"
  unfolding handleReaddir_def handleReaddirplus_def
  by (intro reading_flow readdirplus_loop_aligned [THEN spec_bind];
      auto intro!: aligned_readdir_body aligned_readdir_header aligned_append aligned_basic dest!: rd_full_length)+

lemma dir_failure_wf: "spec (writable verf8) (dir_failure reply node a st) (wf_reply reply)"
  unfolding dir_failure_def by (intro verf.rw.spec_flow verf.rw.post_attrs_spec [THEN spec_bind]; simp add: wire_simps)

lemma created_wf: "spec (writable verf8) (created reply node a newNode) (wf_reply reply)"
  unfolding created_def by (intro verf.rw.spec_flow verf.rw.GetAttr_spec [THEN spec_attempt]; simp)

lemmas changing_flow = asks_verf(2) [THEN spec_bind] dir_failure_wf created_wf verf.rw.spec_flow verf.rw.spec_ops
  verf.write_flow verf.Create_spec [THEN spec_attempt] verf.Symlink_spec [THEN spec_attempt]
  verf.Remove_spec [THEN spec_check] verf.Rename_spec [THEN spec_check] verf.SetAttr_spec [THEN spec_check]
  verf.setattr_size_spec [THEN spec_bind] verf.Write_spec [THEN spec_bind] verf.rw.Lookup_spec [THEN spec_bind]

lemma handleSetattr_wf: "spec verf8 (handleSetattr body reply ctx) (wf_reply reply)"
  unfolding handleSetattr_def
  by (rule verf.spec_readOnly; intro changing_flow spec_return; simp add: wire_simps)

lemma handleWrite_wf: "spec verf8 (handleWrite body reply ctx) (wf_reply reply)"
  unfolding handleWrite_def
  by (rule verf.spec_readOnly; intro changing_flow spec_return; simp add: wire_simps)

lemma handleCommit_wf: "spec verf8 (handleCommit body reply ctx) (wf_reply reply)"
  unfolding handleCommit_def
  by (rule verf.spec_readOnly; intro changing_flow spec_return; simp add: wire_simps)

lemma handleCreate_wf: "spec verf8 (handleCreate body reply ctx) (wf_reply reply)"
  unfolding handleCreate_def
  by (rule verf.spec_readOnly; intro changing_flow spec_return; simp add: wire_simps)

lemma handleMkdir_wf: "spec verf8 (handleMkdir body reply ctx) (wf_reply reply)"
  unfolding handleMkdir_def Let_def
  by (rule verf.spec_readOnly; intro changing_flow spec_return; simp add: wire_simps)

lemma handleSymlink_wf: "spec verf8 (handleSymlink body reply ctx) (wf_reply reply)"
  unfolding handleSymlink_def Let_def
  by (rule verf.spec_readOnly; intro changing_flow spec_return; simp add: wire_simps)

lemma handleRemove_wf: "spec verf8 (handleRemove body reply ctx) (wf_reply reply)"
  unfolding handleRemove_def
  by (rule verf.spec_readOnly; intro changing_flow spec_return; simp add: wire_simps)

lemma handleRmdir_wf: "spec verf8 (handleRmdir body reply ctx) (wf_reply reply)"
  unfolding handleRmdir_def Let_def
  by (rule verf.spec_readOnly; intro changing_flow spec_return; simp add: wire_simps)

lemma handleRename_wf: "spec verf8 (handleRename body reply ctx) (wf_reply reply)"
  unfolding handleRename_def
  by (rule verf.spec_readOnly; intro changing_flow spec_return; simp add: wire_simps)

lemma constant_wf:
  "Data reply = DataNil \<Longrightarrow> spec verf8 (handleNull body reply ctx) (wf_reply reply)"
  "spec verf8 (handleMknod body reply ctx) (wf_reply reply)"
  "spec verf8 (handleLink body reply ctx) (wf_reply reply)"
  "spec verf8 (handleFsstat body reply ctx) (wf_reply reply)"
  "spec verf8 (handleFsinfo body reply ctx) (wf_reply reply)"
  "spec verf8 (handlePathconf body reply ctx) (wf_reply reply)"
  unfolding handleNull_def handleMknod_def handleLink_def handleFsstat_def handleFsinfo_def handlePathconf_def
  by (intro spec_return attrs_and_constants_wf; simp add: wire_simps)+

lemma mount_MNT_wf: "Data reply = DataNil \<Longrightarrow> spec verf8 (mount_MNT body reply ctx) (wf_reply reply)"
  unfolding mount_MNT_def Let_def by (intro reading_flow; simp add: wire_simps)

lemmas procedures_wf = constant_wf reading_wf listing_wf handleSetattr_wf handleWrite_wf handleCommit_wf
  handleCreate_wf handleMkdir_wf handleSymlink_wf handleRemove_wf handleRmdir_wf handleRename_wf

lemma nfsHandlers_wf:
  "nfsHandlers proc = Some h \<Longrightarrow> Data reply = DataNil \<Longrightarrow> spec verf8 (h body reply ctx) (wf_reply reply)"
  unfolding nfsHandlers_def by (simp split: if_splits; metis procedures_wf)

lemma calls_wf:
  assumes "Data reply = DataNil"
  shows "spec verf8 (handleNFSCall hdr body reply ctx) (wf_reply reply)"
    and "spec verf8 (handleMountCall hdr body reply ctx) (wf_reply reply)"
  unfolding handleNFSCall_def handleMountCall_def
  by (intro spec_if spec_option spec_return spec_decode nfsHandlers_wf mount_MNT_wf; simp add: assms wire_simps)+

section \<open>Answers to calls\<close>

definition answers :: "RPCCall \<Rightarrow> RPCReply \<Rightarrow> bool" where
  "answers call r \<longleftrightarrow> (\<exists>st. wf_reply ((new_reply (call_Header call))\<lparr>Status := st\<rparr>) r \<and> st \<in> {MSG_ACCEPTED, MSG_DENIED})"

lemma answers_new_reply:
  "wf_reply (new_reply (call_Header call)) r \<Longrightarrow> answers call r"
  "answers call ((new_reply (call_Header call))\<lparr>Status := MSG_DENIED\<rparr>)"
  by (force simp: answers_def new_reply_def wf_reply_def)+

lemma HandleCall_answers: "spec verf8 (HandleCall dr late call body ctx) (on_success (answers call))"
proof -
  have d: "Data (new_reply h) = DataNil" for h by (simp add: new_reply_def)
  have r: "spec verf8 (if b then handleMountCall h body (new_reply (call_Header call)) c
      else if b' then handleNFSCall h body (new_reply (call_Header call)) c
      else State_Monad.return ((new_reply (call_Header call))\<lparr>AcceptStatus := st\<rparr>)) (answers call)" for b b' h c st
    by (intro spec_if spec_return calls_wf [OF d, THEN spec_weaken] answers_new_reply(1);
        simp add: d)
  show ?thesis
    unfolding HandleCall_def Let_def
    by (intro verf.spec_flow r [THEN spec_bind]; simp add: answers_new_reply aligned_basic)
qed

lemma answers_encoding:
  assumes "answers call r"
  shows "aligned (EncodeRPCReply r)"
  using assms
  by (auto simp: answers_def wf_reply_def new_reply_def EncodeRPCReply_def encode_reply_data_def wire_simps
      split: reply_data.splits)

lemma verifier_serving: "serving (\<lambda>w. writeVerf w = v) (\<lambda>_. True) (\<lambda>_ _. True)"
  by unfold_locales (auto simp: on_success_def split: sum.splits)

text \<open>
  C4: Every answer has its type.  Whatever bytes a call carries, if the server answers, the reply has
  the header (and so the transaction id) of that call, it is accepted or denied, its results are
  absent or a byte sequence made of four-byte XDR units, and its encoding is made of such units
  too.  The write verifier, which WRITE and COMMIT put into their replies as eight bytes, is the same
  after the call, so that a client sees one verifier as long as the server runs.
\<close>

theorem replies_well_formed:
  assumes "length (writeVerf w) = 8"
    and "run_state (HandleCall draining late call body authCtx) w = (Inr reply, w')"
  shows "reply_Header reply = call_Header call \<and> Status reply \<in> {MSG_ACCEPTED, MSG_DENIED} \<and>
    (Data reply = DataNil \<or> (\<exists>b. Data reply = DataBytes b \<and> 4 dvd length b)) \<and>
    4 dvd length (EncodeRPCReply reply) \<and> writeVerf w' = writeVerf w"
proof -
  have a: "answers call reply"
    using specD [OF HandleCall_answers _ assms(2)] assms(1) by simp
  have v: "writeVerf w' = writeVerf w"
    using specD [OF serving.HandleCall_spec [OF verifier_serving] _ assms(2)] by simp
  from a obtain st where "wf_reply ((new_reply (call_Header call))\<lparr>Status := st\<rparr>) reply" "st \<in> {MSG_ACCEPTED, MSG_DENIED}"
    by (auto simp: answers_def)
  with v answers_encoding [OF a] show ?thesis
    by (auto simp: wf_reply_def new_reply_def aligned_def split: reply_data.splits)
qed

theorem replies_well_formed_witness:
  "\<exists>reply w'. run_state (HandleCall False False (mem_call 100005 1) (xdrEncodeString ''/'') sample_ctx)
       (sample_server sample_options) = (Inr reply, w') \<and>
     4 dvd length (EncodeRPCReply reply) \<and> length (EncodeRPCReply reply) > 24"
proof -
  let ?m = "HandleCall False False (mem_call 100005 1) (xdrEncodeString ''/'') sample_ctx"
  let ?w = "sample_server sample_options"
  have "\<exists>reply. fst (run_state ?m ?w) = Inr reply \<and> length (EncodeRPCReply reply) > 24"
  proof -
    have "(case fst (run_state ?m ?w) of Inl _ \<Rightarrow> False | Inr r \<Rightarrow> length (EncodeRPCReply r) > 24)" by code_simp
    then show ?thesis by (auto split: sum.splits)
  qed
  moreover have "length (writeVerf ?w) = 8" by code_simp
  ultimately show ?thesis
    using replies_well_formed [of ?w False False "mem_call 100005 1" "xdrEncodeString ''/''" sample_ctx]
    by (metis prod.collapse)
qed

end
