(* ===== verification/Listing.thy ===== *)
theory Listing
  imports FileData
begin

text \<open>
  Directory listings as a client sees them: READDIR replies are read back entry by entry, and a
  client that asks again with the cookie of the last entry gets through the whole directory.
\<close>

section \<open>Pages of a listing\<close>





section \<open>Reading a reply\<close>














section \<open>A directory that stays as it is\<close>







section \<open>The caches during a listing\<close>











section \<open>READDIR on such a directory\<close>










section \<open>Walking through a directory\<close>












end
