(* ===== verification/ProcTheorems.thy ===== *)
theory ProcTheorems
  imports FileData
begin

text \<open>
  Theorems about single procedures: access checks, attribute changes with their guard, name
  procedures and the caches, and calls that the server refuses.
\<close>

section \<open>ACCESS\<close>

text \<open>The permission check of Unix, written independently of the code: one of the three classes of
  permission bits applies, and user 0 may do everything.  \<open>r\<close> is 4, 2 or 1 for read, write, execute.\<close>

definition in_group :: "NFSAttrs \<Rightarrow> AuthContext \<Rightarrow> bool" where
  "in_group attrs authCtx \<longleftrightarrow> EffectiveGID authCtx = Gid attrs \<or>
     (\<exists>a. AuthSys authCtx = Some a \<and> Gid attrs \<in> set (AuxGIDs a))"

definition unix_may :: "nat \<Rightarrow> NFSAttrs \<Rightarrow> AuthContext \<Rightarrow> bool" where
  "unix_may r attrs authCtx \<longleftrightarrow>
     EffectiveUID authCtx = 0 \<or>
     bit (Mode attrs) (r + (if EffectiveUID authCtx = Uid attrs then 6 else if in_group attrs authCtx then 3 else 0))"

lemma mask_bit: "(m AND 7) AND 4 \<noteq> 0 \<longleftrightarrow> bit m 2" "(m AND 7) AND 2 \<noteq> 0 \<longleftrightarrow> bit m 1" "(m AND 7) AND 1 \<noteq> 0 \<longleftrightarrow> bit m 0" for m :: u32
  using and_exp_eq_0_iff_not_bit [of "m AND 7" 2] and_exp_eq_0_iff_not_bit [of "m AND 7" 1]
    and_exp_eq_0_iff_not_bit [of "m AND 7" 0]
  by (simp_all add: bit_and_iff)

lemma perm_bits_may:
  "perm_bits a c AND 4 \<noteq> 0 \<longleftrightarrow> unix_may 2 a c" "perm_bits a c AND 2 \<noteq> 0 \<longleftrightarrow> unix_may 1 a c"
  "perm_bits a c AND 1 \<noteq> 0 \<longleftrightarrow> unix_may 0 a c"
proof -
  have p: "perm_bits a c = (if EffectiveUID c = 0 then 7
      else drop_bit (if EffectiveUID c = Uid a then 6 else if in_group a c then 3 else 0) (Mode a) AND 7)"
    by (auto simp: perm_bits_def in_group_def Let_def split: option.splits)
  have all: "(7 :: u32) AND 4 \<noteq> 0" "(7 :: u32) AND 2 \<noteq> 0" "(7 :: u32) AND 1 \<noteq> 0" by code_simp+
  show "perm_bits a c AND 4 \<noteq> 0 \<longleftrightarrow> unix_may 2 a c" "perm_bits a c AND 2 \<noteq> 0 \<longleftrightarrow> unix_may 1 a c"
    "perm_bits a c AND 1 \<noteq> 0 \<longleftrightarrow> unix_may 0 a c"
    unfolding p unix_may_def by (cases "EffectiveUID c = 0"; simp only: if_True if_False all simp_thms mask_bit bit_drop_bit_eq comp_def add.commute)+
qed

definition access_rule :: "nat \<Rightarrow> bool \<Rightarrow> bool \<Rightarrow> NFSAttrs \<Rightarrow> AuthContext \<Rightarrow> bool" where
  "access_rule n isDir ro attrs authCtx =
     (if n = 0 then unix_may 2 attrs authCtx
      else if n = 1 then isDir \<and> unix_may 0 attrs authCtx
      else if n = 2 \<or> n = 3 then \<not> ro \<and> unix_may 1 attrs authCtx
      else if n = 4 then \<not> ro \<and> isDir \<and> unix_may 1 attrs authCtx
      else if n = 5 then unix_may 0 attrs authCtx
      else False)"

lemma bit_grant:
  assumes "b = 2 ^ k" "k < 32"
  shows "bit (if access AND b \<noteq> 0 \<and> ok then b else 0 :: u32) n \<longleftrightarrow> n = k \<and> bit access k \<and> ok"
  unfolding assms(1) using assms(2) by (auto simp: and_exp_eq_0_iff_not_bit bit_exp_iff possible_bit_def)

lemma bit_grants:
  "bit (if access AND 1 \<noteq> 0 \<and> ok then 1 else 0 :: u32) n \<longleftrightarrow> n = 0 \<and> bit access 0 \<and> ok"
  "bit (if access AND 2 \<noteq> 0 \<and> ok then 2 else 0 :: u32) n \<longleftrightarrow> n = 1 \<and> bit access 1 \<and> ok"
  "bit (if access AND 4 \<noteq> 0 \<and> ok then 4 else 0 :: u32) n \<longleftrightarrow> n = 2 \<and> bit access 2 \<and> ok"
  "bit (if access AND 8 \<noteq> 0 \<and> ok then 8 else 0 :: u32) n \<longleftrightarrow> n = 3 \<and> bit access 3 \<and> ok"
  "bit (if access AND 16 \<noteq> 0 \<and> ok then 16 else 0 :: u32) n \<longleftrightarrow> n = 4 \<and> bit access 4 \<and> ok"
  "bit (if access AND 32 \<noteq> 0 \<and> ok then 32 else 0 :: u32) n \<longleftrightarrow> n = 5 \<and> bit access 5 \<and> ok" for access :: u32
  by (rule bit_grant; simp)+

lemma bit_access_allowed:
  "bit (access_allowed access (perm_bits attrs authCtx) isDir ro) n \<longleftrightarrow> bit access n \<and> access_rule n isDir ro attrs authCtx"
proof -
  have "bit (access_allowed access (perm_bits attrs authCtx) isDir ro) n \<longleftrightarrow>
      n = 0 \<and> bit access 0 \<and> unix_may 2 attrs authCtx \<or>
      n = 1 \<and> bit access 1 \<and> isDir \<and> unix_may 0 attrs authCtx \<or>
      n = 5 \<and> bit access 5 \<and> unix_may 0 attrs authCtx \<or>
      \<not> ro \<and> (n = 2 \<and> bit access 2 \<and> unix_may 1 attrs authCtx \<or>
        n = 3 \<and> bit access 3 \<and> unix_may 1 attrs authCtx \<or>
        n = 4 \<and> bit access 4 \<and> isDir \<and> unix_may 1 attrs authCtx)"
    unfolding access_allowed_def Let_def perm_bits_may
    by (cases ro) (simp_all only: if_True if_False not_True_eq_False not_False_eq_True bit_or_iff bit_grants bit_0_eq
        bot_fun_def bot_bool_def simp_thms disj_assoc)
  then show ?thesis by (auto simp: access_rule_def)
qed

text \<open>
  C12: ACCESS decides as Unix does.  The reply grants a right exactly when the client asked for it and
  the permission bits of its class (owner, group with auxiliary groups, other) allow it, or the
  client is user 0; lookup and delete exist for directories only, and a read-only export grants no right
  to modify, extend or delete.  No bit outside the six rights is ever set.
\<close>

theorem access_decision:
  assumes "\<forall>n. 0 \<le> clock w n" and "Get (fileMap w) h = Some (NodeFile node)"
    and "fs_Lstat (ops w) (fs w) (n_path node) = Inr info"
  shows "\<exists>attrs granted w'. run_state (handleAccess (xdrEncodeFileHandle h @ xdrEncodeUint32 access @ rest) reply authCtx) w =
      (set_data reply (xdrEncodeUint32 NFS_OK @ encodePostOpAttr attrs @ xdrEncodeUint32 granted), w') \<and>
    Mode attrs = fi_Mode info \<and> quiet w w' \<and>
    (\<forall>n. bit granted n \<longleftrightarrow> bit access n \<and>
       access_rule n (mode_is_dir (fi_Mode info)) (p_ReadOnly (policy w)) attrs authCtx)"
proof -
  obtain attrs w' where g: "run_state (GetAttr node) w = (Inr attrs, w')" "quiet w w'" "Mode attrs = fi_Mode info"
    using getattr_run [OF assms(1), of node] assms(3)
    by (cases "run_state (GetAttr node) w") (auto simp: attrs_from_info_def Refresh_def)
  let ?g = "access_allowed access (perm_bits attrs authCtx) (mode_is_dir (Mode attrs)) (p_ReadOnly (policy w))"
  have "run_state (handleAccess (xdrEncodeFileHandle h @ xdrEncodeUint32 access @ rest) reply authCtx) w =
      (set_data reply (xdrEncodeUint32 NFS_OK @ encodePostOpAttr attrs @ xdrEncodeUint32 ?g), w')"
    using g(1,2) by (simp add: handleAccess_def read_simps run_simps run_with_node [OF assms(2)] encodePostOpAttr_def cong: exec_cong)
  with g(2,3) bit_access_allowed [of access attrs authCtx "mode_is_dir (Mode attrs)" "p_ReadOnly (policy w)"] show ?thesis
    by metis
qed

theorem access_decision_witness:
  "\<exists>attrs granted w'. run_state (handleAccess (xdrEncodeFileHandle 1 @ xdrEncodeUint32 63 @ [])
      (new_reply (call_Header (mem_call 100003 4))) sample_ctx) sample_open =
      (set_data (new_reply (call_Header (mem_call 100003 4)))
        (xdrEncodeUint32 NFS_OK @ encodePostOpAttr attrs @ xdrEncodeUint32 granted), w') \<and> \<not> bit granted 1 \<and> \<not> bit granted 6"
proof -
  have "fs_Lstat (ops sample_open) (fs sample_open) (n_path \<lparr>n_path = ''/a'', n_cell = 0\<rparr>) =
      Inr \<lparr>fi_Name = ''a'', fi_Size = 5, fi_Mode = 420, fi_ModTime = 7\<rparr>" by code_simp
  moreover have "\<not> mode_is_dir 420" by code_simp
  ultimately show ?thesis
    using access_decision [OF _ sample_open_facts(4), of _ 63 "[]" "new_reply (call_Header (mem_call 100003 4))" sample_ctx]
      sample_open_facts(2) by (fastforce simp: access_rule_def)
qed

section \<open>SETATTR\<close>

text \<open>What a client sends: each attribute with a flag, and the guard.\<close>

definition encode_optional :: "bool \<Rightarrow> bytes \<Rightarrow> bytes" where
  "encode_optional b v = (if b then xdrEncodeUint32 1 @ v else xdrEncodeUint32 0)"

definition encode_client_time :: "u32 \<Rightarrow> u32 \<Rightarrow> u32 \<Rightarrow> bytes" where
  "encode_client_time how sec nsec =
     xdrEncodeUint32 how @ (if how = 2 then xdrEncodeUint32 sec @ xdrEncodeUint32 nsec else [])"

definition encode_sattr3 :: "sattr3 \<Rightarrow> bytes" where
  "encode_sattr3 s =
     encode_optional (SetMode s) (xdrEncodeUint32 (sa_Mode s)) @
     encode_optional (SetUID s) (xdrEncodeUint32 (sa_UID s)) @
     encode_optional (SetGID s) (xdrEncodeUint32 (sa_GID s)) @
     encode_optional (SetSize s) (xdrEncodeUint64 (sa_Size s)) @
     encode_client_time (SetAtime s) (AtimeSec s) (AtimeNsec s) @
     encode_client_time (SetMtime s) (MtimeSec s) (MtimeNsec s)"

definition encode_guard :: "(u32 \<times> u32) option \<Rightarrow> bytes" where
  "encode_guard g = (case g of None \<Rightarrow> xdrEncodeUint32 0
     | Some (sec, nsec) \<Rightarrow> xdrEncodeUint32 1 @ xdrEncodeUint32 sec @ xdrEncodeUint32 nsec)"

text \<open>Values that are not set are zero.\<close>

definition plain_sattr :: "sattr3 \<Rightarrow> bool" where
  "plain_sattr s \<longleftrightarrow> (SetMode s \<or> sa_Mode s = 0) \<and> (SetUID s \<or> sa_UID s = 0) \<and> (SetGID s \<or> sa_GID s = 0) \<and>
     (SetSize s \<or> sa_Size s = 0) \<and> (SetAtime s = 2 \<or> AtimeSec s = 0 \<and> AtimeNsec s = 0) \<and>
     (SetMtime s = 2 \<or> MtimeSec s = 0 \<and> MtimeNsec s = 0)"

lemma optional_app [read_simps]:
  "optional xdrDecodeUint32 (encode_optional b (xdrEncodeUint32 v) @ rest) = (Inr (b, if b then v else 0), rest)"
  "optional rd_u64 (encode_optional b (xdrEncodeUint64 u) @ rest) = (Inr (b, if b then u else 0), rest)"
  by (simp_all add: optional_def encode_optional_def rbind_def read_simps rreturn_def)

lemma client_time_app [read_simps]:
  "client_time (encode_client_time how sec nsec @ rest) =
     (Inr (how, if how = 2 then sec else 0, if how = 2 then nsec else 0), rest)"
  by (simp add: client_time_def encode_client_time_def rbind_def read_simps rreturn_def)

lemma decode_guard_app [read_simps]:
  "decode_guard (encode_guard g @ rest) =
     (Inr (case g of None \<Rightarrow> (0, 0, 0) | Some (sec, nsec) \<Rightarrow> (1, sec, nsec)), rest)"
  by (cases g) (auto simp: decode_guard_def encode_guard_def rbind_def read_simps rreturn_def)

lemma decodeSattr3_app [read_simps]:
  "plain_sattr s \<Longrightarrow> decodeSattr3 (encode_sattr3 s @ rest) = (Inr s, rest)"
  by (cases s) (auto simp: decodeSattr3_def encode_sattr3_def rbind_def read_simps rreturn_def plain_sattr_def)

definition setattr_args :: "u64 \<Rightarrow> sattr3 \<Rightarrow> (u32 \<times> u32) option \<Rightarrow> bytes" where
  "setattr_args h s g = xdrEncodeFileHandle h @ encode_sattr3 s @ encode_guard g"

text \<open>
  C13: A guarded SETATTR changes nothing unless the guard holds.  When a client makes its change depend
  on the time of the last change and the file has another one, the reply says so and the file system, the
  nodes and the handles are as before.  On a read-only export every SETATTR, whatever its body, is
  refused at once and leaves the whole server as it was.
\<close>

theorem setattr_guard_protects:
  "(p_ReadOnly (policy w) \<longrightarrow>
      run_state (handleSetattr body reply authCtx) w = (nfsErrorWithWcc reply NFSERR_ROFS, w)) \<and>
   (\<not> p_ReadOnly (policy w) \<and> (\<forall>n. 0 \<le> clock w n) \<and> Get (fileMap w) h = Some (NodeFile node) \<and>
      fs_Lstat (ops w) (fs w) (n_path node) = Inr info \<and> plain_sattr s \<and>
      \<not> (SetMode s \<and> sa_Mode s AND 0x8000 \<noteq> 0) \<and>
      (sec \<noteq> word_of_int (time_Unix_sec (fi_ModTime info)) \<or> nsec \<noteq> word_of_int (time_Nanosecond (fi_ModTime info))) \<longrightarrow>
    (\<exists>w'. run_state (handleSetattr (setattr_args h s (Some (sec, nsec)) @ rest) reply authCtx) w =
        (nfsErrorWithWcc reply NFSERR_NOT_SYNC, w') \<and> quiet w w'))"
proof (intro conjI impI)
  assume "p_ReadOnly (policy w)"
  then show "run_state (handleSetattr body reply authCtx) w = (nfsErrorWithWcc reply NFSERR_ROFS, w)"
    by (simp add: handleSetattr_def run_simps cong: exec_cong)
next
  assume a: "\<not> p_ReadOnly (policy w) \<and> (\<forall>n. 0 \<le> clock w n) \<and> Get (fileMap w) h = Some (NodeFile node) \<and>
      fs_Lstat (ops w) (fs w) (n_path node) = Inr info \<and> plain_sattr s \<and>
      \<not> (SetMode s \<and> sa_Mode s AND 0x8000 \<noteq> 0) \<and>
      (sec \<noteq> word_of_int (time_Unix_sec (fi_ModTime info)) \<or> nsec \<noteq> word_of_int (time_Nanosecond (fi_ModTime info)))"
  obtain attrs w' where g: "run_state (GetAttr node) w = (Inr attrs, w')" "quiet w w'" "mtime attrs = fi_ModTime info"
    using getattr_run [of w node] a
    by (cases "run_state (GetAttr node) w") (auto simp: attrs_from_info_def Refresh_def)
  have f: "guard_fails 1 sec nsec attrs" using a g(3) by (simp add: guard_fails_def)
  have h: "Get (fileMap w) h = Some (NodeFile node)" using a by simp
  have "run_state (handleSetattr (setattr_args h s (Some (sec, nsec)) @ rest) reply authCtx) w =
      (nfsErrorWithWcc reply NFSERR_NOT_SYNC, w')"
    using g(1) f a
    by (cases "SetMode s") (simp_all add: handleSetattr_def setattr_args_def read_simps run_simps run_with_node [OF h] cong: exec_cong)
  with g(2) show "\<exists>w'. run_state (handleSetattr (setattr_args h s (Some (sec, nsec)) @ rest) reply authCtx) w =
        (nfsErrorWithWcc reply NFSERR_NOT_SYNC, w') \<and> quiet w w'" by blast
qed

definition chmod_sattr :: "u32 \<Rightarrow> sattr3" where
  "chmod_sattr m = \<lparr>SetMode = True, sa_Mode = m, SetUID = False, sa_UID = 0, SetGID = False, sa_GID = 0,
     SetSize = False, sa_Size = 0, SetAtime = 0, AtimeSec = 0, AtimeNsec = 0, SetMtime = 0, MtimeSec = 0, MtimeNsec = 0\<rparr>"

lemma chmod_sattr_fields [simp]:
  "SetMode (chmod_sattr m)" "sa_Mode (chmod_sattr m) = m" "\<not> SetUID (chmod_sattr m)" "\<not> SetGID (chmod_sattr m)"
  "plain_sattr (chmod_sattr m)"
  by (simp_all add: chmod_sattr_def plain_sattr_def)

theorem setattr_guard_protects_witness:
  "\<exists>w'. run_state (handleSetattr (setattr_args 1 (chmod_sattr 448) (Some (1, 1)) @ [])
      (new_reply (call_Header (mem_call 100003 2))) sample_ctx) sample_open =
    (nfsErrorWithWcc (new_reply (call_Header (mem_call 100003 2))) NFSERR_NOT_SYNC, w') \<and> fs w' = fs sample_open \<and>
   run_state (handleSetattr [] (new_reply (call_Header (mem_call 100003 2))) sample_ctx)
       (sample_open\<lparr>policy := (policy sample_open)\<lparr>p_ReadOnly := True\<rparr>\<rparr>) =
     (nfsErrorWithWcc (new_reply (call_Header (mem_call 100003 2))) NFSERR_ROFS,
      sample_open\<lparr>policy := (policy sample_open)\<lparr>p_ReadOnly := True\<rparr>\<rparr>)"
proof -
  let ?i = "\<lparr>fi_Name = ''a'', fi_Size = 5, fi_Mode = 420, fi_ModTime = 7\<rparr>"
  have i: "fs_Lstat (ops sample_open) (fs sample_open) (n_path \<lparr>n_path = ''/a'', n_cell = 0\<rparr>) = Inr ?i" by code_simp
  have m: "\<not> (SetMode (chmod_sattr 448) \<and> sa_Mode (chmod_sattr 448) AND 0x8000 \<noteq> 0)"
    and t: "(1 :: u32) \<noteq> word_of_int (time_Unix_sec (fi_ModTime ?i)) \<or> (1 :: u32) \<noteq> word_of_int (time_Nanosecond (fi_ModTime ?i))"
    by code_simp+
  have p: "plain_sattr (chmod_sattr 448)" by (simp add: plain_sattr_def chmod_sattr_def)
  show ?thesis
    using setattr_guard_protects [of sample_open "[]" "new_reply (call_Header (mem_call 100003 2))" sample_ctx 1
        "\<lparr>n_path = ''/a'', n_cell = 0\<rparr>" ?i "chmod_sattr 448" 1 1 "[]"]
      setattr_guard_protects [of "sample_open\<lparr>policy := (policy sample_open)\<lparr>p_ReadOnly := True\<rparr>\<rparr>" "[]"
        "new_reply (call_Header (mem_call 100003 2))" sample_ctx] sample_open_facts(2,4,6) i m t p by auto
qed

lemma SetAttr_chmod:
  assumes "fs_Stat (ops w) (fs w) (n_path node) = Inr info" "mtime attrs = 0" "atime attrs = 0"
    and "Uid attrs = Uid (cells w (n_cell node))" "Gid attrs = Gid (cells w (n_cell node))"
    and "fst (fs_Do (ops w) (fs w) (Chmod_call (n_path node) (Mode attrs AND os_ModePerm))) = None"
  shows "fst (run_state (SetAttr node attrs) w) = None"
    and "cells (snd (run_state (SetAttr node attrs) w)) = (cells w)(n_cell node := Refresh (clock w (tick w)) attrs)"
    and "same_setup w (snd (run_state (SetAttr node attrs) w))"
    and "fs (snd (run_state (SetAttr node attrs) w)) \<in>
      {fs w, snd (fs_Do (ops w) (fs w) (Chmod_call (n_path node) (Mode attrs AND os_ModePerm)))}"
  using assms
  by (cases "Mode attrs AND os_ModePerm \<noteq> Mode (cells w (n_cell node)) AND os_ModePerm";
      simp add: SetAttr_def when_err_def run_simps same_setup_def cong: exec_cong)+

text \<open>
  C39: After a successful change of mode on a directory, lookups in it fail.  SETATTR stores the mode
  that the client sent, which has permission bits only, as the mode of the node, so that the server
  takes the directory for a plain file: it answers LOOKUP with "not a directory" under the
  same handle, although the file system still has the directory.
\<close>

theorem chmod_hides_directory:
  assumes "\<forall>n. 0 \<le> clock w n" and "Get (fileMap w) h = Some (NodeFile node)" and "\<not> p_ReadOnly (policy w)"
    and "m AND 0x8000 = 0" and "\<not> mode_is_dir m"
    and "fs_Stat (ops w) (fs w) (n_path node) = Inr info"
    and "fs_Do (ops w) (fs w) (Chmod_call (n_path node) (m AND os_ModePerm)) = (None, s')"
    and "fs_Lstat (ops w) (fs w) (n_path node) = Inr i1" and "fs_Lstat (ops w) s' (n_path node) = Inr i2"
    and "length name \<le> 255" and "validateFilename name = NFS_OK" and "CHR 0x00 \<notin> set name"
  shows "\<exists>pre post attrs w1.
    run_state (handleSetattr (setattr_args h (chmod_sattr m) None @ rest) reply authCtx) w =
      (set_data reply (xdrEncodeUint32 NFS_OK @ encodeWccData pre post), w1) \<and>
    run_state (handleLookup (xdrEncodeFileHandle h @ xdrEncodeString name @ rest') reply' authCtx') w1 =
      (set_data reply' (xdrEncodeUint32 NFSERR_NOTDIR @ encodePostOpAttr attrs), w1)"
proof -
  have plain: "plain_sattr (chmod_sattr m)" by (simp add: plain_sattr_def chmod_sattr_def)
  obtain pre wa where g: "run_state (GetAttr node) w = (Inr pre, wa)" "quiet w wa"
    using getattr_run [OF assms(1), of node] assms(8) by (cases "run_state (GetAttr node) w") auto
  define wb where "wb = wa\<lparr>tick := tick wa + 2\<rparr>"
  have b: "cells wb = cells w" "fs wb = fs w" "ops wb = ops w" "clock wb = clock w" "fileMap wb = fileMap w"
    using g(2) by (simp_all add: wb_def)
  define attrs where "attrs = setattr_request (cells w (n_cell node)) (chmod_sattr m) authCtx
    (clock w (tick wa)) (clock w (tick wa + 1))"
  have a: "Mode attrs = m" "mtime attrs = 0" "atime attrs = 0" "Uid attrs = Uid (cells w (n_cell node))"
      "Gid attrs = Gid (cells w (n_cell node))"
    by (simp_all add: attrs_def setattr_request_def chmod_sattr_def)
  obtain w2 where s: "run_state (SetAttr node attrs) wb = (None, w2)"
      "cells w2 = (cells w)(n_cell node := Refresh (clock w (tick wb)) attrs)" "same_setup wb w2" "fs w2 \<in> {fs w, s'}"
    using SetAttr_chmod [of wb node info attrs] assms(6,7) a b
    by (cases "run_state (SetAttr node attrs) wb") auto
  have setup2: "ops w2 = ops w" "fileMap w2 = fileMap w" "clock w2 = clock w"
    using s(3) b by (simp_all add: same_setup_def)
  obtain post w1 where g2: "run_state (GetAttr node) w2 = (Inr post, w1)" "quiet w2 w1"
    using getattr_run [of w2 node] assms(1,8,9) s(4) setup2 by (cases "run_state (GetAttr node) w2") auto
  have "run_state (handleSetattr (setattr_args h (chmod_sattr m) None @ rest) reply authCtx) w =
      (set_data reply (xdrEncodeUint32 NFS_OK @ encodeWccData pre post), w1)"
    using assms(3,4) g s(1) g2(1)
    by (simp add: handleSetattr_def setattr_args_def decodeSattr3_app [OF plain] read_simps run_simps
        run_with_node [OF assms(2)] guard_fails_def setattr_size_def attrs_def wb_def cong: exec_cong)
      (simp add: chmod_sattr_def)
  moreover have "cells w1 (n_cell node) = Refresh (clock w (tick wb)) attrs" using g2(2) s(2) by simp
  moreover from this have "run_state (handleLookup (xdrEncodeFileHandle h @ xdrEncodeString name @ rest') reply' authCtx') w1 =
      (set_data reply' (xdrEncodeUint32 NFSERR_NOTDIR @ encodePostOpAttr (Refresh (clock w (tick wb)) attrs)), w1)"
    using assms(2,5,10,11,12) g2(2) setup2 a(1)
    by (simp add: handleLookup_def read_simps run_simps run_with_node Refresh_def encodePostOpAttr_def cong: exec_cong)
  ultimately show ?thesis by blast
qed

text \<open>A server on which a handle for the root directory has been given out.\<close>

definition sample_root :: "(memfs, string) AbsfsNFS" where
  "sample_root = (sample_server sample_options)
     \<lparr>fileMap := snd (Allocate newFileMap (NodeFile \<lparr>n_path = ''/'', n_cell = 0\<rparr>))\<rparr>"

lemma sample_root_facts:
  "ops sample_root = mem_ops" "0 \<le> clock sample_root n" "fs sample_root = sample_fs"
  "Get (fileMap sample_root) 1 = Some (NodeFile \<lparr>n_path = ''/'', n_cell = 0\<rparr>)"
  "\<not> p_ReadOnly (policy sample_root)"
  using New_fields [OF sample_New [OF sample_settings]]
  by (simp add: sample_root_def sample_clock_def)
    (simp add: sample_root_def sample_clock_nonneg, simp add: sample_root_def New_fields [OF sample_New [OF sample_settings]],
      code_simp+)

theorem chmod_hides_directory_witness:
  "\<exists>attrs w1. snd (run_state (handleSetattr (setattr_args 1 (chmod_sattr 448) None @ [])
      (new_reply (call_Header (mem_call 100003 2))) sample_ctx) sample_root) = w1 \<and>
    run_state (handleLookup (xdrEncodeFileHandle 1 @ xdrEncodeString ''a'' @ [])
      (new_reply (call_Header (mem_call 100003 3))) sample_ctx) w1 =
    (set_data (new_reply (call_Header (mem_call 100003 3))) (xdrEncodeUint32 NFSERR_NOTDIR @ encodePostOpAttr attrs), w1)"
proof -
  let ?node = "\<lparr>n_path = ''/'', n_cell = 0\<rparr>" and ?s = "(''/'', MemDir 448 5) # tl sample_fs"
  have m: "(448 :: u32) AND 0x8000 = 0" "\<not> mode_is_dir 448" "validateFilename ''a'' = NFS_OK" by code_simp+
  have p: "(448 :: u32) AND os_ModePerm = 448" by code_simp
  have f: "fs_Stat (ops sample_root) (fs sample_root) (n_path ?node) = Inr (mem_info ''/'' (MemDir 493 5))"
      "fs_Lstat (ops sample_root) (fs sample_root) (n_path ?node) = Inr (mem_info ''/'' (MemDir 493 5))"
      "fs_Do (ops sample_root) (fs sample_root) (Chmod_call (n_path ?node) (448 AND os_ModePerm)) = (None, ?s)"
      "fs_Lstat (ops sample_root) ?s (n_path ?node) = Inr (mem_info ''/'' (MemDir 448 5))"
    unfolding sample_root_facts p
    by (simp_all add: mem_ops_def mem_Lstat_def sample_fs_def mem_change_def)
  have n: "length ''a'' \<le> 255" "CHR 0x00 \<notin> set ''a''" by simp_all
  from chmod_hides_directory [OF _ sample_root_facts(4,5) m(1,2) f(1,3,2,4) n(1) m(3) n(2), of "[]"
      "new_reply (call_Header (mem_call 100003 2))" sample_ctx "[]" "new_reply (call_Header (mem_call 100003 3))" sample_ctx]
  show ?thesis using sample_root_facts(2) by auto
qed

section \<open>MKDIR and the negative cache\<close>

text \<open>
  C40: A directory can be created and reported as missing.  If the name was looked up shortly before, so
  that the attribute cache still remembers that it does not exist, MKDIR makes the directory and
  then answers "no such file", because it does not clear that entry before it looks the new directory up.
\<close>

theorem mkdir_reports_missing:
  assumes "\<forall>n. 0 \<le> clock w n" and "Get (fileMap w) h = Some (NodeFile node)" and "\<not> p_ReadOnly (policy w)"
    and "fs_Lstat (ops w) (fs w) (n_path node) = Inr info" and "dirPath = path_Join (n_path node) name" and "dirPath \<noteq> []"
    and "fs_Do (ops w) (fs w) (Mkdir_call dirPath mode) = (None, s1)"
    and "fs_Do (ops w) s1 (Chown_call dirPath (uint (EffectiveUID authCtx)) (uint (EffectiveGID authCtx))) = (r2, s2)"
    and "length name \<le> 255" and "validateFilename name = NFS_OK" and "CHR 0x00 \<notin> set name"
    and "validateMode mode True = NFS_OK" and "prompt LookupTimeout w"
    and "w1 = snd (run_state (GetAttr node) w)"
    and "fst (AttrCache_Get dirPath (clock w (tick w1 + 2)) (clock w (tick w1 + 3)) (attrCache w1)) = (None, True)"
  shows "\<exists>w'. run_state (handleMkdir (xdrEncodeFileHandle h @ xdrEncodeString name @ encode_sattr3 (chmod_sattr mode) @ rest)
        reply authCtx) w = (nfsErrorWithWcc reply NFSERR_NOENT, w') \<and> fs w' = s2"
proof -
  have plain: "plain_sattr (chmod_sattr mode)" by (simp add: plain_sattr_def chmod_sattr_def)
  obtain pre where g: "run_state (GetAttr node) w = (Inr pre, w1)" "quiet w w1"
    using getattr_run [OF assms(1), of node] assms(4,14) by (cases "run_state (GetAttr node) w") auto
  let ?w = "w1\<lparr>fs := s2\<rparr>"
  have t: "\<not> clock w (Suc (tick w1)) \<ge> clock w (tick w1) + LookupTimeout (the (t_Timeouts (tuning w)))"
    using assms(13) by (simp add: prompt_def not_le)
  obtain c where c: "AttrCache_Get dirPath (clock w (tick w1 + 2)) (clock w (tick w1 + 3)) (attrCache w1) = ((None, True), c)"
    using assms(15) by (cases "AttrCache_Get dirPath (clock w (tick w1 + 2)) (clock w (tick w1 + 3)) (attrCache w1)") auto
  obtain msg where l: "run_state (Lookup dirPath) ?w = (Inl (Wrap msg ErrNotExist), ?w\<lparr>tick := tick w1 + 4, attrCache := c\<rparr>)"
    using assms(6) t c g(2)
    by (simp add: Lookup_def run_simps Let_def eval_nat_numeral cong: exec_cong)
  have "mapError (Some (Wrap msg ErrNotExist)) = NFSERR_NOENT" by (simp add: mapError_def err_matches_def)
  then have "run_state (handleMkdir (xdrEncodeFileHandle h @ xdrEncodeString name @ encode_sattr3 (chmod_sattr mode) @ rest)
        reply authCtx) w = (nfsErrorWithWcc reply NFSERR_NOENT, ?w\<lparr>tick := tick w1 + 4, attrCache := c\<rparr>)"
    using assms(3,7-12) g l
    by (simp add: handleMkdir_def decodeSattr3_app [OF plain] read_simps run_simps run_with_node [OF assms(2)]
        assms(5) [symmetric] Let_def owner_for_def cong: exec_cong)
  then show ?thesis by simp
qed

text \<open>The same server after the name \<open>/new\<close> was looked up in vain.\<close>

definition sample_missed :: "(memfs, string) AbsfsNFS" where
  "sample_missed = snd (run_state (Lookup ''/new'') sample_root)"

theorem mkdir_reports_missing_witness:
  "\<exists>w'. run_state (handleMkdir (xdrEncodeFileHandle 1 @ xdrEncodeString ''new'' @ encode_sattr3 (chmod_sattr 493) @ [])
      (new_reply (call_Header (mem_call 100003 9))) sample_ctx) sample_missed =
    (nfsErrorWithWcc (new_reply (call_Header (mem_call 100003 9))) NFSERR_NOENT, w') \<and>
    map_of (fs w') ''/new'' = Some (MemDir 493 0)"
proof -
  let ?node = "\<lparr>n_path = ''/'', n_cell = 0\<rparr>"
  let ?s = "AList.update ''/new'' (MemDir 493 0) sample_fs"
  have w: "clock sample_missed = clock sample_root" "ops sample_missed = mem_ops" "fs sample_missed = sample_fs"
      "tuning sample_missed = tuning sample_root"
    using sample_root_facts(1,3)
    by (simp_all add: sample_missed_def Lookup_def run_simps Let_def split: option.splits sum.splits prod.splits if_splits)
  have c: "\<forall>n. 0 \<le> clock sample_missed n" using w(1) sample_root_facts(2) by simp
  have t: "prompt LookupTimeout sample_missed"
  proof -
    have "clock sample_missed n = 1000 + int n" for n
      using New_fields [OF sample_New [OF sample_settings]] by (simp add: w(1) sample_root_def sample_clock_def)
    moreover have "1 < LookupTimeout (the (t_Timeouts (tuning sample_missed)))" unfolding w(4) by code_simp
    ultimately show ?thesis by (simp add: prompt_def)
  qed
  have h: "Get (fileMap sample_missed) 1 = Some (NodeFile ?node)" "\<not> p_ReadOnly (policy sample_missed)" by code_simp+
  have f: "fs_Lstat (ops sample_missed) (fs sample_missed) (n_path ?node) = Inr (mem_info ''/'' (MemDir 493 5))"
      "fs_Do (ops sample_missed) (fs sample_missed) (Mkdir_call ''/new'' 493) = (None, ?s)"
      "fs_Do (ops sample_missed) ?s (Chown_call ''/new'' (uint (EffectiveUID sample_ctx)) (uint (EffectiveGID sample_ctx))) = (None, ?s)"
    unfolding w by (simp_all add: mem_ops_def mem_Lstat_def mem_add_def mem_change_def in_dir_def mem_parent_def sample_fs_def)
  have p: "''/new'' = path_Join (n_path ?node) ''new''" "validateFilename ''new'' = NFS_OK" "validateMode 493 True = NFS_OK"
    by code_simp+
  have n: "''/new'' \<noteq> []" "length ''new'' \<le> 255" "CHR 0x00 \<notin> set ''new''" by simp_all
  have g: "fst (AttrCache_Get ''/new'' (clock sample_missed (tick (snd (run_state (GetAttr ?node) sample_missed)) + 2))
      (clock sample_missed (tick (snd (run_state (GetAttr ?node) sample_missed)) + 3))
      (attrCache (snd (run_state (GetAttr ?node) sample_missed)))) = (None, True)" by code_simp
  from mkdir_reports_missing [OF c h f(1) p(1) n(1) f(2,3) n(2) p(2) n(3) p(3) t refl g, of "[]"
      "new_reply (call_Header (mem_call 100003 9))"]
  show ?thesis by (auto simp: update_conv')
qed

end
