(* ===== verification/CallTheorems.thy ===== *)
theory CallTheorems
  imports FileData
begin

text \<open>
  Theorems about calls that are refused, creations that fail, and option changes that are
  rejected: what the caller is told and what has changed all the same.
\<close>

section \<open>Refused calls\<close>

text \<open>The status of RFC 1831 for a call that no procedure answers.\<close>

definition refusal :: "RPCMsgHeader \<Rightarrow> u32 option" where
  "refusal hdr =
     (if Program hdr = MOUNT_PROGRAM then
        (if Version hdr \<notin> {1, 3} then Some PROG_MISMATCH
         else if Procedure hdr > 5 then Some PROC_UNAVAIL else None)
      else if Program hdr = NFS_PROGRAM then
        (if Version hdr \<noteq> 3 then Some PROG_MISMATCH
         else if Procedure hdr > 21 then Some PROC_UNAVAIL else None)
      else Some PROG_UNAVAIL)"

lemma nfsHandlers_none: "p > 21 \<Longrightarrow> nfsHandlers p = None"
  by (auto simp: nfsHandlers_def)

lemma refused_dispatch:
  assumes "refusal hdr = Some st"
  shows "run_state (if Program hdr = MOUNT_PROGRAM then handleMountCall hdr body reply authCtx
      else if Program hdr = NFS_PROGRAM then handleNFSCall hdr body reply authCtx
      else State_Monad.return (reply\<lparr>AcceptStatus := PROG_UNAVAIL\<rparr>)) w = (reply\<lparr>AcceptStatus := st\<rparr>, w)"
proof -
  have "p \<notin> {0, 1, 2, 3, 4, 5}" if "p > 5" for p :: u32
    using that by auto
  then show ?thesis
    using assms by (auto simp: refusal_def nfsHandlers_none handleMountCall_def handleNFSCall_def split: if_splits)
qed

text \<open>
  C14: A call that is not served leaves no trace.  While a policy change drains the server, every call is
  answered with the retry status at once; a call that fails authentication is denied; a call
  for an unknown program, version or procedure is answered with the RPC status for that (or times
  out).  In all these cases nothing but the clock moves: no file, handle, node, cache or limiter changes.
\<close>

theorem refused_calls_change_nothing:
  shows "run_state (HandleCall True late call body authCtx) w =
      (Inr (set_data (new_reply (call_Header call)) (xdrEncodeUint32 NFSERR_JUKEBOX)), w) \<and>
    (\<not> Allowed (fst (ValidateAuthentication authCtx (policy w))) \<longrightarrow>
      (\<exists>t. run_state (HandleCall False late call body authCtx) w =
        (Inr ((new_reply (call_Header call))\<lparr>Status := MSG_DENIED\<rparr>), w\<lparr>tick := t\<rparr>))) \<and>
    (\<forall>st. refusal (call_Header call) = Some st \<longrightarrow> Allowed (fst (ValidateAuthentication authCtx (policy w))) \<longrightarrow>
      (\<exists>t r. run_state (HandleCall False late call body authCtx) w = (r, w\<lparr>tick := t\<rparr>) \<and>
        r \<in> {Inr ((new_reply (call_Header call))\<lparr>AcceptStatus := st\<rparr>), Inl (ErrText ''operation timed out'')}))"
proof (intro conjI allI impI)
  show "run_state (HandleCall True late call body authCtx) w =
      (Inr (set_data (new_reply (call_Header call)) (xdrEncodeUint32 NFSERR_JUKEBOX)), w)"
    by (simp add: HandleCall_def)
next
  assume "\<not> Allowed (fst (ValidateAuthentication authCtx (policy w)))"
  then show "\<exists>t. run_state (HandleCall False late call body authCtx) w =
        (Inr ((new_reply (call_Header call))\<lparr>Status := MSG_DENIED\<rparr>), w\<lparr>tick := t\<rparr>)"
    by (cases "ValidateAuthentication authCtx (policy w)")
      (auto simp: HandleCall_def run_simps Let_def cong: exec_cong)
next
  fix st
  assume st: "refusal (call_Header call) = Some st" and "Allowed (fst (ValidateAuthentication authCtx (policy w)))"
  then show "\<exists>t r. run_state (HandleCall False late call body authCtx) w = (r, w\<lparr>tick := t\<rparr>) \<and>
        r \<in> {Inr ((new_reply (call_Header call))\<lparr>AcceptStatus := st\<rparr>), Inl (ErrText ''operation timed out'')}"
    by (cases "ValidateAuthentication authCtx (policy w)")
      (auto simp: HandleCall_def run_simps(1-5) run_time run_state_return run_state_bind Let_def refused_dispatch [OF st]
        simp del: run_if cong: exec_cong)
qed

theorem refused_calls_change_nothing_witness:
  "fs (snd (run_state (HandleCall False False (mem_call 100003 22) [] sample_ctx) (sample_server sample_options))) = sample_fs \<and>
   refusal (call_Header (mem_call 100003 22)) = Some PROC_UNAVAIL"
proof -
  let ?w = "sample_server sample_options"
  have r: "refusal (call_Header (mem_call 100003 22)) = Some PROC_UNAVAIL" by (simp add: refusal_def mem_call_def)
  have "Allowed (fst (ValidateAuthentication sample_ctx (policy ?w)))" "fs ?w = sample_fs" by code_simp+
  with r refused_calls_change_nothing [of False "mem_call 100003 22" "[]" sample_ctx ?w] show ?thesis by auto
qed

section \<open>Creations that fail\<close>

lemma plain_not_exist: "\<not> os_IsExist ErrPermission" "\<not> os_IsExist ErrTimeout" "\<not> os_IsExist (ErrText m)"
  by (simp_all add: os_IsExist_def underlyingError_def err_matches_def)

lemma Lookup_error: "run_state (Lookup p) w = (Inl e, w') \<Longrightarrow> \<not> os_IsExist e"
  by (auto simp: Lookup_def run_simps Let_def plain_not_exist split: if_splits option.splits sum.splits prod.splits)

lemma Create_error: "run_state (Create dir name attrs) w = (Inl e, w') \<Longrightarrow> \<not> os_IsExist e"
  by (auto simp: Create_def run_simps Let_def plain_not_exist dest: Lookup_error
      split: if_splits option.splits sum.splits prod.splits)

text \<open>
  An exclusive CREATE is not idempotent.  The branch that should answer a repeated exclusive CREATE with
  the existing file asks whether the error of \<open>Create\<close> is an "exists" error, but \<open>Create\<close> wraps the
  error of the file system, and the question then always gets the answer no: whatever goes wrong, the
  reply is a failure with the status of that error and the attributes of the directory.
\<close>

theorem exclusive_create_fails:
  assumes "\<forall>n. 0 \<le> clock w n" and "Get (fileMap w) h = Some (NodeFile node)" and "\<not> p_ReadOnly (policy w)"
    and "fs_Lstat (ops w) (fs w) (n_path node) = Inr info"
    and "length name \<le> 255" and "validateFilename name = NFS_OK" and "CHR 0x00 \<notin> set name" and "length verf = 8"
    and "run_state (Create node name (NewNFSAttrs 420 0 0 0 (EffectiveUID authCtx) (EffectiveGID authCtx)))
           (snd (run_state (GetAttr node) w)) = (Inl e, w2)"
  shows "\<exists>pre post w'. run_state (handleCreate (xdrEncodeFileHandle h @ xdrEncodeString name @ xdrEncodeUint32 2 @ verf @ rest)
        reply authCtx) w = (set_data reply (xdrEncodeUint32 (mapError (Some e)) @ encodeWccData pre post), w') \<and>
      mapError (Some e) \<noteq> NFS_OK"
proof -
  obtain pre w1 where g: "run_state (GetAttr node) w = (Inr pre, w1)"
    using getattr_run [OF assms(1), of node] assms(4) by (cases "run_state (GetAttr node) w") auto
  obtain post w' where p: "run_state (post_attrs node pre) w2 = (post, w')" by fastforce
  have m: "validateMode 420 False = NFS_OK" by code_simp
  have ne: "\<not> os_IsExist e" by (rule Create_error [OF assms(9)])
  have "run_state (handleCreate (xdrEncodeFileHandle h @ xdrEncodeString name @ xdrEncodeUint32 2 @ verf @ rest)
        reply authCtx) w = (set_data reply (xdrEncodeUint32 (mapError (Some e)) @ encodeWccData pre post), w')"
    using assms(3,5-8) assms(9) [unfolded g snd_conv] m ne p
    by (simp add: handleCreate_def decode_create_how_def rbind_def rreturn_def read_simps rd_full_append run_simps Let_def
        run_with_node [OF assms(2)] g dir_failure_def cong: exec_cong)
  with mapError_Some_not_OK show ?thesis by blast
qed

section \<open>Options that are rejected\<close>

lemma side_effects_keep:
  "tuning (snd (run_state (applyTuningSideEffects old updated) w)) = tuning w"
  "policy (snd (run_state (applyTuningSideEffects old updated) w)) = policy w"
  by (simp_all add: applyTuningSideEffects_def run_modify Let_def)

text \<open>
  A rejected change of the options is half applied.  When new options ask for another squash mode,
  \<open>UpdateExportOptions\<close> reports an error and the policy stays as it was, but the tuning has
  by then been replaced by that of the rejected options.
\<close>

theorem rejected_options_change_tuning:
  assumes "o_Squash opts \<noteq> []" and "o_Squash opts \<noteq> p_Squash (policy w)"
  shows "\<exists>e w'. run_state (UpdateExportOptions opts) w = (Some e, w') \<and> policy w' = policy w \<and>
    tuning w' = merge_tuning opts (tuning w) \<and> t_TransferSize (tuning w') = o_TransferSize opts"
proof -
  let ?w = "w\<lparr>tuning := merge_tuning opts (tuning w)\<rparr>"
  obtain u w' where r: "run_state (applyTuningSideEffects (tuning w) (merge_tuning opts (tuning w))) ?w = (u, w')" by (rule prod.exhaust)
  then have w': "tuning w' = merge_tuning opts (tuning w)" "policy w' = policy w"
    using side_effects_keep [of "tuning w" "merge_tuning opts (tuning w)" ?w] by simp_all
  with assms r have "\<exists>e. run_state (UpdateExportOptions opts) w = (Some e, w')"
    by (simp add: UpdateExportOptions_def UpdateTuningOptions_def run_simps Let_def cong: exec_cong)
  with w' show ?thesis by (auto simp: merge_tuning_def Let_def tuningFromExportOptions_def)
qed

end
