(* ===== verification/Spec2Isabelle.thy ===== *)
theory Spec2Isabelle
  imports WorkerPool Workspace Metrics NodeFile Replies Listing ProcTheorems CallTheorems
begin

text \<open>
  Verification of absnfs, a server that exports any \<open>absfs\<close> file system over NFS version 3.

  \<^bold>\<open>The program.\<close>  Bytes arrive on TCP connections (\<open>server.go\<close>), are cut into records
  (\<open>rpc_transport.go\<close>) and decoded into RPC calls (\<open>rpc_types.go\<close>).  The server checks the address
  and the rate limit (\<open>rate_limiter.go\<close>), hands the call to a pool of workers
  (\<open>worker_pool.go\<close>), authenticates it (\<open>auth.go\<close>) and dispatches it (\<open>nfs_handlers.go\<close>,
  \<open>mount_handlers.go\<close>) to a procedure (the \<open>nfs_proc\<close> files).  A procedure decodes its arguments,
  finds the node of a file handle (\<open>filehandle.go\<close>, \<open>minheap.go\<close>), works on the exported file
  system through the operations (\<open>operations.go\<close>) and their caches (\<open>cache.go\<close>,
  \<open>attributes.go\<close>), and encodes a reply.  Options (\<open>options.go\<close>, \<open>absnfs.go\<close>, \<open>tls_config.go\<close>) can be
  changed while it runs, \<open>portmapper.go\<close> tells clients the ports, and \<open>metrics.go\<close> counts.

  \<^bold>\<open>How it is modelled.\<close>  Pure Go functions are HOL functions of the same name.  A struct is a record,
  an unsigned integer a word of its width, an \<open>int\<close> or duration an \<open>int\<close>, bytes are words of 8 bits,
  a string is a list of characters, a map is an association list with distinct keys (\<open>gomap\<close>), an
  error a value of \<open>goerr\<close> (\<open>GoErrors\<close>) and a fallible call a sum (\<open>result\<close>).  A reader is the list of
  bytes that are left.  Code that works on the server object is a computation of the state monad over
  the record \<open>AbsfsNFS\<close> (\<open>GoMonad\<close>, \<open>World\<close>).  Node attributes, which several holders share and
  change, live in a store of cells.  Every call of \<open>time.Now\<close> takes the next reading of a clock that is
  an arbitrary sequence.  The exported file system is third-party code: it is a record of methods over
  arbitrary types of states and open files, and a theorem that needs one of its documented properties
  states it as a hypothesis (\<open>read_contract\<close>, \<open>write_contract\<close>, \<open>read_close_pure\<close>, \<open>survives\<close>).
  \<open>MemFS\<close> is an in-memory file system that satisfies them, so that each theorem is applied to a concrete
  server.

  \<^bold>\<open>Foundations.\<close>
  \<^item> \<open>Prelude\<close>: words, lists, association lists, the collections of simplification rules.
  \<^item> \<open>GoErrors\<close>, \<open>GoMonad\<close>: error values with wrapping as \<open>errors.Is\<close> sees it, early returns, and the
    judgement \<open>spec P m Q\<close> with one rule for each construct of the code.

  \<^bold>\<open>Components without server state.\<close>
  \<^item> \<open>XDR\<close>, \<open>RPC\<close> (\<open>rpc_types.go\<close>, \<open>nfs_types.go\<close>): encoders and decoders, round trips, bounds on what
    is read.  \<open>RecordMarking\<close> (\<open>rpc_transport.go\<close>): what is written in fragments of any size is read
    back, and reading ends.
  \<^item> \<open>Paths\<close>: path cleaning, \<open>sanitizePath\<close> and the file name checks; a sanitized path stays below its
    directory.
  \<^item> \<open>MinHeap\<close>, \<open>FileHandle\<close>: the heap of free handles refines a multiset; handles are unique, bounded
    and found again, and the eviction loop returns.
  \<^item> \<open>LRU\<close>, \<open>Attributes\<close>, \<open>Cache\<close>: the two caches refine one abstract least recently used map, a locale
    that both interpret.
  \<^item> \<open>RateLimiter\<close>: rates of the token bucket and of the sliding window, and that the limiter per address
    decides as one bucket per address would that is never cleaned up.
  \<^item> \<open>Options\<close>, \<open>IPAddr\<close>, \<open>NetAddr\<close>, \<open>Auth\<close>: options and their conversions, address parsing as in
    \<open>net\<close>, the authentication decision and the allow list.
  \<^item> \<open>Portmapper\<close>: the registry as a locale over its history, the procedures of versions 2 to 4, its
    connections as a step relation.
  \<^item> \<open>WorkerPool\<close>: submission, workers, stop and resize as a step relation; no task runs twice or is
    lost while the pool runs, a running pool serves what is queued, and what a stop strands.
  \<^item> \<open>Metrics\<close>: counters wrap at 64 bits; latencies and health are those of the most recent samples.

  \<^bold>\<open>The server.\<close>
  \<^item> \<open>Operations\<close> (\<open>operations.go\<close>), \<open>ProcCommon\<close>, \<open>ProcAttr\<close>, \<open>ProcData\<close>, \<open>ProcName\<close>, \<open>ProcDir\<close> (the
    \<open>nfs_proc\<close> files), \<open>Dispatch\<close> (\<open>nfs_handlers.go\<close>, \<open>mount_handlers.go\<close>) and \<open>Lifecycle\<close> (\<open>New\<close>, live
    updates, \<open>Close\<close>) are the code, in its order.  \<open>NodeFile\<close> is a node as an open file
    (\<open>nfs_node.go\<close>).
  \<^item> \<open>Invariants\<close> has the locales \<open>observing\<close> and \<open>serving\<close>: from what a property needs of the basic
    steps follows that every procedure and \<open>HandleCall\<close> keep it.  \<open>Guarantees\<close> interprets them for the
    invariant of the server, for read-only exports, for confinement and for the configuration.
  \<^item> \<open>ServerTheorems\<close>, \<open>Replies\<close>, \<open>FileData\<close>, \<open>Listing\<close>, \<open>ProcTheorems\<close>, \<open>CallTheorems\<close>: reachable
    states, read-only exports, confinement, the shape of every reply, reading what was written, what
    a client sees of a directory that it walks through with READDIR, access decisions, guarded updates and refused calls.
  \<^item> \<open>Server\<close> and \<open>Network\<close> (\<open>server.go\<close>): start, connection accounting, the accept loop and the loop of a
    connection, with a step relation in which connections interleave.  The guarantees of the calls are
    lifted to whatever bytes arrive, and a call is followed from the wire to its reply.
  \<^item> \<open>Workspace\<close> (\<open>examples/composed-workspace/main.go\<close>): mounts, a read-only and a base path wrapper
    as file systems, and what clients of the composition cannot change.

  \<^bold>\<open>Bounds and fuel.\<close>  There is no fuel.  The recursions are structural, over the bytes left of a stream,
  the entries of a listing or the elements of a map, or have a termination proof.  Two loops of the
  sources need not end for every value of their variables, the one that evicts handles and the one that
  writes the fragments of a record.  They are partial functions into \<open>option\<close>, and that they return
  wherever the program calls them is proved (\<open>eviction_returns\<close>, \<open>WriteReply_returns\<close>).  Unbounded sequences
  of requests, network events and worker steps are reachability in a step relation.

  \<^bold>\<open>Behaviour that differs from its description.\<close>  Theorems named after it show, among others, that cached
  attributes are never served, that setting the mode of a directory hides it, that MKDIR of a name
  that was looked up before reports an error although it succeeds, that a handle can be evicted while
  it is given out, that a record of the advertised write size is refused, that rpcbind SET is open to
  everyone, that READDIR leaves names with two dots in a row out of a listing it calls complete, that a
  tuning update can leave the server without timeouts, and that stopping the pool strands its queue.

  \<^bold>\<open>Not modelled.\<close>  Log output (\<open>logger.go\<close> and the calls of the loggers), which influences nothing else;
  loading certificates and building the \<open>crypto/tls\<close> configuration, whose outcome is an argument of
  \<open>Listen\<close>; socket options; waiting for goroutines at shutdown.  Data races are not modelled: an
  operation that holds a lock is one step, and the procedures of a call run in one piece, as they do for
  the calls of one connection.  Without record marking, the number of bytes that a handler takes from the
  connection is an argument.  Methods of \<open>NFSNode\<close> over file positions are left out, since the server
  never uses them.  The commands (\<open>cmd/testserver\<close>, \<open>examples/fusion-drive\<close>) consist of flags,
  messages and calls into other modules, and \<open>integration_test_safety.go\<close> runs mount commands for the
  tests.
\<close>

end
